(* ===== verification/Js_Prelude.thy ===== *)
theory Js_Prelude
  imports Complex_Main "HOL-Library.AList" "HOL-Library.Multiset"
begin

text \<open>
  Shared vocabulary of the development: what the TypeScript sources use of the JavaScript
  language and its standard library, and the generic lemmas the component theories share.

  \<^item> \<open>jm_*\<close>: a JavaScript \<open>Map\<close>, which iterates in insertion order. It is an association list
    without duplicate keys; \<open>set\<close> on a present key keeps its position, on an absent key appends.
    The locale \<open>keyed_store\<close> is the interface the stateful components rely on.
  \<^item> \<open>js_sort\<close>: \<open>Array.prototype.sort\<close> with a comparator, which ECMAScript 2019 requires to be stable.
  \<^item> strings as lists of code units, with \<open>trim\<close>, \<open>toUpperCase\<close> and \<open>toLowerCase\<close> on ASCII, and the
    decimal rendering of integers used in template literals.
  \<^item> numbers: integral \<open>number\<close> values (times, counters, sizes) are \<open>int\<close> or \<open>nat\<close>, fractional ones
    (ratios, percentages) are \<open>rat\<close>. The rounding of binary floating point is not modelled.
\<close>

named_theorems jm_simps \<open>rewrite rules of the insertion-ordered Map\<close>

subsection \<open>The insertion-ordered Map\<close>

type_synonym ('k, 'v) js_map = "('k \<times> 'v) list"

definition jm_get :: "('k, 'v) js_map \<Rightarrow> 'k \<Rightarrow> 'v option" where
  "jm_get m k = map_of m k"

definition jm_set :: "('k, 'v) js_map \<Rightarrow> 'k \<Rightarrow> 'v \<Rightarrow> ('k, 'v) js_map" where
  "jm_set m k v = AList.update k v m"

definition jm_delete :: "('k, 'v) js_map \<Rightarrow> 'k \<Rightarrow> ('k, 'v) js_map" where
  "jm_delete m k = filter (\<lambda>e. fst e \<noteq> k) m"

definition jm_has :: "('k, 'v) js_map \<Rightarrow> 'k \<Rightarrow> bool" where
  "jm_has m k \<longleftrightarrow> jm_get m k \<noteq> None"

abbreviation jm_values :: "('k, 'v) js_map \<Rightarrow> 'v list" where
  "jm_values m \<equiv> map snd m"

abbreviation jm_keys :: "('k, 'v) js_map \<Rightarrow> 'k list" where
  "jm_keys m \<equiv> map fst m"

definition jm_wf :: "('k, 'v) js_map \<Rightarrow> bool" where
  "jm_wf m \<longleftrightarrow> distinct (map fst m)"

lemma jm_get_empty [simp, jm_simps]: "jm_get [] k = None"
  by (simp add: jm_get_def)

lemma jm_get_Cons [jm_simps]: "jm_get (e # m) k = (if fst e = k then Some (snd e) else jm_get m k)"
  by (cases e) (simp add: jm_get_def)

lemma jm_set_empty [simp, jm_simps]: "jm_set [] k v = [(k, v)]"
  by (simp add: jm_set_def)

lemma jm_set_Cons [jm_simps]:
  "jm_set (e # m) k v = (if fst e = k then (k, v) # m else e # jm_set m k v)"
  by (simp add: jm_set_def)

lemma jm_get_set: "jm_get (jm_set m k v) k' = (if k' = k then Some v else jm_get m k')"
  by (simp add: jm_get_def jm_set_def update_conv)

lemma jm_get_set_same [simp]: "jm_get (jm_set m k v) k = Some v"
  by (simp add: jm_get_set)

lemma jm_get_set_other [simp]: "k' \<noteq> k \<Longrightarrow> jm_get (jm_set m k v) k' = jm_get m k'"
  by (simp add: jm_get_set)

lemma jm_get_delete: "jm_get (jm_delete m k) k' = (if k' = k then None else jm_get m k')"
  by (induction m) (auto simp: jm_get_def jm_delete_def)

lemma jm_delete_empty [simp, jm_simps]: "jm_delete [] k = []"
  by (simp add: jm_delete_def)

lemma jm_wf_empty [simp]: "jm_wf []"
  by (simp add: jm_wf_def)

lemma jm_wf_set [simp, intro]: "jm_wf m \<Longrightarrow> jm_wf (jm_set m k v)"
  by (simp add: jm_wf_def jm_set_def distinct_update)

lemma jm_wf_delete [simp, intro]: "jm_wf m \<Longrightarrow> jm_wf (jm_delete m k)"
  by (simp add: jm_wf_def jm_delete_def distinct_map_filter)

lemma jm_get_mem: "jm_get m k = Some v \<Longrightarrow> (k, v) \<in> set m"
  by (simp add: jm_get_def map_of_SomeD)

lemma jm_mem_get: "jm_wf m \<Longrightarrow> (k, v) \<in> set m \<Longrightarrow> jm_get m k = Some v"
  by (simp add: jm_get_def jm_wf_def)

lemma jm_get_iff_mem: "jm_wf m \<Longrightarrow> jm_get m k = Some v \<longleftrightarrow> (k, v) \<in> set m"
  by (metis jm_get_mem jm_mem_get)

lemma jm_get_None: "jm_get m k = None \<longleftrightarrow> k \<notin> set (jm_keys m)"
  by (simp add: jm_get_def map_of_eq_None_iff image_image)

lemma jm_values_get: "v \<in> set (jm_values m) \<Longrightarrow> jm_wf m \<Longrightarrow> \<exists>k. jm_get m k = Some v"
  by (auto simp: jm_get_iff_mem)

lemma jm_set_elems: "set (jm_set m k v) \<subseteq> insert (k, v) (set m)"
  by (induction m) (auto simp: jm_simps)

lemma jm_keys_set:
  "jm_keys (jm_set m k v) = (if k \<in> set (jm_keys m) then jm_keys m else jm_keys m @ [k])"
  by (induction m) (auto simp: jm_simps)

lemma jm_length_set:
  "length (jm_set m k v) = (if jm_has m k then length m else Suc (length m))"
  by (induction m) (auto simp: jm_simps jm_has_def)

text \<open>Rewriting every value in place, as a loop that mutates the values of a Map does.\<close>

text \<open>Totals over the values of a Map, for components that keep a running count of what they store.\<close>

definition jm_sum :: "('v \<Rightarrow> nat) \<Rightarrow> ('k, 'v) js_map \<Rightarrow> nat" where
  "jm_sum f m = sum_list (map f (jm_values m))"

lemma jm_sum_Nil [simp]: "jm_sum f [] = 0"
  by (simp add: jm_sum_def)

lemma jm_sum_Cons [simp]: "jm_sum f (e # m) = f (snd e) + jm_sum f m"
  by (simp add: jm_sum_def)

lemma jm_delete_Cons [jm_simps]: "jm_delete (e # m) k = (if fst e = k then jm_delete m k else e # jm_delete m k)"
  by (simp add: jm_delete_def)

lemma jm_sum_set:
  "jm_sum f (jm_set m k v) + (case jm_get m k of None \<Rightarrow> 0 | Some u \<Rightarrow> f u) = jm_sum f m + f v"
  by (induction m) (auto simp: jm_set_Cons jm_get_Cons split: option.splits)

lemma jm_delete_absent: "jm_get m k = None \<Longrightarrow> jm_delete m k = m"
  by (induction m) (auto simp: jm_delete_Cons jm_get_Cons split: if_splits)

lemma jm_sum_delete:
  "jm_wf m \<Longrightarrow> jm_sum f (jm_delete m k) + (case jm_get m k of None \<Rightarrow> 0 | Some u \<Rightarrow> f u) = jm_sum f m"
proof (induction m)
  case (Cons e m)
  then have "jm_wf m" "fst e \<notin> set (jm_keys m)" by (auto simp: jm_wf_def)
  then show ?case
    using Cons.IH by (auto simp: jm_delete_Cons jm_get_Cons jm_delete_absent jm_get_None)
qed simp

lemma jm_length_delete:
  "jm_wf m \<Longrightarrow> length (jm_delete m k) = length m - (if jm_has m k then 1 else 0)"
proof (induction m)
  case (Cons e m)
  then have w: "jm_wf m" "jm_get m (fst e) = None" by (auto simp: jm_wf_def jm_get_None)
  have "0 < length m" if "jm_has m k" using that by (auto simp: jm_has_def)
  with Cons.IH w show ?case
    by (cases "fst e = k") (auto simp: jm_delete_Cons jm_get_Cons jm_delete_absent jm_has_def)
qed simp

definition jm_map_values :: "('v \<Rightarrow> 'v) \<Rightarrow> ('k, 'v) js_map \<Rightarrow> ('k, 'v) js_map" where
  "jm_map_values f m = map (\<lambda>(k, v). (k, f v)) m"

lemma jm_get_map_values: "jm_get (jm_map_values f m) k = map_option f (jm_get m k)"
  by (induction m) (auto simp: jm_map_values_def jm_get_def)

lemma jm_keys_map_values [simp]: "jm_keys (jm_map_values f m) = jm_keys m"
  by (induction m) (auto simp: jm_map_values_def)

lemma jm_wf_map_values [simp]: "jm_wf (jm_map_values f m) = jm_wf m"
  by (simp only: jm_wf_def jm_keys_map_values)

lemma jm_values_map_values: "jm_values (jm_map_values f m) = map f (jm_values m)"
  by (induction m) (auto simp: jm_map_values_def)

subsection \<open>The interface of a keyed store\<close>

text \<open>
  What a component that keeps records under keys relies on: a lookup after a write, and that
  writes keep the store well formed. \<open>all_stored\<close> lifts a predicate on records to the store, and
  the lemmas show the one invariant argument that most components repeat.
\<close>

locale keyed_store =
  fixes get :: "'s \<Rightarrow> 'k \<Rightarrow> 'v option"
    and put :: "'s \<Rightarrow> 'k \<Rightarrow> 'v \<Rightarrow> 's"
    and del :: "'s \<Rightarrow> 'k \<Rightarrow> 's"
    and wf :: "'s \<Rightarrow> bool"
  assumes get_put: "wf s \<Longrightarrow> get (put s k v) k' = (if k' = k then Some v else get s k')"
    and get_del: "wf s \<Longrightarrow> get (del s k) k' = (if k' = k then None else get s k')"
    and wf_put: "wf s \<Longrightarrow> wf (put s k v)"
    and wf_del: "wf s \<Longrightarrow> wf (del s k)"
begin

definition all_stored :: "('k \<Rightarrow> 'v \<Rightarrow> bool) \<Rightarrow> 's \<Rightarrow> bool" where
  "all_stored P s \<longleftrightarrow> wf s \<and> (\<forall>k v. get s k = Some v \<longrightarrow> P k v)"

lemma all_stored_put: "all_stored P s \<Longrightarrow> P k v \<Longrightarrow> all_stored P (put s k v)"
  by (auto simp: all_stored_def get_put wf_put split: if_splits)

lemma all_stored_del: "all_stored P s \<Longrightarrow> all_stored P (del s k)"
  by (auto simp: all_stored_def get_del wf_del split: if_splits)

lemma all_storedD: "all_stored P s \<Longrightarrow> get s k = Some v \<Longrightarrow> P k v"
  by (auto simp: all_stored_def)

lemma all_stored_wf: "all_stored P s \<Longrightarrow> wf s"
  by (simp add: all_stored_def)

lemma all_stored_mono:
  "all_stored P s \<Longrightarrow> (\<And>k v. get s k = Some v \<Longrightarrow> P k v \<Longrightarrow> Q k v) \<Longrightarrow> all_stored Q s"
  by (auto simp: all_stored_def)

lemma put_put_commute:
  "wf s \<Longrightarrow> k \<noteq> k' \<Longrightarrow> get (put (put s k v) k' v') j = get (put (put s k' v') k v) j"
  by (simp add: get_put wf_put)

end

interpretation jm: keyed_store jm_get jm_set jm_delete jm_wf
  by unfold_locales (auto simp: jm_get_set jm_get_delete)

lemma jm_all_stored_empty [simp]: "jm.all_stored P []"
  by (simp add: jm.all_stored_def)

lemma jm_all_stored_values: "jm.all_stored P m \<Longrightarrow> (k, v) \<in> set m \<Longrightarrow> P k v"
  by (metis jm.all_stored_def jm_get_iff_mem)

lemma jm_all_stored_map_values:
  "jm.all_stored P m \<Longrightarrow> (\<And>k v. P k v \<Longrightarrow> Q k (f v)) \<Longrightarrow> jm.all_stored Q (jm_map_values f m)"
  by (auto simp: jm.all_stored_def jm_get_map_values)

subsection \<open>Stable sorting with a comparator\<close>

fun js_insert :: "('a \<Rightarrow> 'a \<Rightarrow> int) \<Rightarrow> 'a \<Rightarrow> 'a list \<Rightarrow> 'a list" where
  "js_insert cmp x [] = [x]"
| "js_insert cmp x (y # ys) = (if cmp x y \<le> 0 then x # y # ys else y # js_insert cmp x ys)"

definition js_sort :: "('a \<Rightarrow> 'a \<Rightarrow> int) \<Rightarrow> 'a list \<Rightarrow> 'a list" where
  "js_sort cmp xs = foldr (js_insert cmp) xs []"

lemma mset_js_insert [simp]: "mset (js_insert cmp x xs) = add_mset x (mset xs)"
  by (induction xs) auto

lemma mset_js_sort [simp]: "mset (js_sort cmp xs) = mset xs"
  by (induction xs) (auto simp: js_sort_def)

lemma set_js_sort [simp]: "set (js_sort cmp xs) = set xs"
  by (metis mset_js_sort set_mset_mset)

lemma set_js_insert [simp]: "set (js_insert cmp x xs) = insert x (set xs)"
  by (induction xs) auto

lemma length_js_sort [simp]: "length (js_sort cmp xs) = length xs"
  by (metis mset_js_sort size_mset)

text \<open>A comparator that agrees with the order of a key sorts by that key.\<close>

definition cmp_by :: "('a \<Rightarrow> 'b::linorder) \<Rightarrow> ('a \<Rightarrow> 'a \<Rightarrow> int) \<Rightarrow> bool" where
  "cmp_by f cmp \<longleftrightarrow> (\<forall>x y. cmp x y \<le> 0 \<longleftrightarrow> f x \<le> f y)"

lemma sorted_js_insert:
  "cmp_by f cmp \<Longrightarrow> sorted (map f xs) \<Longrightarrow> sorted (map f (js_insert cmp x xs))"
  by (induction xs) (auto simp: cmp_by_def)

lemma sorted_js_sort: "cmp_by f cmp \<Longrightarrow> sorted (map f (js_sort cmp xs))"
  by (induction xs) (auto simp: js_sort_def sorted_js_insert)

lemma map_js_sort: "cmp_by f cmp \<Longrightarrow> map f (js_sort cmp xs) = sort (map f xs)"
  by (rule properties_for_sort [symmetric]) (auto simp: sorted_js_sort)

subsection \<open>Strings\<close>

definition js_upper_char :: "char \<Rightarrow> char" where
  "js_upper_char c = (if (97::nat) \<le> of_char c \<and> of_char c \<le> (122::nat) then char_of (of_char c - 32 :: nat) else c)"

definition js_lower_char :: "char \<Rightarrow> char" where
  "js_lower_char c = (if (65::nat) \<le> of_char c \<and> of_char c \<le> (90::nat) then char_of (of_char c + 32 :: nat) else c)"

definition js_toUpperCase :: "string \<Rightarrow> string" where
  "js_toUpperCase = map js_upper_char"

definition js_toLowerCase :: "string \<Rightarrow> string" where
  "js_toLowerCase = map js_lower_char"

definition js_is_space :: "char \<Rightarrow> bool" where
  "js_is_space c \<longleftrightarrow> of_char c \<in> set [9, 10, 11, 12, 13, 32, 160 :: nat]"

definition js_trim :: "string \<Rightarrow> string" where
  "js_trim s = rev (dropWhile js_is_space (rev (dropWhile js_is_space s)))"

text \<open>Decimal rendering of an integer, as string interpolation of an integral number does it.\<close>

fun js_digits :: "nat \<Rightarrow> string" where
  "js_digits n = (if n < 10 then [char_of (48 + n)] else js_digits (n div 10) @ [char_of (48 + n mod 10)])"

declare js_digits.simps [simp del]

definition js_show_int :: "int \<Rightarrow> string" where
  "js_show_int i = (if i < 0 then CHR ''-'' # js_digits (nat (- i)) else js_digits (nat i))"

fun js_undigits :: "string \<Rightarrow> nat" where
  "js_undigits s = fold (\<lambda>c a. 10 * a + (of_char c - 48)) s 0"

declare js_undigits.simps [simp del]

lemma js_undigits_digits: "js_undigits (js_digits n) = n"
proof (induction n rule: js_digits.induct)
  case (1 n)
  show ?case
  proof (cases "n < 10")
    case True
    then show ?thesis by (simp add: js_digits.simps [of n] js_undigits.simps)
  next
    case False
    with 1 have "js_undigits (js_digits (n div 10)) = n div 10" by simp
    moreover have "(48 + n mod 10) mod 256 = 48 + n mod 10"
      by (rule mod_less) (use mod_less_divisor [of 10 n] in linarith)
    ultimately show ?thesis
      using False by (simp add: js_digits.simps [of n] js_undigits.simps)
  qed
qed

lemma js_digits_inj: "js_digits m = js_digits n \<Longrightarrow> m = n"
  by (metis js_undigits_digits)

lemma js_digits_chars: "c \<in> set (js_digits n) \<Longrightarrow> 48 \<le> (of_char c :: nat) \<and> of_char c < (58 :: nat)"
proof (induction n rule: js_digits.induct)
  case (1 n)
  show ?case
  proof (cases "n < 10")
    case True
    with 1 show ?thesis by (simp add: js_digits.simps [of n])
  next
    case False
    have b: "(48 + n mod 10) mod 256 = 48 + n mod 10"
      by (rule mod_less) (use mod_less_divisor [of 10 n] in linarith)
    from False "1.prems" have "c \<in> set (js_digits (n div 10)) \<or> c = char_of (48 + n mod 10)"
      by (auto simp: js_digits.simps [of n])
    then show ?thesis
      using False "1.IH" b mod_less_divisor [of 10 n] by auto
  qed
qed

text \<open>A template literal \<open>`${n}:${s}`\<close> with a numeric first part determines both parts.\<close>

lemma takeWhile_digits: "takeWhile (\<lambda>c. c \<noteq> CHR '':'') (js_digits n @ CHR '':'' # s) = js_digits n"
proof -
  have "\<forall>c \<in> set (js_digits n). c \<noteq> CHR '':''"
    using js_digits_chars by fastforce
  then show ?thesis by (simp add: takeWhile_append)
qed

lemma js_digits_colon_inj:
  assumes "js_digits m @ CHR '':'' # s = js_digits n @ CHR '':'' # t"
  shows "m = n \<and> s = t"
proof -
  from assms have "js_digits m = js_digits n"
    by (metis takeWhile_digits)
  with assms show ?thesis by (auto dest: js_digits_inj)
qed

subsection \<open>Numbers and dynamic values\<close>

text \<open>
  A \<open>number\<close> where the code tests for \<open>NaN\<close> or the infinities, and a value of type \<open>unknown\<close>
  (a parsed payload field).
\<close>

datatype js_num = Fin rat | NaN | PosInf | NegInf

datatype js_value =
    JUndefined | JNull | JBool bool | JNumber js_num | JString string
  | JArray "js_value list" | JObject "(string \<times> js_value) list"

fun jn_isFinite :: "js_num \<Rightarrow> bool" where
  "jn_isFinite (Fin r) = True"
| "jn_isFinite _ = False"

fun jn_isInteger :: "js_num \<Rightarrow> bool" where
  "jn_isInteger (Fin r) \<longleftrightarrow> of_int \<lfloor>r\<rfloor> = r"
| "jn_isInteger _ \<longleftrightarrow> False"

text \<open>The JavaScript comparison \<open>x > r\<close> with a finite right-hand side; \<open>NaN\<close> compares false.\<close>

fun jn_gt :: "js_num \<Rightarrow> rat \<Rightarrow> bool" where
  "jn_gt (Fin x) r \<longleftrightarrow> r < x"
| "jn_gt PosInf r \<longleftrightarrow> True"
| "jn_gt NegInf r \<longleftrightarrow> False"
| "jn_gt NaN r \<longleftrightarrow> False"

definition js_trunc :: "rat \<Rightarrow> int" where
  "js_trunc r = (if r < 0 then - \<lfloor>- r\<rfloor> else \<lfloor>r\<rfloor>)"

subsection \<open>Lists, options and arithmetic\<close>

abbreviation nullish :: "'a option \<Rightarrow> 'a \<Rightarrow> 'a" where
  "nullish x d \<equiv> (case x of None \<Rightarrow> d | Some v \<Rightarrow> v)"

lemma filter_length_split: "length (filter P xs) + length (filter (\<lambda>x. \<not> P x) xs) = length xs"
  by (induction xs) auto

lemma sum_list_map_snoc [simp]: "sum_list (map f (xs @ [x])) = sum_list (map f xs) + (f x :: 'a::comm_monoid_add)"
  by (simp add: add.commute)

end
