(* ===== verification/Median.thy ===== *)
theory Median
  imports Js_Prelude
begin

text \<open>
  The median of source prices on a common scale,
  \<open>services/aggregator/src/price-aggregation/median.ts\<close>, and the price record it reads,
  \<open>packages/types/src/index.ts\<close>.

  The decimal arithmetic is the third-party package \<open>bignumber.js\<close>: a record of operations over an
  abstract carrier, passed to every definition that uses it. What its documentation promises is the
  locale \<open>bignumber_laws\<close>, stated through the rational value of a number: sums, products and shifts
  are exact, \<open>dividedBy\<close> rounds half away from zero at 20 decimal places. \<open>rat_bignumber\<close> is an
  instance that computes exactly this. Nothing is assumed of the string conversions, which only
  carry values out of the model; the instance renders and reads integers.
\<close>

subsection \<open>Prices\<close>

datatype oracle_source = Chainlink | Redstone | Band | Reflector

record normalized_price =
  np_asset :: string
  np_price :: int
  np_decimals :: int
  np_source :: oracle_source
  np_timestamp :: int
  np_observedAt :: "int option"

subsection \<open>The BigNumber package as a parameter\<close>

record 'b bignumber =
  bn_of_bigint :: "int \<Rightarrow> 'b"
  bn_shiftedBy :: "'b \<Rightarrow> int \<Rightarrow> 'b"
  bn_comparedTo :: "'b \<Rightarrow> 'b \<Rightarrow> int option"
  bn_plus :: "'b \<Rightarrow> 'b \<Rightarrow> 'b"
  bn_minus :: "'b \<Rightarrow> 'b \<Rightarrow> 'b"
  bn_multipliedBy :: "'b \<Rightarrow> 'b \<Rightarrow> 'b"
  bn_dividedBy :: "'b \<Rightarrow> 'b \<Rightarrow> 'b"
  bn_abs :: "'b \<Rightarrow> 'b"
  bn_isZero :: "'b \<Rightarrow> bool"
  bn_roundHalfUp :: "'b \<Rightarrow> 'b" \<comment> \<open>\<open>decimalPlaces(0, ROUND_HALF_UP)\<close>\<close>
  bn_toNumber :: "'b \<Rightarrow> js_num"
  bn_gt :: "'b \<Rightarrow> 'b \<Rightarrow> bool"
  bn_lte :: "'b \<Rightarrow> 'b \<Rightarrow> bool"
  bn_isFinite :: "'b \<Rightarrow> bool"
  bn_toString :: "'b \<Rightarrow> string"
  bn_toFixed :: "'b \<Rightarrow> string"
  bn_of_string :: "string \<Rightarrow> 'b"

definition half_up :: "rat \<Rightarrow> int" where
  "half_up x = (if x < 0 then - \<lfloor>- x + 1 / 2\<rfloor> else \<lfloor>x + 1 / 2\<rfloor>)"

definition round_places :: "nat \<Rightarrow> rat \<Rightarrow> rat" where
  "round_places d x = of_int (half_up (x * 10 ^ d)) / 10 ^ d"

locale bignumber_laws =
  fixes bn :: "'b bignumber" and val :: "'b \<Rightarrow> rat"
  assumes val_of_bigint: "val (bn_of_bigint bn n) = of_int n"
    and val_shiftedBy: "val (bn_shiftedBy bn x k) = val x * 10 powi k"
    and comparedTo: "bn_comparedTo bn x y =
      Some (if val x < val y then -1 else if val x = val y then 0 else 1)"
    and val_plus: "val (bn_plus bn x y) = val x + val y"
    and val_minus: "val (bn_minus bn x y) = val x - val y"
    and val_multipliedBy: "val (bn_multipliedBy bn x y) = val x * val y"
    and val_dividedBy: "val y \<noteq> 0 \<Longrightarrow> val (bn_dividedBy bn x y) = round_places 20 (val x / val y)"
    and val_abs: "val (bn_abs bn x) = \<bar>val x\<bar>"
    and isZero: "bn_isZero bn x \<longleftrightarrow> val x = 0"
    and val_roundHalfUp: "val (bn_roundHalfUp bn x) = of_int (half_up (val x))"
    and toNumber: "bn_toNumber bn x = Fin (val x)"
    and gt: "bn_gt bn x y \<longleftrightarrow> val y < val x"
    and lte: "bn_lte bn x y \<longleftrightarrow> val x \<le> val y"

definition rat_bignumber :: "rat bignumber" where
  "rat_bignumber = \<lparr>
     bn_of_bigint = of_int,
     bn_shiftedBy = (\<lambda>x k. x * 10 powi k),
     bn_comparedTo = (\<lambda>x y. Some (if x < y then -1 else if x = y then 0 else 1)),
     bn_plus = (+), bn_minus = (-), bn_multipliedBy = (*),
     bn_dividedBy = (\<lambda>x y. round_places 20 (x / y)),
     bn_abs = abs, bn_isZero = (\<lambda>x. x = 0),
     bn_roundHalfUp = (\<lambda>x. of_int (half_up x)),
     bn_toNumber = Fin, bn_gt = (\<lambda>x y. y < x), bn_lte = (\<lambda>x y. x \<le> y), bn_isFinite = (\<lambda>_. True),
     bn_toString = (\<lambda>x. js_show_int (half_up x)), bn_toFixed = (\<lambda>x. js_show_int (half_up x)),
     bn_of_string = (\<lambda>s. of_nat (js_undigits s))\<rparr>"

interpretation rat_bn: bignumber_laws rat_bignumber "\<lambda>x. x"
  by unfold_locales (auto simp: rat_bignumber_def)

subsection \<open>The source\<close>

record 'b common_scale_median =
  csm_value :: 'b
  csm_decimals :: int

definition toScale :: "'b bignumber \<Rightarrow> 'm normalized_price_scheme \<Rightarrow> int \<Rightarrow> 'b" where
  "toScale bn p decimals =
     bn_shiftedBy bn (bn_of_bigint bn (np_price p)) (decimals - np_decimals p)"

definition maxDecimals :: "'m normalized_price_scheme list \<Rightarrow> int" where
  "maxDecimals prices = fold (\<lambda>p m. max m (np_decimals p)) prices 0"

definition medianOnCommonScale ::
  "'b bignumber \<Rightarrow> 'm normalized_price_scheme list \<Rightarrow> 'b common_scale_median" where
  "medianOnCommonScale bn prices =
     (if prices = [] then \<lparr>csm_value = bn_of_bigint bn 0, csm_decimals = 0\<rparr>
      else
        let decimals = maxDecimals prices;
            sorted = js_sort (\<lambda>a b. nullish (bn_comparedTo bn a b) 0)
                       (map (\<lambda>p. toScale bn p decimals) prices);
            mid = length sorted div 2;
            value = (if length sorted mod 2 = 0
                     then bn_roundHalfUp bn
                            (bn_dividedBy bn (bn_plus bn (sorted ! (mid - 1)) (sorted ! mid))
                               (bn_of_bigint bn 2))
                     else sorted ! mid)
        in \<lparr>csm_value = value, csm_decimals = decimals\<rparr>)"

definition isAgeVerified :: "'m normalized_price_scheme list \<Rightarrow> bool" where
  "isAgeVerified prices = list_all (\<lambda>p. np_observedAt p \<noteq> None) prices"

subsection \<open>The reference median over integers\<close>

text \<open>The price of \<open>p\<close> as an integer at the scale \<open>d\<close>, and the integer median of a list.\<close>

definition scaled :: "int \<Rightarrow> 'm normalized_price_scheme \<Rightarrow> int" where
  "scaled d p = np_price p * 10 ^ nat (d - np_decimals p)"

definition mean2 :: "int \<Rightarrow> int \<Rightarrow> int" where
  "mean2 a b = half_up (of_int (a + b) / 2)"

definition int_median :: "int list \<Rightarrow> int" where
  "int_median xs =
     (let s = sort xs; mid = length s div 2
      in if length s mod 2 = 0 then mean2 (s ! (mid - 1)) (s ! mid) else s ! mid)"

lemma half_up_int [simp]: "half_up (of_int n) = n"
proof -
  have "\<lfloor>(of_int m :: rat) + 1 / 2\<rfloor> = m" for m :: int
    by linarith
  from this [of n] this [of "- n"] show ?thesis by (simp add: half_up_def)
qed

lemma half_up_bounds: "of_int lo \<le> x \<Longrightarrow> x \<le> of_int hi \<Longrightarrow> lo \<le> half_up x \<and> half_up x \<le> hi"
  unfolding half_up_def by (auto simp: le_floor_iff floor_le_iff; linarith)

lemma mean2_between: "a \<le> b \<Longrightarrow> a \<le> mean2 a b \<and> mean2 a b \<le> b"
  unfolding mean2_def by (rule half_up_bounds) (auto simp: field_simps)

lemma round_places_half: "round_places 20 (of_int n / 2) = of_int n / 2"
proof -
  have e: "(of_int n / 2 :: rat) * 10 ^ 20 = of_int (n * (5 * 10 ^ 19))"
    by simp
  have "half_up ((of_int n / 2 :: rat) * 10 ^ 20) = n * (5 * 10 ^ 19)"
    unfolding e by (rule half_up_int)
  then show ?thesis by (simp add: round_places_def)
qed

lemma maxDecimals_Max: "maxDecimals ps = Max (insert 0 (np_decimals ` set ps))"
proof -
  have "fold (\<lambda>p m. max m (np_decimals p)) ps 0 = fold (max \<circ> np_decimals) ps 0"
    by (intro fold_cong) (auto simp: max.commute fun_eq_iff)
  then have "fold (\<lambda>p m. max m (np_decimals p)) ps 0 = fold max (map np_decimals ps) 0"
    by (simp only: fold_map)
  also have "\<dots> = Max (set (0 # map np_decimals ps))"
    by (rule Max.set_eq_fold [symmetric])
  finally show ?thesis by (simp add: maxDecimals_def)
qed

lemma maxDecimals_ge: "p \<in> set ps \<Longrightarrow> np_decimals p \<le> maxDecimals ps"
  unfolding maxDecimals_Max by (rule Max_ge) auto

lemma maxDecimals_mset: "mset ps = mset qs \<Longrightarrow> maxDecimals ps = maxDecimals qs"
  by (metis maxDecimals_Max mset_eq_setD)

subsection \<open>What an integer median guarantees\<close>

lemma sorted_le_nth_count:
  assumes "sorted s" "i < length s"
  shows "i + 1 \<le> length (filter (\<lambda>x. x \<le> s ! i) s)"
proof -
  have "\<forall>x \<in> set (take (i + 1) s). x \<le> s ! i"
    using assms by (auto simp: in_set_conv_nth intro!: sorted_nth_mono)
  then have "filter (\<lambda>x. x \<le> s ! i) (take (i + 1) s) = take (i + 1) s" by simp
  then have "length (take (i + 1) s) \<le> length (filter (\<lambda>x. x \<le> s ! i) s)"
    by (metis append_take_drop_id filter_append le_add1 length_append)
  with assms show ?thesis by simp
qed

lemma sorted_ge_nth_count:
  assumes "sorted s" "i < length s"
  shows "length s - i \<le> length (filter (\<lambda>x. s ! i \<le> x) s)"
proof -
  have "\<forall>x \<in> set (drop i s). s ! i \<le> x"
    using assms by (auto simp: in_set_conv_nth intro!: sorted_nth_mono)
  then have "filter (\<lambda>x. s ! i \<le> x) (drop i s) = drop i s" by simp
  then have "length (drop i s) \<le> length (filter (\<lambda>x. s ! i \<le> x) s)"
    by (metis append_take_drop_id filter_append le_add2 length_append)
  then show ?thesis by simp
qed

lemma length_filter_sort: "length (filter P (sort xs)) = length (filter P xs)"
  by (metis mset_filter mset_sort size_mset)

lemma length_filter_mono: "(\<And>x. P x \<Longrightarrow> Q x) \<Longrightarrow> length (filter P xs) \<le> length (filter Q xs)"
  by (induction xs) auto

lemma int_median_half_le:
  assumes "xs \<noteq> []"
  shows "length xs \<le> 2 * length (filter (\<lambda>x. x \<le> int_median xs) xs)"
proof -
  let ?s = "sort xs" and ?mid = "length xs div 2"
  have l: "0 < length xs" "?mid < length ?s" using assms by auto
  show ?thesis
  proof (cases "length xs mod 2 = 0")
    case True
    have i0: "0 < ?mid" using True l(1) by presburger
    with l have i: "?mid - 1 < length ?s" by simp
    have "?s ! (?mid - 1) \<le> ?s ! ?mid" using l by (intro sorted_nth_mono) auto
    then have le: "?s ! (?mid - 1) \<le> int_median xs"
      using True mean2_between by (simp add: int_median_def Let_def)
    have "?mid \<le> length (filter (\<lambda>x. x \<le> ?s ! (?mid - 1)) ?s)"
      using sorted_le_nth_count [of ?s "?mid - 1"] i i0 by simp
    also have "\<dots> \<le> length (filter (\<lambda>x. x \<le> int_median xs) ?s)"
      by (rule length_filter_mono) (use le in auto)
    finally have "?mid \<le> length (filter (\<lambda>x. x \<le> int_median xs) xs)"
      by (simp add: length_filter_sort)
    with True show ?thesis by presburger
  next
    case False
    then have "int_median xs = ?s ! ?mid" by (simp add: int_median_def Let_def)
    then have "?mid + 1 \<le> length (filter (\<lambda>x. x \<le> int_median xs) ?s)"
      using sorted_le_nth_count [of ?s ?mid] l by simp
    then show ?thesis by (simp add: length_filter_sort)
  qed
qed

lemma int_median_half_ge:
  assumes "xs \<noteq> []"
  shows "length xs \<le> 2 * length (filter (\<lambda>x. int_median xs \<le> x) xs)"
proof -
  let ?s = "sort xs" and ?mid = "length xs div 2"
  have l: "0 < length xs" "?mid < length ?s" using assms by auto
  have ge: "int_median xs \<le> ?s ! ?mid"
  proof (cases "length xs mod 2 = 0")
    case True
    have "?s ! (?mid - 1) \<le> ?s ! ?mid" using l by (intro sorted_nth_mono) auto
    with True show ?thesis using mean2_between by (simp add: int_median_def Let_def)
  qed (simp add: int_median_def Let_def)
  have "length xs - ?mid \<le> length (filter (\<lambda>x. ?s ! ?mid \<le> x) ?s)"
    using sorted_ge_nth_count [of ?s ?mid] l by simp
  also have "\<dots> \<le> length (filter (\<lambda>x. int_median xs \<le> x) ?s)"
    by (rule length_filter_mono) (use ge in auto)
  finally show ?thesis by (simp add: length_filter_sort)
qed

lemma length_filter_disjoint:
  "(\<And>x. \<not> (P x \<and> Q x)) \<Longrightarrow> length (filter P xs) + length (filter Q xs) \<le> length xs"
proof -
  assume d: "\<And>x. \<not> (P x \<and> Q x)"
  have "length (filter Q xs) \<le> length (filter (\<lambda>x. \<not> P x) xs)"
    by (rule length_filter_mono) (use d in auto)
  with filter_length_split [of P xs] show ?thesis by simp
qed

text \<open>A strict majority inside an interval keeps the median inside it.\<close>

lemma int_median_majority:
  assumes "length xs < 2 * length (filter (\<lambda>x. lo \<le> x \<and> x \<le> hi) xs)"
  shows "lo \<le> int_median xs \<and> int_median xs \<le> hi"
proof -
  let ?in = "\<lambda>x. lo \<le> x \<and> x \<le> hi" and ?m = "int_median xs"
  have ne: "xs \<noteq> []" using assms by auto
  have "lo \<le> ?m"
  proof (rule ccontr)
    assume "\<not> lo \<le> ?m"
    then have "length (filter ?in xs) + length (filter (\<lambda>x. x \<le> ?m) xs) \<le> length xs"
      by (intro length_filter_disjoint) auto
    with int_median_half_le [OF ne] assms show False by linarith
  qed
  moreover have "?m \<le> hi"
  proof (rule ccontr)
    assume "\<not> ?m \<le> hi"
    then have "length (filter ?in xs) + length (filter (\<lambda>x. ?m \<le> x) xs) \<le> length xs"
      by (intro length_filter_disjoint) auto
    with int_median_half_ge [OF ne] assms show False by linarith
  qed
  ultimately show ?thesis by simp
qed

lemma sort_mset: "mset xs = mset ys \<Longrightarrow> sort xs = sort ys"
  by (rule properties_for_sort) auto

lemma int_median_mset: "mset xs = mset ys \<Longrightarrow> int_median xs = int_median ys"
  using sort_mset [of xs ys] by (simp add: int_median_def)

subsection \<open>The implementation computes the reference median\<close>

lemma sort_map_of_int: "sort (map (of_int :: int \<Rightarrow> rat) xs) = map of_int (sort xs)"
  by (rule properties_for_sort) (auto simp: sorted_map intro: sorted_wrt_mono_rel [OF _ sorted_sort])

context bignumber_laws
begin

lemma val_toScale: "np_decimals p \<le> d \<Longrightarrow> val (toScale bn p d) = of_int (scaled d p)"
  by (simp add: toScale_def scaled_def val_shiftedBy val_of_bigint power_int_def)

lemma cmp_by_comparedTo: "cmp_by val (\<lambda>a b. nullish (bn_comparedTo bn a b) 0)"
  by (auto simp: cmp_by_def comparedTo)

lemma val_sorted_prices:
  "map val (js_sort (\<lambda>a b. nullish (bn_comparedTo bn a b) 0)
     (map (\<lambda>p. toScale bn p (maxDecimals ps)) ps))
   = map of_int (sort (map (scaled (maxDecimals ps)) ps))"
proof -
  have "map val (map (\<lambda>p. toScale bn p (maxDecimals ps)) ps)
        = map of_int (map (scaled (maxDecimals ps)) ps)"
    by (simp add: val_toScale maxDecimals_ge)
  then show ?thesis
    by (simp only: map_js_sort [OF cmp_by_comparedTo] sort_map_of_int)
qed

lemma median_is_int_median:
  assumes "ps \<noteq> []"
  shows "val (csm_value (medianOnCommonScale bn ps))
         = of_int (int_median (map (scaled (maxDecimals ps)) ps))"
    and "csm_decimals (medianOnCommonScale bn ps) = maxDecimals ps"
proof -
  define s where "s = js_sort (\<lambda>a b. nullish (bn_comparedTo bn a b) 0)
    (map (\<lambda>p. toScale bn p (maxDecimals ps)) ps)"
  define t where "t = sort (map (scaled (maxDecimals ps)) ps)"
  have st: "map val s = map of_int t"
    unfolding s_def t_def by (rule val_sorted_prices)
  have len: "length s = length ps" "length t = length ps" "0 < length ps"
    using assms by (auto simp: s_def t_def)
  have nth: "val (s ! i) = of_int (t ! i)" if "i < length ps" for i
    using arg_cong [OF st, of "\<lambda>xs. xs ! i"] that len by simp
  have "length ps div 2 < length ps" "length ps div 2 - Suc 0 < length ps"
    using len(3) by linarith+
  then show "val (csm_value (medianOnCommonScale bn ps))
         = of_int (int_median (map (scaled (maxDecimals ps)) ps))"
    using assms nth len
    by (simp add: medianOnCommonScale_def int_median_def Let_def flip: s_def t_def)
       (simp add: val_roundHalfUp val_dividedBy val_of_bigint val_plus mean2_def
          round_places_half [unfolded of_int_add] flip: of_int_add)
  show "csm_decimals (medianOnCommonScale bn ps) = maxDecimals ps"
    using assms by (simp add: medianOnCommonScale_def Let_def)
qed

end

subsection \<open>Properties\<close>

text \<open>
  (C1) Manipulation resistance. If a strict majority of the source prices, taken at the scale the
  result is reported with, lies between two bounds, so does the median: no minority of sources can
  move the aggregated price outside the range the majority reports.
\<close>

theorem median_majority_bounds:
  assumes "bignumber_laws bn val"
    and "length ps < 2 * length (filter (\<lambda>p. lo \<le> scaled (maxDecimals ps) p \<and> scaled (maxDecimals ps) p \<le> hi) ps)"
  shows "of_int lo \<le> val (csm_value (medianOnCommonScale bn ps))
       \<and> val (csm_value (medianOnCommonScale bn ps)) \<le> of_int hi"
proof -
  have ne: "ps \<noteq> []" using assms(2) by auto
  let ?xs = "map (scaled (maxDecimals ps)) ps"
  have "length ?xs < 2 * length (filter (\<lambda>x. lo \<le> x \<and> x \<le> hi) ?xs)"
    using assms(2) by (simp add: filter_map comp_def)
  then show ?thesis
    using int_median_majority bignumber_laws.median_is_int_median(1) [OF assms(1) ne] by force
qed

abbreviation sample_price :: "int \<Rightarrow> int \<Rightarrow> oracle_source \<Rightarrow> normalized_price" where
  "sample_price v d s \<equiv>
     \<lparr>np_asset = ''XLM'', np_price = v, np_decimals = d, np_source = s, np_timestamp = 100, np_observedAt = Some 100\<rparr>"

theorem median_majority_bounds_witness:
  "(100 :: rat) \<le> csm_value (medianOnCommonScale rat_bignumber
      [sample_price 10 1 Chainlink, sample_price 110 2 Redstone, sample_price 9999 0 Band])
   \<and> csm_value (medianOnCommonScale rat_bignumber
      [sample_price 10 1 Chainlink, sample_price 110 2 Redstone, sample_price 9999 0 Band]) \<le> 110"
  using median_majority_bounds [OF rat_bn.bignumber_laws_axioms,
      of "[sample_price 10 1 Chainlink, sample_price 110 2 Redstone, sample_price 9999 0 Band]" 100 110]
  by (simp add: scaled_def maxDecimals_def)

text \<open>
  (C2) The median computed with decimal arithmetic is the integer median of the prices shifted to
  the highest precision present, and that precision is the scale it is labelled with; averaging two
  middle prices loses nothing before the final rounding to an integer.
\<close>

theorem median_refines_int_median:
  assumes "bignumber_laws bn val" and "ps \<noteq> []"
  shows "val (csm_value (medianOnCommonScale bn ps)) = of_int (int_median (map (scaled (csm_decimals (medianOnCommonScale bn ps))) ps))
       \<and> csm_decimals (medianOnCommonScale bn ps) = Max (insert 0 (np_decimals ` set ps))"
  using bignumber_laws.median_is_int_median [OF assms] by (simp add: maxDecimals_Max)

theorem median_refines_int_median_witness:
  "csm_value (medianOnCommonScale rat_bignumber [sample_price 10 1 Chainlink, sample_price 111 2 Redstone])
     = of_int (int_median (map (scaled 2) [sample_price 10 1 Chainlink, sample_price 111 2 Redstone]))"
  using median_refines_int_median [OF rat_bn.bignumber_laws_axioms,
      of "[sample_price 10 1 Chainlink, sample_price 111 2 Redstone]"]
  by simp

text \<open>
  The median does not depend on the order in which the sources reported: permuting the prices
  gives the same value at the same scale.
\<close>

theorem median_order_independent:
  assumes "bignumber_laws bn val" and "mset ps = mset qs"
  shows "val (csm_value (medianOnCommonScale bn ps)) = val (csm_value (medianOnCommonScale bn qs))
       \<and> csm_decimals (medianOnCommonScale bn ps) = csm_decimals (medianOnCommonScale bn qs)"
proof (cases "ps = []")
  case True
  with assms(2) show ?thesis by simp
next
  case False
  with assms(2) have "qs \<noteq> []" by auto
  moreover have "int_median (map (scaled d) ps) = int_median (map (scaled d) qs)" for d
    by (rule int_median_mset) (simp add: assms(2))
  ultimately show ?thesis
    using False maxDecimals_mset [OF assms(2)]
    by (simp add: bignumber_laws.median_is_int_median [OF assms(1)])
qed

theorem median_order_independent_witness:
  "csm_value (medianOnCommonScale rat_bignumber [sample_price 10 1 Chainlink, sample_price 111 2 Redstone])
   = csm_value (medianOnCommonScale rat_bignumber [sample_price 111 2 Redstone, sample_price 10 1 Chainlink])"
  using median_order_independent [OF rat_bn.bignumber_laws_axioms,
      of "[sample_price 10 1 Chainlink, sample_price 111 2 Redstone]"
         "[sample_price 111 2 Redstone, sample_price 10 1 Chainlink]"]
  by (simp add: add_mset_commute)

end
