(* ===== verification/Source_Decimals.thy ===== *)
theory Source_Decimals
  imports Median
begin

text \<open>
  The decimals contract of the oracle sources, \<open>services/aggregator/src/oracle-sources/decimals.ts\<close>:
  the scale of a provider payload, or the reason it is refused. The messages of the error are not
  modelled.
\<close>

definition MIN_DECIMALS :: int where "MIN_DECIMALS = 0"
definition MAX_DECIMALS :: int where "MAX_DECIMALS = 18"

datatype decimals_reason = Decimals_missing | Decimals_malformed | Decimals_out_of_range

record invalid_payload_error =
  ipe_source :: oracle_source
  ipe_reason :: decimals_reason

datatype decimals_policy = Reported | Fixed js_num

fun SOURCE_DECIMALS :: "oracle_source \<Rightarrow> decimals_policy" where
  "SOURCE_DECIMALS Chainlink = Fixed (Fin 8)"
| "SOURCE_DECIMALS Redstone = Reported"
| "SOURCE_DECIMALS Band = Reported"
| "SOURCE_DECIMALS Reflector = Reported"

abbreviation invalid_payload :: "oracle_source \<Rightarrow> decimals_reason \<Rightarrow> invalid_payload_error + 'a" where
  "invalid_payload s r \<equiv> Inl \<lparr>ipe_source = s, ipe_reason = r\<rparr>"

definition assertInRange :: "js_num \<Rightarrow> oracle_source \<Rightarrow> invalid_payload_error + int" where
  "assertInRange decimals source =
     (if \<not> jn_isInteger decimals then invalid_payload source Decimals_malformed
      else case decimals of
        Fin r \<Rightarrow>
          (if r < of_int MIN_DECIMALS \<or> of_int MAX_DECIMALS < r
           then invalid_payload source Decimals_out_of_range
           else Inr \<lfloor>r\<rfloor>)
      | _ \<Rightarrow> invalid_payload source Decimals_malformed)"

definition resolveDecimals :: "oracle_source \<Rightarrow> js_value \<Rightarrow> invalid_payload_error + int" where
  "resolveDecimals source reported =
     (case SOURCE_DECIMALS source of
        Fixed v \<Rightarrow> assertInRange v source
      | Reported \<Rightarrow>
          (if reported = JUndefined \<or> reported = JNull then invalid_payload source Decimals_missing
           else case reported of
             JNumber n \<Rightarrow> assertInRange n source
           | _ \<Rightarrow> invalid_payload source Decimals_malformed))"

lemma assertInRange_Inr:
  "assertInRange n s = Inr d \<longleftrightarrow> n = Fin (of_int d) \<and> MIN_DECIMALS \<le> d \<and> d \<le> MAX_DECIMALS"
  by (cases n) (auto simp: assertInRange_def MIN_DECIMALS_def MAX_DECIMALS_def floor_eq_iff)

text \<open>
  (C3) The scale of a payload is accepted exactly when the contract of the source allows it: the
  fixed-scale provider always gets 8, every other provider must report an integral number between
  0 and 18, and that very number is the scale used. In particular a reported 0 is kept, and a
  missing, non-numeric, fractional, infinite or out-of-range value never yields a scale.
\<close>

theorem resolveDecimals_accepts_iff:
  "resolveDecimals s v = Inr d \<longleftrightarrow>
     (if s = Chainlink then d = 8
      else v = JNumber (Fin (of_int d)) \<and> 0 \<le> d \<and> d \<le> 18)"
proof (cases s)
  case Chainlink
  then show ?thesis
    by (auto simp: resolveDecimals_def assertInRange_Inr MIN_DECIMALS_def MAX_DECIMALS_def)
qed (cases v; auto simp: resolveDecimals_def assertInRange_Inr MIN_DECIMALS_def MAX_DECIMALS_def)+

end
