(* ===== verification/Deviation_Breaker.thy ===== *)
theory Deviation_Breaker
  imports Median
begin

text \<open>
  The deviation circuit breaker of the aggregator,
  \<open>services/aggregator/src/price-aggregation/circuit-breaker.ts\<close>. It marks a source as suspicious
  for an asset when its price deviates too far from the median, restores it after a number of
  consecutive good prices, and limits the number of evaluations in a time window.

  \<open>Date.now()\<close> is the argument \<open>now\<close> (one clock value per call). The alerts raised at the alert
  manager are collected in \<open>cb_alerts\<close>; log lines are not modelled.
\<close>

subsection \<open>State\<close>

record surge_limits =
  sl_maxEvaluationsPerWindow :: int
  sl_windowMs :: int
  sl_maxConcurrentRecoveries :: int
  sl_alertThresholdRatio :: rat

record surge_overrides =
  so_maxEvaluationsPerWindow :: "int option"
  so_windowMs :: "int option"
  so_maxConcurrentRecoveries :: "int option"
  so_alertThresholdRatio :: "rat option"

definition DEFAULT_SURGE_LIMITS :: surge_limits where
  "DEFAULT_SURGE_LIMITS = \<lparr>sl_maxEvaluationsPerWindow = 1000, sl_windowMs = 60000,
     sl_maxConcurrentRecoveries = 5, sl_alertThresholdRatio = 8 / 10\<rparr>"

record cb_config =
  cc_deviationThreshold :: rat
  cc_recoveryRequiredSuccesses :: int
  cc_surgeLimits :: "surge_overrides option"

record surge_state =
  ss_degraded :: bool
  ss_windowStart :: int
  ss_evaluationsInWindow :: int
  ss_activeRecoveries :: int
  ss_rejectedEvaluations :: int
  ss_alertFired :: bool

record source_state =
  st_suspicious :: bool
  st_consecutiveSuccesses :: int
  st_lastSuspicionTime :: "int option"
  st_deviations :: int

datatype surge_alert = SurgeLimitExhausted | SurgeLimitApproaching

record 'b circuit_breaker =
  cb_sourceStates :: "(string, source_state) js_map"
  cb_trailingMedians :: "(string, 'b list) js_map"
  cb_config :: cb_config
  cb_surgeLimits :: surge_limits
  cb_surgeState :: surge_state
  cb_alerts :: "surge_alert list"

definition medianHistorySize :: nat where "medianHistorySize = 10"

definition merge_surge_limits :: "surge_overrides option \<Rightarrow> surge_limits" where
  "merge_surge_limits ov =
     (case ov of
        None \<Rightarrow> DEFAULT_SURGE_LIMITS
      | Some p \<Rightarrow> \<lparr>
          sl_maxEvaluationsPerWindow =
            nullish (so_maxEvaluationsPerWindow p) (sl_maxEvaluationsPerWindow DEFAULT_SURGE_LIMITS),
          sl_windowMs = nullish (so_windowMs p) (sl_windowMs DEFAULT_SURGE_LIMITS),
          sl_maxConcurrentRecoveries =
            nullish (so_maxConcurrentRecoveries p) (sl_maxConcurrentRecoveries DEFAULT_SURGE_LIMITS),
          sl_alertThresholdRatio =
            nullish (so_alertThresholdRatio p) (sl_alertThresholdRatio DEFAULT_SURGE_LIMITS)\<rparr>)"

definition fresh_surge_state :: "int \<Rightarrow> surge_state" where
  "fresh_surge_state now = \<lparr>ss_degraded = False, ss_windowStart = now, ss_evaluationsInWindow = 0,
     ss_activeRecoveries = 0, ss_rejectedEvaluations = 0, ss_alertFired = False\<rparr>"

definition newCircuitBreaker :: "int \<Rightarrow> cb_config \<Rightarrow> 'b circuit_breaker" where
  "newCircuitBreaker now config = \<lparr>cb_sourceStates = [], cb_trailingMedians = [],
     cb_config = config, cb_surgeLimits = merge_surge_limits (cc_surgeLimits config),
     cb_surgeState = fresh_surge_state now, cb_alerts = []\<rparr>"

subsection \<open>Operations\<close>

fun source_name :: "oracle_source \<Rightarrow> string" where
  "source_name Chainlink = ''chainlink''"
| "source_name Redstone = ''redstone''"
| "source_name Band = ''band''"
| "source_name Reflector = ''reflector''"

definition source_key :: "'m normalized_price_scheme \<Rightarrow> string" where
  "source_key p = np_asset p @ '':'' @ source_name (np_source p)"

definition fresh_source_state :: source_state where
  "fresh_source_state = \<lparr>st_suspicious = False, st_consecutiveSuccesses = 0,
     st_lastSuspicionTime = None, st_deviations = 0\<rparr>"

definition getOrCreateSourceState ::
  "string \<Rightarrow> 'b circuit_breaker \<Rightarrow> 'b circuit_breaker \<times> source_state" where
  "getOrCreateSourceState key cb =
     (case jm_get (cb_sourceStates cb) key of
        Some st \<Rightarrow> (cb, st)
      | None \<Rightarrow> (cb\<lparr>cb_sourceStates := jm_set (cb_sourceStates cb) key fresh_source_state\<rparr>,
                 fresh_source_state))"

definition putSourceState :: "string \<Rightarrow> source_state \<Rightarrow> 'b circuit_breaker \<Rightarrow> 'b circuit_breaker" where
  "putSourceState key st cb = cb\<lparr>cb_sourceStates := jm_set (cb_sourceStates cb) key st\<rparr>"

definition calculateDeviation :: "'b bignumber \<Rightarrow> 'b \<Rightarrow> 'b \<Rightarrow> js_num" where
  "calculateDeviation bn price median =
     (if bn_isZero bn median then Fin 0
      else let diff = bn_abs bn (bn_minus bn price median);
               deviation = bn_multipliedBy bn (bn_dividedBy bn diff median) (bn_of_bigint bn 100)
           in bn_toNumber bn deviation)"

definition rollSurgeWindow :: "int \<Rightarrow> surge_limits \<Rightarrow> surge_state \<Rightarrow> surge_state" where
  "rollSurgeWindow now lims ss =
     (if now - ss_windowStart ss \<ge> sl_windowMs lims
      then ss\<lparr>ss_windowStart := now, ss_evaluationsInWindow := 0, ss_degraded := False,
              ss_alertFired := False\<rparr>
      else ss)"

definition admitEvaluation :: "int \<Rightarrow> 'b circuit_breaker \<Rightarrow> 'b circuit_breaker \<times> bool" where
  "admitEvaluation now cb =
     (let ss = rollSurgeWindow now (cb_surgeLimits cb) (cb_surgeState cb);
          limit = sl_maxEvaluationsPerWindow (cb_surgeLimits cb);
          used = ss_evaluationsInWindow ss
      in if used \<ge> limit
         then (if \<not> ss_degraded ss
               then (cb\<lparr>cb_surgeState := ss\<lparr>ss_degraded := True\<rparr>,
                        cb_alerts := cb_alerts cb @ [SurgeLimitExhausted]\<rparr>, False)
               else (cb\<lparr>cb_surgeState := ss\<rparr>, False))
         else let ss1 = ss\<lparr>ss_evaluationsInWindow := used + 1\<rparr>;
                  threshold = \<lfloor>of_int limit * sl_alertThresholdRatio (cb_surgeLimits cb)\<rfloor>
              in if \<not> ss_alertFired ss1 \<and> ss_evaluationsInWindow ss1 \<ge> threshold
                 then (cb\<lparr>cb_surgeState := ss1\<lparr>ss_alertFired := True\<rparr>,
                          cb_alerts := cb_alerts cb @ [SurgeLimitApproaching]\<rparr>, True)
                 else (cb\<lparr>cb_surgeState := ss1\<rparr>, True))"

definition pushTrailingMedian :: "string \<Rightarrow> 'b \<Rightarrow> 'b circuit_breaker \<Rightarrow> 'b circuit_breaker" where
  "pushTrailingMedian key median cb =
     (let history = nullish (jm_get (cb_trailingMedians cb) key) [] @ [median];
          history' = (if length history > medianHistorySize then tl history else history)
      in cb\<lparr>cb_trailingMedians := jm_set (cb_trailingMedians cb) key history'\<rparr>)"

text \<open>The branch of \<open>evaluatePrice\<close> after the deviation is known: the new state of the source.\<close>

definition applyDeviation ::
  "int \<Rightarrow> cb_config \<Rightarrow> surge_limits \<Rightarrow> surge_state \<Rightarrow> bool \<Rightarrow> source_state \<Rightarrow> source_state" where
  "applyDeviation now cfg lims ss isDeviation st =
     (if isDeviation
      then st\<lparr>st_suspicious := True, st_lastSuspicionTime := Some now,
              st_consecutiveSuccesses := 0, st_deviations := st_deviations st + 1\<rparr>
      else if st_suspicious st
      then (if ss_activeRecoveries ss \<ge> sl_maxConcurrentRecoveries lims then st
            else let n = st_consecutiveSuccesses st + 1
                 in if n \<ge> cc_recoveryRequiredSuccesses cfg
                    then st\<lparr>st_suspicious := False, st_consecutiveSuccesses := 0\<rparr>
                    else st\<lparr>st_consecutiveSuccesses := n\<rparr>)
      else st)"

definition evaluatePrice ::
  "'b bignumber \<Rightarrow> int \<Rightarrow> 'm normalized_price_scheme \<Rightarrow> 'm normalized_price_scheme list
     \<Rightarrow> 'b circuit_breaker \<Rightarrow> 'b circuit_breaker \<times> bool \<times> js_num" where
  "evaluatePrice bn now price allPrices cb0 =
     (let key = source_key price;
          (cb1, st) = getOrCreateSourceState key cb0;
          (cb2, admitted) = admitEvaluation now cb1
      in if \<not> admitted
         then (putSourceState key
                 (st\<lparr>st_suspicious := True, st_lastSuspicionTime := Some now, st_consecutiveSuccesses := 0\<rparr>)
                 (cb2\<lparr>cb_surgeState := (cb_surgeState cb2)
                    \<lparr>ss_rejectedEvaluations := ss_rejectedEvaluations (cb_surgeState cb2) + 1\<rparr>\<rparr>),
               True, Fin 0)
         else
           let assetPrices = filter (\<lambda>p. np_asset p = np_asset price) allPrices
           in if assetPrices = [] then (cb2, st_suspicious st, Fin 0)
              else
                let m = medianOnCommonScale bn assetPrices;
                    deviation = calculateDeviation bn (toScale bn price (csm_decimals m)) (csm_value m);
                    cb3 = pushTrailingMedian (np_asset price) (csm_value m) cb2;
                    st' = applyDeviation now (cb_config cb3) (cb_surgeLimits cb3) (cb_surgeState cb3)
                            (jn_gt deviation (cc_deviationThreshold (cb_config cb3))) st
                in (putSourceState key st' cb3, st_suspicious st', deviation))"

definition getSourceState :: "string \<Rightarrow> 'b circuit_breaker \<Rightarrow> source_state option" where
  "getSourceState key cb = jm_get (cb_sourceStates cb) key"

definition getSuspiciousSources :: "'b circuit_breaker \<Rightarrow> (string \<times> source_state) list" where
  "getSuspiciousSources cb = filter (\<lambda>(_, st). st_suspicious st) (cb_sourceStates cb)"

record breaker_metrics =
  bm_totalSources :: nat
  bm_suspiciousSources :: nat
  bm_suspiciousSourcesList :: "(string \<times> int) list"
  bm_surge :: surge_state
  bm_limit :: surge_limits

definition getMetrics :: "'b circuit_breaker \<Rightarrow> breaker_metrics" where
  "getMetrics cb =
     (let suspicious = getSuspiciousSources cb
      in \<lparr>bm_totalSources = length (cb_sourceStates cb),
          bm_suspiciousSources = length suspicious,
          bm_suspiciousSourcesList = map (\<lambda>(key, st). (key, st_deviations st)) suspicious,
          bm_surge = cb_surgeState cb, bm_limit = cb_surgeLimits cb\<rparr>)"

definition resetSource :: "string \<Rightarrow> 'b circuit_breaker \<Rightarrow> 'b circuit_breaker" where
  "resetSource key cb = cb\<lparr>cb_sourceStates := jm_delete (cb_sourceStates cb) key\<rparr>"

definition resetAll :: "int \<Rightarrow> 'b circuit_breaker \<Rightarrow> 'b circuit_breaker" where
  "resetAll now cb = cb\<lparr>cb_sourceStates := [], cb_surgeState := fresh_surge_state now\<rparr>"

subsection \<open>Frame lemmas\<close>

lemma admitEvaluation_frame [simp]:
  "cb_sourceStates (fst (admitEvaluation now cb)) = cb_sourceStates cb"
  "cb_trailingMedians (fst (admitEvaluation now cb)) = cb_trailingMedians cb"
  "cb_config (fst (admitEvaluation now cb)) = cb_config cb"
  "cb_surgeLimits (fst (admitEvaluation now cb)) = cb_surgeLimits cb"
  by (simp_all add: admitEvaluation_def Let_def)

lemma getOrCreate_frame [simp]:
  "cb_trailingMedians (fst (getOrCreateSourceState key cb)) = cb_trailingMedians cb"
  "cb_config (fst (getOrCreateSourceState key cb)) = cb_config cb"
  "cb_surgeLimits (fst (getOrCreateSourceState key cb)) = cb_surgeLimits cb"
  "cb_surgeState (fst (getOrCreateSourceState key cb)) = cb_surgeState cb"
  "cb_alerts (fst (getOrCreateSourceState key cb)) = cb_alerts cb"
  by (simp_all add: getOrCreateSourceState_def split: option.split)

lemma putSourceState_frame [simp]:
  "cb_sourceStates (putSourceState key st cb) = jm_set (cb_sourceStates cb) key st"
  "cb_trailingMedians (putSourceState key st cb) = cb_trailingMedians cb"
  "cb_config (putSourceState key st cb) = cb_config cb"
  "cb_surgeLimits (putSourceState key st cb) = cb_surgeLimits cb"
  "cb_surgeState (putSourceState key st cb) = cb_surgeState cb"
  by (simp_all add: putSourceState_def)

lemma pushTrailingMedian_frame [simp]:
  "cb_sourceStates (pushTrailingMedian key m cb) = cb_sourceStates cb"
  "cb_config (pushTrailingMedian key m cb) = cb_config cb"
  "cb_surgeLimits (pushTrailingMedian key m cb) = cb_surgeLimits cb"
  "cb_surgeState (pushTrailingMedian key m cb) = cb_surgeState cb"
  by (simp_all add: pushTrailingMedian_def Let_def)

text \<open>The state a source has when its evaluation starts.\<close>

definition current_source_state :: "string \<Rightarrow> 'b circuit_breaker \<Rightarrow> source_state" where
  "current_source_state key cb = nullish (jm_get (cb_sourceStates cb) key) fresh_source_state"

lemma getOrCreate_state:
  "snd (getOrCreateSourceState key cb) = current_source_state key cb"
  "jm_get (cb_sourceStates (fst (getOrCreateSourceState key cb))) k =
     (if k = key then Some (current_source_state key cb) else jm_get (cb_sourceStates cb) k)"
  by (auto simp: getOrCreateSourceState_def current_source_state_def jm_get_set split: option.split)

text \<open>
  The four ways an evaluation ends, and the abstract step it makes on the state of its own source.
\<close>

datatype evaluation = Rejected | NoPrices | Measured js_num

definition classify ::
  "'b bignumber \<Rightarrow> int \<Rightarrow> 'm normalized_price_scheme \<Rightarrow> 'm normalized_price_scheme list
     \<Rightarrow> 'b circuit_breaker \<Rightarrow> evaluation" where
  "classify bn now price allPrices cb =
     (let ps = filter (\<lambda>p. np_asset p = np_asset price) allPrices; m = medianOnCommonScale bn ps
      in if \<not> snd (admitEvaluation now cb) then Rejected
         else if ps = [] then NoPrices
         else Measured (calculateDeviation bn (toScale bn price (csm_decimals m)) (csm_value m)))"

definition source_step ::
  "int \<Rightarrow> cb_config \<Rightarrow> surge_limits \<Rightarrow> surge_state \<Rightarrow> evaluation \<Rightarrow> source_state \<Rightarrow> source_state" where
  "source_step now cfg lims ss e st =
     (case e of
        Rejected \<Rightarrow> st\<lparr>st_suspicious := True, st_lastSuspicionTime := Some now, st_consecutiveSuccesses := 0\<rparr>
      | NoPrices \<Rightarrow> st
      | Measured d \<Rightarrow> applyDeviation now cfg lims ss (jn_gt d (cc_deviationThreshold cfg)) st)"

lemma admit_getOrCreate [simp]:
  "snd (admitEvaluation now (fst (getOrCreateSourceState key cb))) = snd (admitEvaluation now cb)"
  "cb_surgeState (fst (admitEvaluation now (fst (getOrCreateSourceState key cb))))
     = cb_surgeState (fst (admitEvaluation now cb))"
  by (simp_all add: admitEvaluation_def Let_def)

lemma evaluatePrice_deviation:
  "snd (snd (evaluatePrice bn now price allPrices cb)) =
     (case classify bn now price allPrices cb of Measured d \<Rightarrow> d | _ \<Rightarrow> Fin 0)"
  by (auto simp: evaluatePrice_def classify_def Let_def split_beta)

lemma evaluatePrice_source_states:
  "jm_get (cb_sourceStates (fst (evaluatePrice bn now price allPrices cb))) k =
     (if k = source_key price
      then Some (source_step now (cb_config cb) (cb_surgeLimits cb)
                   (cb_surgeState (fst (admitEvaluation now cb)))
                   (classify bn now price allPrices cb) (current_source_state k cb))
      else jm_get (cb_sourceStates cb) k)"
  by (auto simp: evaluatePrice_def classify_def source_step_def Let_def split_beta jm_get_set getOrCreate_state)

lemma evaluatePrice_reported:
  "fst (snd (evaluatePrice bn now price allPrices cb)) =
     st_suspicious (source_step now (cb_config cb) (cb_surgeLimits cb)
        (cb_surgeState (fst (admitEvaluation now cb)))
        (classify bn now price allPrices cb) (current_source_state (source_key price) cb))"
  by (auto simp: evaluatePrice_def classify_def source_step_def Let_def split_beta getOrCreate_state)

lemma evaluatePrice_surge:
  "cb_config (fst (evaluatePrice bn now price allPrices cb)) = cb_config cb"
  "cb_surgeLimits (fst (evaluatePrice bn now price allPrices cb)) = cb_surgeLimits cb"
  "cb_surgeState (fst (evaluatePrice bn now price allPrices cb)) =
     (let ss = cb_surgeState (fst (admitEvaluation now cb))
      in if snd (admitEvaluation now cb) then ss
         else ss\<lparr>ss_rejectedEvaluations := ss_rejectedEvaluations ss + 1\<rparr>)"
  by (auto simp: evaluatePrice_def Let_def split_beta)

subsection \<open>The evaluation budget\<close>

fun evaluateAll ::
  "'b bignumber \<Rightarrow> (int \<times> 'm normalized_price_scheme \<times> 'm normalized_price_scheme list) list
     \<Rightarrow> 'b circuit_breaker \<Rightarrow> 'b circuit_breaker" where
  "evaluateAll bn [] cb = cb"
| "evaluateAll bn ((now, p, ps) # es) cb = evaluateAll bn es (fst (evaluatePrice bn now p ps cb))"

lemma admitEvaluation_in_window:
  assumes "now - ss_windowStart (cb_surgeState cb) < sl_windowMs (cb_surgeLimits cb)"
  defines "ss' \<equiv> cb_surgeState (fst (admitEvaluation now cb))"
    and "used \<equiv> ss_evaluationsInWindow (cb_surgeState cb)"
    and "limit \<equiv> sl_maxEvaluationsPerWindow (cb_surgeLimits cb)"
  shows "ss_windowStart ss' = ss_windowStart (cb_surgeState cb)"
    and "ss_evaluationsInWindow ss' = (if used < limit then used + 1 else used)"
    and "snd (admitEvaluation now cb) \<longleftrightarrow> used < limit"
    and "ss_rejectedEvaluations ss' = ss_rejectedEvaluations (cb_surgeState cb)"
  using assms(1) by (auto simp: ss'_def used_def limit_def admitEvaluation_def rollSurgeWindow_def Let_def)

lemma evaluateAll_in_window:
  fixes cb :: "'b circuit_breaker"
  assumes "\<forall>(now, _, _) \<in> set es. now - ss_windowStart (cb_surgeState cb) < sl_windowMs (cb_surgeLimits cb)"
    and "ss_evaluationsInWindow (cb_surgeState cb) \<le> sl_maxEvaluationsPerWindow (cb_surgeLimits cb)"
  shows "ss_evaluationsInWindow (cb_surgeState (evaluateAll bn es cb)) =
           min (sl_maxEvaluationsPerWindow (cb_surgeLimits cb))
               (ss_evaluationsInWindow (cb_surgeState cb) + int (length es))
       \<and> ss_rejectedEvaluations (cb_surgeState (evaluateAll bn es cb)) =
           ss_rejectedEvaluations (cb_surgeState cb)
           + max 0 (ss_evaluationsInWindow (cb_surgeState cb) + int (length es)
                    - sl_maxEvaluationsPerWindow (cb_surgeLimits cb))"
  using assms
proof (induction es arbitrary: cb)
  case Nil
  then show ?case by simp
next
  case (Cons e es)
  obtain now p ps where e: "e = (now, p, ps)" by (cases e)
  let ?cb' = "fst (evaluatePrice bn now p ps cb)"
  have w: "now - ss_windowStart (cb_surgeState cb) < sl_windowMs (cb_surgeLimits cb)"
    using Cons.prems(1) e by simp
  note a = admitEvaluation_in_window [OF w]
  have s: "ss_windowStart (cb_surgeState ?cb') = ss_windowStart (cb_surgeState cb)"
    "ss_evaluationsInWindow (cb_surgeState ?cb') =
       (if ss_evaluationsInWindow (cb_surgeState cb) < sl_maxEvaluationsPerWindow (cb_surgeLimits cb)
        then ss_evaluationsInWindow (cb_surgeState cb) + 1 else ss_evaluationsInWindow (cb_surgeState cb))"
    "ss_rejectedEvaluations (cb_surgeState ?cb') = ss_rejectedEvaluations (cb_surgeState cb) +
       (if ss_evaluationsInWindow (cb_surgeState cb) < sl_maxEvaluationsPerWindow (cb_surgeLimits cb) then 0 else 1)"
    using a by (simp_all add: evaluatePrice_surge Let_def)
  have "\<forall>(now, _, _) \<in> set es. now - ss_windowStart (cb_surgeState ?cb') < sl_windowMs (cb_surgeLimits ?cb')"
    "ss_evaluationsInWindow (cb_surgeState ?cb') \<le> sl_maxEvaluationsPerWindow (cb_surgeLimits ?cb')"
    using Cons.prems s by (auto simp: evaluatePrice_surge)
  from Cons.IH [OF this] show ?case
    using Cons.prems(2) by (auto simp: e s evaluatePrice_surge(2) min_def max_def)
qed

subsection \<open>Reachable breakers\<close>

inductive breaker_reachable :: "'b bignumber \<Rightarrow> 'b circuit_breaker \<Rightarrow> bool" for bn where
  created: "breaker_reachable bn (newCircuitBreaker now config)"
| evaluated: "breaker_reachable bn cb \<Longrightarrow>
     breaker_reachable bn (fst (evaluatePrice bn now (price :: normalized_price) allPrices cb))"
| source_reset: "breaker_reachable bn cb \<Longrightarrow> breaker_reachable bn (resetSource key cb)"
| all_reset: "breaker_reachable bn cb \<Longrightarrow> breaker_reachable bn (resetAll now cb)"

text \<open>
  The state of one source is consistent: the success counter runs only while the source is
  suspicious, stays below the number of successes that restores it, and a suspicious source has a
  time of suspicion.
\<close>

definition source_ok :: "cb_config \<Rightarrow> source_state \<Rightarrow> bool" where
  "source_ok cfg st \<longleftrightarrow>
     0 \<le> st_consecutiveSuccesses st \<and> 0 \<le> st_deviations st
     \<and> (\<not> st_suspicious st \<longrightarrow> st_consecutiveSuccesses st = 0)
     \<and> (st_suspicious st \<longrightarrow> st_lastSuspicionTime st \<noteq> None)
     \<and> (0 < st_consecutiveSuccesses st \<longrightarrow> st_consecutiveSuccesses st < cc_recoveryRequiredSuccesses cfg)"

definition breaker_inv :: "'b circuit_breaker \<Rightarrow> bool" where
  "breaker_inv cb \<longleftrightarrow>
     jm.all_stored (\<lambda>_. source_ok (cb_config cb)) (cb_sourceStates cb)
     \<and> jm.all_stored (\<lambda>_ h. length h \<le> medianHistorySize) (cb_trailingMedians cb)
     \<and> ss_activeRecoveries (cb_surgeState cb) = 0
     \<and> 0 \<le> ss_evaluationsInWindow (cb_surgeState cb)
     \<and> ss_evaluationsInWindow (cb_surgeState cb) \<le> max 0 (sl_maxEvaluationsPerWindow (cb_surgeLimits cb))"

lemma source_ok_fresh: "source_ok cfg fresh_source_state"
  by (simp add: source_ok_def fresh_source_state_def)

lemma source_ok_step: "source_ok cfg st \<Longrightarrow> source_ok cfg (source_step now cfg lims ss e st)"
  by (auto simp: source_ok_def source_step_def applyDeviation_def Let_def split: evaluation.split)

lemma breaker_inv_states:
  assumes "breaker_inv cb"
  shows "jm.all_stored (\<lambda>_. source_ok (cb_config cb))
           (cb_sourceStates (fst (evaluatePrice bn now price allPrices cb)))"
proof -
  have st: "source_ok (cb_config cb) (current_source_state k cb)" for k
    using assms by (auto simp: breaker_inv_def current_source_state_def source_ok_fresh
        dest: jm.all_storedD split: option.split)
  have "jm_wf (cb_sourceStates (fst (evaluatePrice bn now price allPrices cb)))"
    using assms by (auto simp: breaker_inv_def evaluatePrice_def Let_def split_beta getOrCreateSourceState_def
        dest: jm.all_stored_wf split: option.split)
  then show ?thesis
    using assms st by (auto simp: jm.all_stored_def breaker_inv_def evaluatePrice_source_states source_ok_step)
qed

lemma pushTrailingMedian_bounded:
  assumes "jm.all_stored (\<lambda>_ h. length h \<le> medianHistorySize) (cb_trailingMedians cb)"
  shows "jm.all_stored (\<lambda>_ h. length h \<le> medianHistorySize) (cb_trailingMedians (pushTrailingMedian key m cb))"
proof -
  have "length (nullish (jm_get (cb_trailingMedians cb) key) []) \<le> medianHistorySize"
    using assms by (auto dest: jm.all_storedD split: option.split)
  then show ?thesis
    using assms by (auto simp: pushTrailingMedian_def Let_def intro!: jm.all_stored_put)
qed

lemma breaker_inv_medians:
  assumes "breaker_inv cb"
  shows "jm.all_stored (\<lambda>_ h. length h \<le> medianHistorySize)
           (cb_trailingMedians (fst (evaluatePrice bn now price allPrices cb)))"
proof -
  have "jm.all_stored (\<lambda>_ h. length h \<le> medianHistorySize)
      (cb_trailingMedians (fst (admitEvaluation now (fst (getOrCreateSourceState (source_key price) cb)))))"
    using assms by (simp add: breaker_inv_def)
  from pushTrailingMedian_bounded [OF this] assms show ?thesis
    by (auto simp: evaluatePrice_def Let_def split_beta breaker_inv_def)
qed

lemma breaker_inv_evaluate:
  assumes "breaker_inv cb"
  shows "breaker_inv (fst (evaluatePrice bn now price allPrices cb))"
proof -
  let ?ss = "cb_surgeState (fst (admitEvaluation now cb))"
  have "ss_activeRecoveries ?ss = 0" "0 \<le> ss_evaluationsInWindow ?ss"
    "ss_evaluationsInWindow ?ss \<le> max 0 (sl_maxEvaluationsPerWindow (cb_surgeLimits cb))"
    using assms by (auto simp: breaker_inv_def admitEvaluation_def rollSurgeWindow_def Let_def)
  then show ?thesis
    unfolding breaker_inv_def
    by (simp add: evaluatePrice_surge Let_def breaker_inv_states [OF assms] breaker_inv_medians [OF assms])
qed

lemma breaker_reachable_inv: "breaker_reachable bn cb \<Longrightarrow> breaker_inv cb"
proof (induction rule: breaker_reachable.induct)
  case (created now config)
  then show ?case by (simp add: breaker_inv_def newCircuitBreaker_def fresh_surge_state_def)
next
  case (evaluated cb now price allPrices)
  from evaluated.IH show ?case by (rule breaker_inv_evaluate)
next
  case (source_reset cb key)
  then show ?case by (simp add: breaker_inv_def resetSource_def jm.all_stored_del)
next
  case (all_reset cb now)
  then show ?case by (simp add: breaker_inv_def resetAll_def fresh_surge_state_def)
qed

subsection \<open>Properties\<close>

text \<open>
  (C5) Surge budget. Within one rolling window, after any sequence of evaluations, exactly as many
  were admitted as the budget allows and every further one was rejected: the admitted count is the
  minimum of the limit and the number asked for, the rejected count grows by the excess.
\<close>

theorem surge_budget_exact:
  assumes "\<forall>(now, _, _) \<in> set es. now - ss_windowStart (cb_surgeState cb) < sl_windowMs (cb_surgeLimits cb)"
    and "ss_evaluationsInWindow (cb_surgeState cb) \<le> sl_maxEvaluationsPerWindow (cb_surgeLimits cb)"
  shows "ss_evaluationsInWindow (cb_surgeState (evaluateAll bn es cb)) =
           min (sl_maxEvaluationsPerWindow (cb_surgeLimits cb))
               (ss_evaluationsInWindow (cb_surgeState cb) + int (length es))
       \<and> ss_rejectedEvaluations (cb_surgeState (evaluateAll bn es cb)) =
           ss_rejectedEvaluations (cb_surgeState cb)
           + max 0 (ss_evaluationsInWindow (cb_surgeState cb) + int (length es)
                    - sl_maxEvaluationsPerWindow (cb_surgeLimits cb))"
  using assms by (rule evaluateAll_in_window)

abbreviation sample_config :: cb_config where
  "sample_config \<equiv> \<lparr>cc_deviationThreshold = 20, cc_recoveryRequiredSuccesses = 3,
     cc_surgeLimits = Some \<lparr>so_maxEvaluationsPerWindow = Some 2, so_windowMs = None,
       so_maxConcurrentRecoveries = None, so_alertThresholdRatio = None\<rparr>\<rparr>"

theorem surge_budget_exact_witness:
  "ss_rejectedEvaluations (cb_surgeState (evaluateAll rat_bignumber
      [(1000, sample_price 10 1 Chainlink, []), (1001, sample_price 10 1 Band, []), (1002, sample_price 10 1 Redstone, [])]
      (newCircuitBreaker 1000 sample_config))) = 1"
  using surge_budget_exact [of "[(1000, sample_price 10 1 Chainlink, []), (1001, sample_price 10 1 Band, []),
        (1002, sample_price 10 1 Redstone, [])]" "newCircuitBreaker 1000 sample_config" rat_bignumber]
  by (simp add: newCircuitBreaker_def fresh_surge_state_def merge_surge_limits_def DEFAULT_SURGE_LIMITS_def)



lemma recovery_counts:
  assumes "ss_activeRecoveries ss < sl_maxConcurrentRecoveries lims" "1 \<le> cc_recoveryRequiredSuccesses cfg"
    "st_suspicious st" "st_consecutiveSuccesses st = int c" "int c < cc_recoveryRequiredSuccesses cfg"
  shows "st_suspicious (((applyDeviation now cfg lims ss False) ^^ k) st)
           \<longleftrightarrow> int (c + k) < cc_recoveryRequiredSuccesses cfg"
    and "int (c + k) < cc_recoveryRequiredSuccesses cfg \<Longrightarrow>
      st_consecutiveSuccesses (((applyDeviation now cfg lims ss False) ^^ k) st) = int (c + k)"
proof (induction k)
  case 0
  { case 1 then show ?case using assms by simp next case 2 then show ?case using assms by simp }
next
  case (Suc k)
  { case 1 then show ?case using Suc assms by (auto simp: applyDeviation_def Let_def)
  next case 2 then show ?case using Suc assms by (auto simp: applyDeviation_def Let_def) }
qed

text \<open>
  Recovery takes exactly the configured number of consecutive good prices: after a deviating
  price followed by \<open>k\<close> prices within the threshold, a source is still suspicious precisely when \<open>k\<close>
  is below \<open>recoveryRequiredSuccesses\<close>.
\<close>

theorem breaker_recovery_exact:
  assumes "ss_activeRecoveries ss < sl_maxConcurrentRecoveries lims" and "1 \<le> cc_recoveryRequiredSuccesses cfg"
  shows "st_suspicious (((applyDeviation now cfg lims ss False) ^^ k) (applyDeviation now cfg lims ss True st))
           \<longleftrightarrow> int k < cc_recoveryRequiredSuccesses cfg"
  using recovery_counts(1) [where c = 0 and st = "applyDeviation now cfg lims ss True st"] assms
  by (simp add: applyDeviation_def)

theorem breaker_recovery_exact_witness:
  "st_suspicious (((applyDeviation 0 sample_config DEFAULT_SURGE_LIMITS (fresh_surge_state 0) False) ^^ 2)
      (applyDeviation 0 sample_config DEFAULT_SURGE_LIMITS (fresh_surge_state 0) True fresh_source_state))"
  using breaker_recovery_exact [where now = 0 and k = 2 and ss = "fresh_surge_state 0"
      and lims = DEFAULT_SURGE_LIMITS and cfg = sample_config and st = fresh_source_state]
  by (simp add: fresh_surge_state_def DEFAULT_SURGE_LIMITS_def)

text \<open>
  Every breaker reached by creation, evaluations and resets is well formed: the success
  counters stay below the recovery requirement and run only for suspicious sources, the trailing
  median history holds at most ten values per asset, the admitted evaluations stay within the
  budget. It also shows that the count of concurrent recoveries is always zero, so the configured
  cap on concurrent recoveries never defers a recovery unless it is set to zero or less.
\<close>

theorem breaker_reachable_invariant:
  "breaker_reachable bn cb \<Longrightarrow> breaker_inv cb"
  by (rule breaker_reachable_inv)

theorem breaker_reachable_invariant_witness:
  "breaker_inv (fst (evaluatePrice rat_bignumber 1000 (sample_price 99 1 Band) [sample_price 99 1 Band]
      (newCircuitBreaker 1000 sample_config)))"
  by (rule breaker_reachable_invariant [OF breaker_reachable.evaluated [OF breaker_reachable.created]])

end
