(* ===== verification/Freshness.thy ===== *)
theory Freshness
  imports Median
begin

text \<open>
  The volatility-bounded freshness policy, \<open>services/aggregator/src/price-quality/freshness.ts\<close>.
  The schema is a \<open>zod\<close> object; \<open>valid_freshness_policy\<close> is the predicate it states.
\<close>

record freshness_policy =
  fp_hardMaxAgeMs :: rat
  fp_minAgeMs :: rat
  fp_baseAgeMs :: rat
  fp_sensitivity :: rat

definition valid_freshness_policy :: "freshness_policy \<Rightarrow> bool" where
  "valid_freshness_policy p \<longleftrightarrow>
     0 < fp_hardMaxAgeMs p \<and> 0 < fp_minAgeMs p \<and> 0 < fp_baseAgeMs p \<and> 0 \<le> fp_sensitivity p
     \<and> fp_minAgeMs p \<le> fp_baseAgeMs p \<and> fp_baseAgeMs p \<le> fp_hardMaxAgeMs p"

datatype freshness_error = InvalidPolicy | InvalidVolatility | VolatilityPrices | VolatilityOverflow

definition freshnessBudget :: "freshness_policy \<Rightarrow> js_num \<Rightarrow> freshness_error + rat" where
  "freshnessBudget policy volatilityBps =
     (if \<not> valid_freshness_policy policy then Inl InvalidPolicy
      else case volatilityBps of
        Fin v \<Rightarrow>
          (if v < 0 then Inl InvalidVolatility
           else Inr (min (fp_hardMaxAgeMs policy)
                      (max (fp_minAgeMs policy)
                        (fp_baseAgeMs policy / (1 + fp_sensitivity policy * v / 10000)))))
      | _ \<Rightarrow> Inl InvalidVolatility)"

definition realizedVolatility :: "'b bignumber \<Rightarrow> string \<Rightarrow> string \<Rightarrow> freshness_error + rat" where
  "realizedVolatility bn previous current =
     (let before = bn_of_string bn previous; after = bn_of_string bn current
      in if \<not> bn_isFinite bn before \<or> \<not> bn_isFinite bn after
            \<or> bn_lte bn before (bn_of_bigint bn 0) \<or> bn_lte bn after (bn_of_bigint bn 0)
         then Inl VolatilityPrices
         else case bn_toNumber bn
                     (bn_multipliedBy bn
                        (bn_dividedBy bn (bn_abs bn (bn_minus bn after before)) before)
                        (bn_of_bigint bn 10000)) of
                Fin r \<Rightarrow> Inr r
              | _ \<Rightarrow> Inl VolatilityOverflow)"

definition isFresh :: "int option \<Rightarrow> int \<Rightarrow> rat \<Rightarrow> bool" where
  "isFresh observedAt nowMs budgetMs =
     (case observedAt of
        None \<Rightarrow> False
      | Some t \<Rightarrow> t \<ge> 0 \<and> budgetMs > 0 \<and> t * 1000 \<le> nowMs \<and> of_int (nowMs - t * 1000) < budgetMs)"

lemma freshnessBudget_Inr:
  "freshnessBudget p v = Inr b \<Longrightarrow>
     valid_freshness_policy p \<and> (\<exists>x. v = Fin x \<and> 0 \<le> x \<and>
       b = min (fp_hardMaxAgeMs p) (max (fp_minAgeMs p) (fp_baseAgeMs p / (1 + fp_sensitivity p * x / 10000))))"
  by (cases v) (auto simp: freshnessBudget_def split: if_splits)

lemma freshnessBudget_bounds:
  assumes "freshnessBudget p v = Inr b"
  shows "fp_minAgeMs p \<le> b" "b \<le> fp_hardMaxAgeMs p" "b \<le> fp_baseAgeMs p" "0 < b"
proof -
  from freshnessBudget_Inr [OF assms] obtain x where
    p: "valid_freshness_policy p" and x: "0 \<le> x" and
    b: "b = min (fp_hardMaxAgeMs p) (max (fp_minAgeMs p) (fp_baseAgeMs p / (1 + fp_sensitivity p * x / 10000)))"
    by blast
  let ?q = "fp_baseAgeMs p / (1 + fp_sensitivity p * x / 10000)"
  have "1 \<le> 1 + fp_sensitivity p * x / 10000"
    using p x by (simp add: valid_freshness_policy_def)
  then have "?q \<le> fp_baseAgeMs p / 1"
    using p by (intro divide_left_mono) (auto simp: valid_freshness_policy_def)
  with p show "fp_minAgeMs p \<le> b" "b \<le> fp_hardMaxAgeMs p" "b \<le> fp_baseAgeMs p" "0 < b"
    by (auto simp: b valid_freshness_policy_def)
qed

lemma freshnessBudget_antimono:
  assumes "freshnessBudget p (Fin v) = Inr b" "freshnessBudget p (Fin w) = Inr c" "v \<le> w"
  shows "c \<le> b"
proof -
  have p: "valid_freshness_policy p" "0 \<le> v" "0 \<le> w"
    using freshnessBudget_Inr [OF assms(1)] freshnessBudget_Inr [OF assms(2)] by auto
  have "fp_sensitivity p * v / 10000 \<le> fp_sensitivity p * w / 10000"
    using p assms(3) by (intro divide_right_mono mult_left_mono) (auto simp: valid_freshness_policy_def)
  moreover have "0 \<le> fp_sensitivity p * v / 10000"
    using p by (simp add: valid_freshness_policy_def)
  ultimately have "0 < 1 + fp_sensitivity p * v / 10000"
    "1 + fp_sensitivity p * v / 10000 \<le> 1 + fp_sensitivity p * w / 10000"
    by linarith+
  then have "fp_baseAgeMs p / (1 + fp_sensitivity p * w / 10000)
      \<le> fp_baseAgeMs p / (1 + fp_sensitivity p * v / 10000)"
    using p by (intro divide_left_mono mult_pos_pos) (auto simp: valid_freshness_policy_def)
  with assms p show ?thesis
    by (auto simp: freshnessBudget_def min_def max_def)
qed

text \<open>
  The age budget of a valid policy always lies between its minimum and its hard maximum, never
  exceeds the base age, and shrinks as the realised volatility grows.
\<close>

theorem freshness_budget_bounded_antimono:
  assumes "freshnessBudget p (Fin v) = Inr b"
  shows "0 < b \<and> fp_minAgeMs p \<le> b \<and> b \<le> fp_baseAgeMs p \<and> b \<le> fp_hardMaxAgeMs p
    \<and> (\<forall>w c. v \<le> w \<and> freshnessBudget p (Fin w) = Inr c \<longrightarrow> c \<le> b)"
  using freshnessBudget_bounds [OF assms] freshnessBudget_antimono [OF assms] by auto

abbreviation sample_policy :: freshness_policy where
  "sample_policy \<equiv> \<lparr>fp_hardMaxAgeMs = 120000, fp_minAgeMs = 5000, fp_baseAgeMs = 60000, fp_sensitivity = 100\<rparr>"

theorem freshness_budget_bounded_antimono_witness:
  "freshnessBudget sample_policy (Fin 200) = Inr 20000 \<and> (5000::rat) \<le> 20000"
proof -
  have b: "freshnessBudget sample_policy (Fin 200) = Inr 20000"
    by (simp add: freshnessBudget_def valid_freshness_policy_def)
  from freshness_budget_bounded_antimono [OF b] b show ?thesis by simp
qed

end
