(* ===== verification/Anomaly.thy ===== *)
theory Anomaly
  imports Js_Prelude
begin

text \<open>
  The per-asset anomaly detector, \<open>services/aggregator/src/price-aggregation/anomaly-detector.ts\<close>.

  \<open>Math.sqrt\<close> is the argument \<open>sqrtf\<close>, because its result is rarely rational. The window size is a
  natural number. The human-readable \<open>details\<close> of a score, and \<open>applyRuntimeConfig\<close>, which only
  reads environment variables into \<open>setConfig\<close>, are not modelled.
\<close>

record anomaly_config =
  ac_windowSize :: nat
  ac_zScoreThreshold :: rat
  ac_movingAverageDeviationPercent :: rat
  ac_volatilityMultiplier :: rat

record anomaly_overrides =
  ao_windowSize :: "nat option"
  ao_zScoreThreshold :: "rat option"
  ao_movingAverageDeviationPercent :: "rat option"
  ao_volatilityMultiplier :: "rat option"

definition DEFAULT_ANOMALY_CONFIG :: anomaly_config where
  "DEFAULT_ANOMALY_CONFIG = \<lparr>ac_windowSize = 20, ac_zScoreThreshold = 3,
     ac_movingAverageDeviationPercent = 5, ac_volatilityMultiplier = 3\<rparr>"

datatype anomaly_method = ZScore | MovingAverage | Volatility

record anomaly_score =
  as_isAnomaly :: bool
  as_score :: js_num
  as_method :: anomaly_method

record anomaly_detector =
  ad_priceHistory :: "(string, rat list) js_map"
  ad_configs :: "(string, anomaly_config) js_map"
  ad_falsePositives :: "(string, nat) js_map"
  ad_trueAnomalies :: "(string, nat) js_map"

definition newAnomalyDetector :: anomaly_detector where
  "newAnomalyDetector = \<lparr>ad_priceHistory = [], ad_configs = [], ad_falsePositives = [], ad_trueAnomalies = []\<rparr>"

definition setConfig :: "string \<Rightarrow> anomaly_overrides \<Rightarrow> anomaly_detector \<Rightarrow> anomaly_detector" where
  "setConfig asset c d = d\<lparr>ad_configs := jm_set (ad_configs d) asset
     \<lparr>ac_windowSize = nullish (ao_windowSize c) (ac_windowSize DEFAULT_ANOMALY_CONFIG),
      ac_zScoreThreshold = nullish (ao_zScoreThreshold c) (ac_zScoreThreshold DEFAULT_ANOMALY_CONFIG),
      ac_movingAverageDeviationPercent = nullish (ao_movingAverageDeviationPercent c)
        (ac_movingAverageDeviationPercent DEFAULT_ANOMALY_CONFIG),
      ac_volatilityMultiplier = nullish (ao_volatilityMultiplier c)
        (ac_volatilityMultiplier DEFAULT_ANOMALY_CONFIG)\<rparr>\<rparr>"

definition getConfig :: "string \<Rightarrow> anomaly_detector \<Rightarrow> anomaly_config" where
  "getConfig asset d = nullish (jm_get (ad_configs d) asset) DEFAULT_ANOMALY_CONFIG"

definition recordFeedback :: "string \<Rightarrow> bool \<Rightarrow> anomaly_detector \<Rightarrow> anomaly_detector" where
  "recordFeedback asset isTrueAnomaly d =
     (if isTrueAnomaly
      then d\<lparr>ad_trueAnomalies := jm_set (ad_trueAnomalies d) asset (nullish (jm_get (ad_trueAnomalies d) asset) 0 + 1)\<rparr>
      else d\<lparr>ad_falsePositives := jm_set (ad_falsePositives d) asset (nullish (jm_get (ad_falsePositives d) asset) 0 + 1)\<rparr>)"

definition getFalsePositiveRate :: "string \<Rightarrow> anomaly_detector \<Rightarrow> rat" where
  "getFalsePositiveRate asset d =
     (let fp = nullish (jm_get (ad_falsePositives d) asset) 0;
          tp = nullish (jm_get (ad_trueAnomalies d) asset) 0;
          total = fp + tp
      in if total = 0 then 0 else of_nat fp / of_nat total)"

text \<open>Division of numbers with its special values, and the comparison of two numbers.\<close>

definition jn_div :: "rat \<Rightarrow> rat \<Rightarrow> js_num" where
  "jn_div a b = (if b \<noteq> 0 then Fin (a / b) else if a = 0 then NaN else if 0 < a then PosInf else NegInf)"

fun jn_greater :: "js_num \<Rightarrow> js_num \<Rightarrow> bool" where
  "jn_greater (Fin a) (Fin b) \<longleftrightarrow> b < a"
| "jn_greater PosInf (Fin _) \<longleftrightarrow> True"
| "jn_greater PosInf NegInf \<longleftrightarrow> True"
| "jn_greater (Fin _) NegInf \<longleftrightarrow> True"
| "jn_greater _ _ \<longleftrightarrow> False"

definition mean :: "rat list \<Rightarrow> rat" where
  "mean xs = sum_list xs / of_nat (length xs)"

definition stdDev :: "(rat \<Rightarrow> rat) \<Rightarrow> rat list \<Rightarrow> rat" where
  "stdDev sqrtf xs = sqrtf (mean (map (\<lambda>v. (v - mean xs)\<^sup>2) xs))"

definition detectZScore :: "(rat \<Rightarrow> rat) \<Rightarrow> rat \<Rightarrow> rat list \<Rightarrow> rat \<Rightarrow> anomaly_score" where
  "detectZScore sqrtf price window threshold =
     (let z = (if stdDev sqrtf window = 0 then 0 else \<bar>(price - mean window) / stdDev sqrtf window\<bar>)
      in \<lparr>as_isAnomaly = z > threshold, as_score = jn_div z threshold, as_method = ZScore\<rparr>)"

definition detectMovingAverageDeviation :: "rat \<Rightarrow> rat list \<Rightarrow> rat \<Rightarrow> anomaly_score" where
  "detectMovingAverageDeviation price window thresholdPercent =
     (let ma = mean window;
          deviationPercent = (if ma = 0 then 0 else \<bar>price - ma\<bar> / ma * 100)
      in \<lparr>as_isAnomaly = deviationPercent > thresholdPercent,
          as_score = jn_div deviationPercent thresholdPercent, as_method = MovingAverage\<rparr>)"

fun returns :: "rat list \<Rightarrow> rat list" where
  "returns (x # y # ys) = (if x \<noteq> 0 then [(y - x) / x] else []) @ returns (y # ys)"
| "returns _ = []"

definition detectVolatility :: "(rat \<Rightarrow> rat) \<Rightarrow> rat \<Rightarrow> rat list \<Rightarrow> rat \<Rightarrow> anomaly_score" where
  "detectVolatility sqrtf price window multiplier =
     (if length window < 2 then \<lparr>as_isAnomaly = False, as_score = Fin 0, as_method = Volatility\<rparr>
      else let rs = returns window
           in if rs = [] then \<lparr>as_isAnomaly = False, as_score = Fin 0, as_method = Volatility\<rparr>
              else let vol = stdDev sqrtf rs;
                       lst = last window;
                       currentReturn = (if lst = 0 then 0 else \<bar>(price - lst) / lst\<bar>);
                       threshold = vol * multiplier;
                       score = (if threshold = 0 then Fin 0 else Fin (currentReturn / threshold))
                   in \<lparr>as_isAnomaly = currentReturn > threshold, as_score = score, as_method = Volatility\<rparr>)"

text \<open>\<open>history.slice(-n)\<close>; \<open>slice(-0)\<close> is the whole array.\<close>

definition js_slice_last :: "nat \<Rightarrow> 'a list \<Rightarrow> 'a list" where
  "js_slice_last n xs = (if n = 0 then xs else drop (length xs - n) xs)"

definition detect :: "(rat \<Rightarrow> rat) \<Rightarrow> string \<Rightarrow> rat \<Rightarrow> anomaly_detector \<Rightarrow> anomaly_detector \<times> anomaly_score option" where
  "detect sqrtf asset currentPrice d =
     (let history = nullish (jm_get (ad_priceHistory d) asset) []
      in if length history < 5
         then (d\<lparr>ad_priceHistory := jm_set (ad_priceHistory d) asset (history @ [currentPrice])\<rparr>, None)
         else
           let config = getConfig asset d;
               window = js_slice_last (ac_windowSize config) history;
               zResult = detectZScore sqrtf currentPrice window (ac_zScoreThreshold config);
               maResult = detectMovingAverageDeviation currentPrice window (ac_movingAverageDeviationPercent config);
               volResult = detectVolatility sqrtf currentPrice window (ac_volatilityMultiplier config);
               pushed = history @ [currentPrice];
               history' = (if length pushed > ac_windowSize config * 2 then tl pushed else pushed);
               d' = d\<lparr>ad_priceHistory := jm_set (ad_priceHistory d) asset history'\<rparr>;
               anomalyDetections = filter as_isAnomaly [zResult, maResult, volResult]
           in case anomalyDetections of
                [] \<Rightarrow> (d', None)
              | x # xs \<Rightarrow> (d', Some (fold (\<lambda>b a. if jn_greater (as_score a) (as_score b) then a else b) xs x)))"

subsection \<open>Properties\<close>

definition history_bounded :: "anomaly_detector \<Rightarrow> bool" where
  "history_bounded d \<longleftrightarrow>
     jm.all_stored (\<lambda>asset h. length h \<le> max 5 (2 * ac_windowSize (getConfig asset d))) (ad_priceHistory d)"

lemma detect_keeps_configs: "getConfig a (fst (detect sqrtf asset p d)) = getConfig a d"
  by (auto simp: detect_def getConfig_def Let_def split: list.split)

lemma detect_history:
  "ad_priceHistory (fst (detect sqrtf asset p d)) =
     jm_set (ad_priceHistory d) asset
       (let h = nullish (jm_get (ad_priceHistory d) asset) []
        in if length h < 5 then h @ [p]
           else if length h + 1 > ac_windowSize (getConfig asset d) * 2 then tl (h @ [p]) else h @ [p])"
  by (auto simp: detect_def Let_def split: list.split)

lemma history_bounded_detect:
  assumes "history_bounded d"
  shows "history_bounded (fst (detect sqrtf asset p d))"
proof -
  let ?h = "nullish (jm_get (ad_priceHistory d) asset) []"
  have "length ?h \<le> max 5 (2 * ac_windowSize (getConfig asset d))"
    using assms by (auto simp: history_bounded_def dest: jm.all_storedD split: option.split)
  then show ?thesis
    using assms unfolding history_bounded_def detect_keeps_configs detect_history
    by (intro jm.all_stored_put) (auto simp: Let_def)
qed

text \<open>
  Memory bound of the detector: however many prices it is fed, the history of every asset
  stays within twice its window (or the five prices it needs to start), for fixed configurations.
\<close>

theorem anomaly_history_bounded:
  "jm_get (ad_priceHistory (fold (\<lambda>(asset, p) d. fst (detect sqrtf asset p d)) feed
      (newAnomalyDetector\<lparr>ad_configs := cfgs\<rparr>))) a = Some h
   \<Longrightarrow> length h \<le> max 5 (2 * ac_windowSize (nullish (jm_get cfgs a) DEFAULT_ANOMALY_CONFIG))"
proof -
  assume h: "jm_get (ad_priceHistory (fold (\<lambda>(asset, p) d. fst (detect sqrtf asset p d)) feed
      (newAnomalyDetector\<lparr>ad_configs := cfgs\<rparr>))) a = Some h"
  have "history_bounded d \<Longrightarrow> history_bounded (fold (\<lambda>(asset, p) d. fst (detect sqrtf asset p d)) feed d)
      \<and> getConfig a (fold (\<lambda>(asset, p) d. fst (detect sqrtf asset p d)) feed d) = getConfig a d" for d
    by (induction feed arbitrary: d) (auto simp: history_bounded_detect detect_keeps_configs)
  from this [of "newAnomalyDetector\<lparr>ad_configs := cfgs\<rparr>"] h show ?thesis
    by (auto simp: history_bounded_def newAnomalyDetector_def getConfig_def dest: jm.all_storedD)
qed

theorem anomaly_history_bounded_witness:
  "length [1, 2, 3, 4, 5, 6 :: rat] \<le> max 5 (2 * 20)"
proof -
  have "jm_get (ad_priceHistory (fold (\<lambda>(asset, p) d. fst (detect (\<lambda>x. x) asset p d))
        (map (Pair ''XLM'') [1, 2, 3, 4, 5, 6]) (newAnomalyDetector\<lparr>ad_configs := []\<rparr>))) ''XLM''
      = Some [1, 2, 3, 4, 5, 6]"
    by code_simp
  from anomaly_history_bounded [OF this] show ?thesis
    by (simp add: DEFAULT_ANOMALY_CONFIG_def)
qed

end
