(* ===== verification/Aggregator.thy ===== *)
theory Aggregator
  imports Deviation_Breaker Freshness Anomaly
begin

text \<open>
  The price aggregator, \<open>services/aggregator/src/price-aggregation/aggregator.ts\<close>: it keeps the latest
  price of every source, feeds the deviation breaker, and computes the published price of an asset
  from the fresh and trusted sources.

  Parameters: \<open>bn\<close> the BigNumber package, \<open>sqrtf\<close> \<open>Math.sqrt\<close>, \<open>evidenceId\<close> the SHA-256 digest of the
  JSON text of an evidence bundle, \<open>stalenessMs\<close> the configured threshold, \<open>nowMs\<close> the clock. The
  module-level anomaly detector is passed beside the aggregator. \<open>parseFloat(median.toString())\<close> is
  read as the numeric value of the median.
\<close>

subsection \<open>State\<close>

datatype degradation_level = Healthy | Degraded | Critical

record aggregated_price =
  ap_asset :: string
  ap_price :: string
  ap_decimals :: int
  ap_sources :: "oracle_source list"
  ap_timestamp :: int
  ap_confidence :: rat
  ap_degradationLevel :: degradation_level
  ap_stale :: bool
  ap_ageVerified :: bool
  ap_anomaly :: "anomaly_score option"

datatype fallback = NoFallback | StaleFallback | SuspiciousFallback
datatype policy_mode = Legacy | VolatilityBounded
datatype exclusion_reason = OutsideFreshnessPolicy | UnverifiedObservationTime | SuspiciousSource

record observation =
  ob_source :: oracle_source
  ob_price :: int
  ob_decimals :: int
  ob_observedAt :: "int option"
  ob_timestamp :: int
  ob_normalizedPrice :: "string option"
  ob_included :: bool
  ob_reasons :: "exclusion_reason list"

record evidence_content =
  ec_asset :: string
  ec_evaluatedAtMs :: int
  ec_mode :: policy_mode
  ec_budgetMs :: rat
  ec_hardMaxAgeMs :: "rat option"
  ec_volatilityBps :: rat
  ec_observations :: "observation list"
  ec_available :: nat
  ec_contributing :: nat
  ec_minimum :: nat
  ec_met :: bool
  ec_fallback :: fallback
  ec_result :: "aggregated_price option"

record evidence = evidence_content + ev_id :: string

record previous_price =
  pv_price :: string
  pv_timestamp :: int
  pv_volatilityBps :: rat

record 'b aggregator =
  ag_sources :: "(string, normalized_price) js_map"
  ag_circuitBreaker :: "'b circuit_breaker"
  ag_evidence :: "(string, evidence) js_map"
  ag_previous :: "(string, previous_price) js_map"
  ag_freshnessPolicy :: "freshness_policy option"

definition newPriceAggregator ::
  "int \<Rightarrow> cb_config option \<Rightarrow> freshness_policy option \<Rightarrow> freshness_error + 'b aggregator" where
  "newPriceAggregator now cbConfig policy =
     (let cfg = nullish cbConfig \<lparr>cc_deviationThreshold = 20, cc_recoveryRequiredSuccesses = 3, cc_surgeLimits = None\<rparr>
      in if (case policy of None \<Rightarrow> False | Some p \<Rightarrow> \<not> valid_freshness_policy p) then Inl InvalidPolicy
         else Inr \<lparr>ag_sources = [], ag_circuitBreaker = newCircuitBreaker now cfg, ag_evidence = [],
                   ag_previous = [], ag_freshnessPolicy = policy\<rparr>)"

subsection \<open>Operations\<close>

definition updateSourcePrice ::
  "'b bignumber \<Rightarrow> int \<Rightarrow> normalized_price \<Rightarrow> 'b aggregator \<Rightarrow> 'b aggregator" where
  "updateSourcePrice bn now price ag =
     (let key = source_name (np_source price) @ '':'' @ np_asset price;
          sources = jm_set (ag_sources ag) key price
      in ag\<lparr>ag_sources := sources,
            ag_circuitBreaker := fst (evaluatePrice bn now price (jm_values sources) (ag_circuitBreaker ag))\<rparr>)"

definition computeDegradationLevel :: "nat \<Rightarrow> nat \<Rightarrow> bool \<Rightarrow> degradation_level" where
  "computeDegradationLevel activeCount totalCount stale =
     (if stale \<or> activeCount = 0 then Critical
      else let ratio = (of_nat activeCount :: rat) / of_nat (max totalCount 1)
           in if ratio < 1 / 2 then Critical else if ratio < 1 then Degraded else Healthy)"

definition suspicious :: "'b aggregator \<Rightarrow> normalized_price \<Rightarrow> bool" where
  "suspicious ag p =
     (case getSourceState (np_asset p @ '':'' @ source_name (np_source p)) (ag_circuitBreaker ag) of
        None \<Rightarrow> False | Some st \<Rightarrow> st_suspicious st)"

text \<open>The selection of the contributing prices in the first half of \<open>getLatestForAsset\<close>.\<close>

record selection =
  sel_prices :: "normalized_price list"
  sel_valid :: "normalized_price list"
  sel_stale :: bool
  sel_toUse :: "normalized_price list"
  sel_fallback :: fallback

definition selectPrices :: "int \<Rightarrow> string \<Rightarrow> rat \<Rightarrow> 'b aggregator \<Rightarrow> selection" where
  "selectPrices nowMs normalized budgetMs ag =
     (let prices = filter (\<lambda>p. np_asset p = normalized) (jm_values (ag_sources ag));
          validPrices = filter (\<lambda>p. if ag_freshnessPolicy ag \<noteq> None
                                     then isFresh (np_observedAt p) nowMs budgetMs
                                     else of_int (nowMs - np_timestamp p * 1000) < budgetMs) prices;
          stale = (validPrices = []);
          activePrices = (if stale \<and> ag_freshnessPolicy ag = None then prices else validPrices);
          trustedPrices = filter (\<lambda>p. \<not> suspicious ag p) activePrices;
          pricesToUse = (if trustedPrices \<noteq> [] then trustedPrices
                         else if ag_freshnessPolicy ag \<noteq> None then [] else activePrices);
          fallback = (if stale \<and> ag_freshnessPolicy ag = None then StaleFallback
                      else if trustedPrices = [] \<and> pricesToUse \<noteq> [] then SuspiciousFallback
                      else NoFallback)
      in \<lparr>sel_prices = prices, sel_valid = validPrices, sel_stale = stale,
          sel_toUse = pricesToUse, sel_fallback = fallback\<rparr>)"

definition captureEvidence ::
  "'b bignumber \<Rightarrow> (evidence_content \<Rightarrow> string) \<Rightarrow> int \<Rightarrow> string \<Rightarrow> rat \<Rightarrow> rat \<Rightarrow> selection
     \<Rightarrow> aggregated_price option \<Rightarrow> 'b aggregator \<Rightarrow> 'b aggregator" where
  "captureEvidence bn evidenceId nowMs normalized budgetMs volatilityBps sel result ag =
     (let content = \<lparr>
            ec_asset = normalized, ec_evaluatedAtMs = nowMs,
            ec_mode = (if ag_freshnessPolicy ag \<noteq> None then VolatilityBounded else Legacy),
            ec_budgetMs = budgetMs,
            ec_hardMaxAgeMs = map_option fp_hardMaxAgeMs (ag_freshnessPolicy ag),
            ec_volatilityBps = volatilityBps,
            ec_observations = map (\<lambda>p. \<lparr>
                ob_source = np_source p, ob_price = np_price p, ob_decimals = np_decimals p,
                ob_observedAt = np_observedAt p, ob_timestamp = np_timestamp p,
                ob_normalizedPrice = map_option (\<lambda>r. bn_toFixed bn (toScale bn p (ap_decimals r))) result,
                ob_included = p \<in> set (sel_toUse sel),
                ob_reasons = (if p \<notin> set (sel_valid sel) then [OutsideFreshnessPolicy] else [])
                  @ (if np_observedAt p = None then [UnverifiedObservationTime] else [])
                  @ (if suspicious ag p then [SuspiciousSource] else [])\<rparr>) (sel_prices sel),
            ec_available = length (sel_prices sel), ec_contributing = length (sel_toUse sel),
            ec_minimum = 1, ec_met = (length (sel_toUse sel) \<ge> 1),
            ec_fallback = sel_fallback sel, ec_result = result\<rparr>
      in ag\<lparr>ag_evidence := jm_set (ag_evidence ag) normalized
            (evidence_content.extend content \<lparr>ev_id = evidenceId content\<rparr>)\<rparr>)"

definition budgetFor :: "int \<Rightarrow> rat \<Rightarrow> 'b aggregator \<Rightarrow> freshness_error + rat" where
  "budgetFor stalenessMs volatilityBps ag =
     (case ag_freshnessPolicy ag of
        Some policy \<Rightarrow> freshnessBudget policy (Fin volatilityBps)
      | None \<Rightarrow> Inr (of_int stalenessMs))"

definition aggregateResult ::
  "'b bignumber \<Rightarrow> int \<Rightarrow> string \<Rightarrow> selection \<Rightarrow> anomaly_score option \<Rightarrow> aggregated_price" where
  "aggregateResult bn nowMs normalized sel anomaly =
     (let m = medianOnCommonScale bn (sel_toUse sel); totalSources = length (sel_prices sel)
      in \<lparr>ap_asset = normalized, ap_price = bn_toString bn (csm_value m), ap_decimals = csm_decimals m,
          ap_sources = rev (remdups (rev (map np_source (sel_toUse sel)))),
          ap_timestamp = nowMs div 1000,
          ap_confidence = of_nat (length (sel_toUse sel)) / of_nat (max totalSources 1),
          ap_degradationLevel = computeDegradationLevel (length (sel_toUse sel)) totalSources (sel_stale sel),
          ap_stale = sel_stale sel, ap_ageVerified = isAgeVerified (sel_toUse sel), ap_anomaly = anomaly\<rparr>)"

definition rememberPrice ::
  "'b bignumber \<Rightarrow> string \<Rightarrow> selection \<Rightarrow> 'b aggregator \<Rightarrow> freshness_error + 'b aggregator" where
  "rememberPrice bn normalized sel ag =
     (let m = medianOnCommonScale bn (sel_toUse sel);
          previous = jm_get (ag_previous ag) normalized;
          latestObservation = Max (set (map (\<lambda>p. nullish (np_observedAt p) (np_timestamp p)) (sel_toUse sel)));
          humanPrice = bn_toFixed bn (bn_shiftedBy bn (csm_value m) (- csm_decimals m))
      in if bn_gt bn (csm_value m) (bn_of_bigint bn 0)
            \<and> (case previous of None \<Rightarrow> True | Some pv \<Rightarrow> latestObservation > pv_timestamp pv)
         then (case (case previous of None \<Rightarrow> Inr 0 | Some pv \<Rightarrow> realizedVolatility bn (pv_price pv) humanPrice) of
                 Inl e \<Rightarrow> Inl e
               | Inr v \<Rightarrow> Inr (ag\<lparr>ag_previous := jm_set (ag_previous ag) normalized
                   \<lparr>pv_price = humanPrice, pv_timestamp = latestObservation, pv_volatilityBps = v\<rparr>\<rparr>))
         else Inr ag)"

definition medianFloat :: "'b bignumber \<Rightarrow> 'b common_scale_median \<Rightarrow> rat" where
  "medianFloat bn m = (case bn_toNumber bn (csm_value m) of Fin r \<Rightarrow> r | _ \<Rightarrow> 0) / 10 powi csm_decimals m"

definition getLatestForAsset ::
  "'b bignumber \<Rightarrow> (rat \<Rightarrow> rat) \<Rightarrow> (evidence_content \<Rightarrow> string) \<Rightarrow> int \<Rightarrow> int \<Rightarrow> string
     \<Rightarrow> 'b aggregator \<Rightarrow> anomaly_detector
     \<Rightarrow> 'b aggregator \<times> anomaly_detector \<times> (freshness_error + aggregated_price option)" where
  "getLatestForAsset bn sqrtf evidenceId stalenessMs nowMs asset ag det =
     (let normalized = js_toUpperCase asset
      in if filter (\<lambda>p. np_asset p = normalized) (jm_values (ag_sources ag)) = [] then (ag, det, Inr None)
         else
           let volatilityBps = (case jm_get (ag_previous ag) normalized of None \<Rightarrow> 0 | Some pv \<Rightarrow> pv_volatilityBps pv)
           in case budgetFor stalenessMs volatilityBps ag of
                Inl e \<Rightarrow> (ag, det, Inl e)
              | Inr budgetMs \<Rightarrow>
                  let sel = selectPrices nowMs normalized budgetMs ag
                  in if sel_toUse sel = []
                     then (captureEvidence bn evidenceId nowMs normalized budgetMs volatilityBps sel None ag, det, Inr None)
                     else
                       let (det', anomaly) = detect sqrtf normalized
                             (medianFloat bn (medianOnCommonScale bn (sel_toUse sel))) det;
                           result = aggregateResult bn nowMs normalized sel anomaly
                       in case rememberPrice bn normalized sel ag of
                            Inl e \<Rightarrow> (ag, det', Inl e)
                          | Inr ag' \<Rightarrow>
                              (captureEvidence bn evidenceId nowMs normalized budgetMs volatilityBps sel (Some result) ag',
                               det', Inr (Some result)))"

definition getEvidence :: "string \<Rightarrow> 'b aggregator \<Rightarrow> evidence option" where
  "getEvidence asset ag = jm_get (ag_evidence ag) (js_toUpperCase asset)"

definition getSourcePricesForAsset :: "string \<Rightarrow> 'b aggregator \<Rightarrow> normalized_price list" where
  "getSourcePricesForAsset asset ag =
     filter (\<lambda>p. np_asset p = js_toUpperCase asset) (jm_values (ag_sources ag))"

definition getFreshSourcePricesForAsset :: "int \<Rightarrow> int \<Rightarrow> string \<Rightarrow> 'b aggregator \<Rightarrow> normalized_price list" where
  "getFreshSourcePricesForAsset stalenessMs now asset ag =
     filter (\<lambda>p. now - np_timestamp p * 1000 < stalenessMs) (getSourcePricesForAsset asset ag)"

definition getSourceCount :: "'b aggregator \<Rightarrow> nat" where
  "getSourceCount ag = length (remdups (map np_source (jm_values (ag_sources ag))))"

fun getAllPrices_loop ::
  "'b bignumber \<Rightarrow> (rat \<Rightarrow> rat) \<Rightarrow> (evidence_content \<Rightarrow> string) \<Rightarrow> int \<Rightarrow> int \<Rightarrow> string list
     \<Rightarrow> 'b aggregator \<Rightarrow> anomaly_detector
     \<Rightarrow> 'b aggregator \<times> anomaly_detector \<times> (freshness_error + aggregated_price list)" where
  "getAllPrices_loop bn sqrtf evidenceId stalenessMs nowMs [] ag det = (ag, det, Inr [])"
| "getAllPrices_loop bn sqrtf evidenceId stalenessMs nowMs (a # as) ag det =
     (case getLatestForAsset bn sqrtf evidenceId stalenessMs nowMs a ag det of
        (ag', det', Inl e) \<Rightarrow> (ag', det', Inl e)
      | (ag', det', Inr r) \<Rightarrow>
          (case getAllPrices_loop bn sqrtf evidenceId stalenessMs nowMs as ag' det' of
             (ag'', det'', Inl e) \<Rightarrow> (ag'', det'', Inl e)
           | (ag'', det'', Inr rs) \<Rightarrow> (ag'', det'', Inr ((case r of None \<Rightarrow> [] | Some p \<Rightarrow> [p]) @ rs))))"

definition getAllPrices ::
  "'b bignumber \<Rightarrow> (rat \<Rightarrow> rat) \<Rightarrow> (evidence_content \<Rightarrow> string) \<Rightarrow> int \<Rightarrow> int
     \<Rightarrow> 'b aggregator \<Rightarrow> anomaly_detector
     \<Rightarrow> 'b aggregator \<times> anomaly_detector \<times> (freshness_error + aggregated_price list)" where
  "getAllPrices bn sqrtf evidenceId stalenessMs nowMs ag det =
     getAllPrices_loop bn sqrtf evidenceId stalenessMs nowMs
       (rev (remdups (rev (map np_asset (jm_values (ag_sources ag)))))) ag det"

definition resetCircuitBreaker :: "int \<Rightarrow> string option \<Rightarrow> 'b aggregator \<Rightarrow> 'b aggregator" where
  "resetCircuitBreaker now sourceKey ag =
     (case sourceKey of
        Some key \<Rightarrow> (if key = [] then ag\<lparr>ag_circuitBreaker := resetAll now (ag_circuitBreaker ag)\<rparr>
                     else ag\<lparr>ag_circuitBreaker := resetSource key (ag_circuitBreaker ag)\<rparr>)
      | None \<Rightarrow> ag\<lparr>ag_circuitBreaker := resetAll now (ag_circuitBreaker ag)\<rparr>)"

subsection \<open>What a published price is made of\<close>

lemma filter_mem_filter: "filter (\<lambda>p. p \<in> set (filter P xs)) xs = filter P xs"
  by (rule filter_cong) auto

lemma getLatest_cases:
  assumes "getLatestForAsset bn sqrtf evidenceId stalenessMs nowMs asset ag det = (ag', det', Inr res)"
    and "getSourcePricesForAsset asset ag \<noteq> []"
  obtains budget vol sel base where
    "budgetFor stalenessMs vol ag = Inr budget"
    "sel = selectPrices nowMs (js_toUpperCase asset) budget ag"
    "ag' = captureEvidence bn evidenceId nowMs (js_toUpperCase asset) budget vol sel res base"
    "res = None \<longleftrightarrow> sel_toUse sel = []"
    "\<And>r. res = Some r \<Longrightarrow> \<exists>a. r = aggregateResult bn nowMs (js_toUpperCase asset) sel a"
proof -
  define vol where "vol = (case jm_get (ag_previous ag) (js_toUpperCase asset) of None \<Rightarrow> 0 | Some pv \<Rightarrow> pv_volatilityBps pv)"
  note step = assms [unfolded getLatestForAsset_def Let_def getSourcePricesForAsset_def, folded vol_def]
  obtain budget where b: "budgetFor stalenessMs vol ag = Inr budget"
    using step by (auto split: sum.splits)
  define sel where "sel = selectPrices nowMs (js_toUpperCase asset) budget ag"
  note step' = step [unfolded b sum.case, folded sel_def]
  show ?thesis
  proof (cases "sel_toUse sel = []")
    case True
    then show ?thesis using step' by (intro that [OF b sel_def, of ag]) auto
  next
    case False
    then obtain base where "ag' = captureEvidence bn evidenceId nowMs (js_toUpperCase asset) budget vol sel res base"
      "\<exists>a. res = Some (aggregateResult bn nowMs (js_toUpperCase asset) sel a)"
      using step' by (auto split: sum.splits prod.splits)
    then show ?thesis using False by (intro that [OF b sel_def, of base]) auto
  qed
qed

lemma selectPrices_sublist:
  obtains P where "sel_toUse (selectPrices nowMs a b ag) = filter P (sel_prices (selectPrices nowMs a b ag))"
proof -
  have "\<exists>P. sel_toUse (selectPrices nowMs a b ag) = filter P (sel_prices (selectPrices nowMs a b ag))"
    by (auto simp: selectPrices_def Let_def filter_mem_filter intro: exI [of _ "\<lambda>_. True"] exI [of _ "\<lambda>_. False"])
  then show ?thesis using that by blast
qed

lemma selectPrices_policy:
  assumes "ag_freshnessPolicy ag \<noteq> None"
  shows "sel_toUse (selectPrices nowMs a b ag) =
      filter (\<lambda>p. np_asset p = a \<and> isFresh (np_observedAt p) nowMs b \<and> \<not> suspicious ag p) (jm_values (ag_sources ag))"
    "sel_toUse (selectPrices nowMs a b ag) \<noteq> [] \<Longrightarrow> \<not> sel_stale (selectPrices nowMs a b ag)"
proof -
  have eq: "filter (\<lambda>p. \<not> suspicious ag p) (filter (\<lambda>p. isFresh (np_observedAt p) nowMs b)
      (filter (\<lambda>p. np_asset p = a) (jm_values (ag_sources ag)))) =
    filter (\<lambda>p. np_asset p = a \<and> isFresh (np_observedAt p) nowMs b \<and> \<not> suspicious ag p) (jm_values (ag_sources ag))"
    by (simp only: filter_filter) (rule filter_cong, auto)
  show "sel_toUse (selectPrices nowMs a b ag) =
      filter (\<lambda>p. np_asset p = a \<and> isFresh (np_observedAt p) nowMs b \<and> \<not> suspicious ag p) (jm_values (ag_sources ag))"
    unfolding eq [symmetric] selectPrices_def Let_def using assms
    by (auto simp del: filter_filter)
  then show "sel_toUse (selectPrices nowMs a b ag) \<noteq> [] \<Longrightarrow> \<not> sel_stale (selectPrices nowMs a b ag)"
    unfolding eq [symmetric] selectPrices_def Let_def using assms
    by (auto simp del: filter_filter)
qed

lemma computeDegradationLevel_exact:
  assumes "0 < a" "a \<le> n" "c = (of_nat a :: rat) / of_nat (max n 1)"
  shows "0 < c" "c \<le> 1" "computeDegradationLevel a n stale = Healthy \<longleftrightarrow> \<not> stale \<and> c = 1"
    "computeDegradationLevel a n stale = Critical \<longleftrightarrow> stale \<or> c < 1 / 2"
proof -
  show "0 < c" "c \<le> 1"
    using assms by (auto simp: divide_le_eq)
  then show "computeDegradationLevel a n stale = Healthy \<longleftrightarrow> \<not> stale \<and> c = 1"
    "computeDegradationLevel a n stale = Critical \<longleftrightarrow> stale \<or> c < 1 / 2"
    unfolding computeDegradationLevel_def Let_def assms(3) [symmetric] using assms(1) by auto
qed

abbreviation sample_aggregator :: "rat aggregator" where
  "sample_aggregator \<equiv> \<lparr>ag_sources = [(''band:XLM'', sample_price 120 2 Band),
       (''reflector:XLM'', (sample_price 110 2 Reflector)\<lparr>np_observedAt := Some 10\<rparr>)],
     ag_circuitBreaker = newCircuitBreaker 0 sample_config, ag_evidence = [], ag_previous = [],
     ag_freshnessPolicy = Some sample_policy\<rparr>"

abbreviation sample_run ::
  "rat aggregator \<times> anomaly_detector \<times> (freshness_error + aggregated_price option)" where
  "sample_run \<equiv> getLatestForAsset rat_bignumber (\<lambda>x. x) ec_asset 30000 110000 ''xlm'' sample_aggregator newAnomalyDetector"

lemma sample_run_publishes:
  obtains ag' det' r where "sample_run = (ag', det', Inr (Some r))" "ap_confidence r = 1 / 2"
proof -
  have "(case sample_run of (_, _, Inr (Some r)) \<Rightarrow> ap_confidence r = 1 / 2 | _ \<Rightarrow> False)"
    by code_simp
  then show ?thesis using that by (auto split: prod.splits sum.splits option.splits)
qed

lemma isFresh_bound:
  "isFresh o' now b \<Longrightarrow> b \<le> h \<Longrightarrow> \<exists>t. o' = Some t \<and> t * 1000 \<le> now \<and> of_int (now - t * 1000) < h"
  by (auto simp: isFresh_def split: option.splits)

text \<open>
  (C7) Under a freshness policy the aggregator fails closed: whenever it publishes a price, that
  price is the common-scale median of exactly the stored prices of the asset that are within the age
  budget and not marked suspicious, every one of them carries a provider observation time that is not
  in the future and is younger than the hard maximum age, and the result is age-verified and not stale.
\<close>

theorem aggregator_fail_closed:
  assumes "ag_freshnessPolicy ag = Some policy"
    and "getLatestForAsset bn sqrtf evidenceId stalenessMs nowMs asset ag det = (ag', det', Inr (Some r))"
  shows "\<exists>budget used. used = filter (\<lambda>p. np_asset p = js_toUpperCase asset
        \<and> isFresh (np_observedAt p) nowMs budget \<and> \<not> suspicious ag p) (jm_values (ag_sources ag))
     \<and> used \<noteq> [] \<and> ap_price r = bn_toString bn (csm_value (medianOnCommonScale bn used))
     \<and> ap_decimals r = csm_decimals (medianOnCommonScale bn used)
     \<and> (\<forall>p \<in> set used. \<exists>t. np_observedAt p = Some t \<and> t * 1000 \<le> nowMs
          \<and> of_int (nowMs - t * 1000) < fp_hardMaxAgeMs policy)
     \<and> ap_ageVerified r \<and> \<not> ap_stale r"
proof -
  have ne: "getSourcePricesForAsset asset ag \<noteq> []"
    using assms(2) by (auto simp: getLatestForAsset_def getSourcePricesForAsset_def Let_def)
  obtain budget vol sel base where s:
    "budgetFor stalenessMs vol ag = Inr budget" "sel = selectPrices nowMs (js_toUpperCase asset) budget ag"
    "sel_toUse sel \<noteq> []" "\<exists>a. r = aggregateResult bn nowMs (js_toUpperCase asset) sel a"
    using getLatest_cases [OF assms(2) ne] by (metis option.distinct(1))
  have b: "budget \<le> fp_hardMaxAgeMs policy"
    using s(1) assms(1) by (auto simp: budgetFor_def dest: freshnessBudget_bounds)
  have used: "sel_toUse sel = filter (\<lambda>p. np_asset p = js_toUpperCase asset
      \<and> isFresh (np_observedAt p) nowMs budget \<and> \<not> suspicious ag p) (jm_values (ag_sources ag))"
    "\<not> sel_stale sel"
    using selectPrices_policy [of ag nowMs "js_toUpperCase asset" budget] s(2,3) assms(1) by auto
  have fresh: "\<forall>p \<in> set (sel_toUse sel). \<exists>t. np_observedAt p = Some t \<and> t * 1000 \<le> nowMs
      \<and> of_int (nowMs - t * 1000) < fp_hardMaxAgeMs policy"
    unfolding used(1) using b by (auto dest: isFresh_bound)
  then have "isAgeVerified (sel_toUse sel)"
    using s(3) by (auto simp: isAgeVerified_def list_all_iff)
  moreover have "ap_price r = bn_toString bn (csm_value (medianOnCommonScale bn (sel_toUse sel)))"
    "ap_decimals r = csm_decimals (medianOnCommonScale bn (sel_toUse sel))"
    "ap_ageVerified r = isAgeVerified (sel_toUse sel)" "ap_stale r = sel_stale sel"
    using s(4) by (auto simp: aggregateResult_def Let_def)
  ultimately show ?thesis
    using fresh s(3) used(2) by - (intro exI conjI, rule used(1), simp_all only: simp_thms)
qed

theorem aggregator_fail_closed_witness:
  "\<exists>ag' det' r. sample_run = (ag', det', Inr (Some r)) \<and> ap_ageVerified r \<and> \<not> ap_stale r"
proof -
  obtain ag' det' r where r: "sample_run = (ag', det', Inr (Some r))"
    by (rule sample_run_publishes)
  then show ?thesis
    using aggregator_fail_closed [OF _ r, of sample_policy] by auto
qed

text \<open>
  Every evaluation of an asset with stored prices leaves an evidence bundle that agrees with
  what was returned: it holds the returned result, its quorum is met exactly when a price was
  returned, it counts as contributing exactly the observations it marks as included, and its
  identifier is the digest of its own content.
\<close>

theorem aggregator_evidence_agrees:
  assumes "getLatestForAsset bn sqrtf evidenceId stalenessMs nowMs asset ag det = (ag', det', Inr res)"
    and "getSourcePricesForAsset asset ag \<noteq> []"
  shows "\<exists>ev. getEvidence asset ag' = Some ev \<and> ec_result ev = res \<and> (ec_met ev \<longleftrightarrow> res \<noteq> None)
     \<and> ec_available ev = length (getSourcePricesForAsset asset ag)
     \<and> ec_contributing ev = length (filter ob_included (ec_observations ev))
     \<and> (\<forall>r. res = Some r \<longrightarrow> ap_confidence r = of_nat (ec_contributing ev) / of_nat (ec_available ev))
     \<and> ev_id ev = evidenceId (evidence_content.truncate ev)"
proof -
  obtain budget vol sel base where s:
    "sel = selectPrices nowMs (js_toUpperCase asset) budget ag"
    "ag' = captureEvidence bn evidenceId nowMs (js_toUpperCase asset) budget vol sel res base"
    "res = None \<longleftrightarrow> sel_toUse sel = []"
    "\<And>r. res = Some r \<Longrightarrow> \<exists>a. r = aggregateResult bn nowMs (js_toUpperCase asset) sel a"
    using getLatest_cases [OF assms] by metis
  obtain P where P: "sel_toUse sel = filter P (sel_prices sel)"
    using selectPrices_sublist s(1) by metis
  have pr: "sel_prices sel = getSourcePricesForAsset asset ag"
    by (simp add: s(1) selectPrices_def Let_def getSourcePricesForAsset_def)
  have inc: "length (filter (\<lambda>p. p \<in> set (sel_toUse sel)) (sel_prices sel)) = length (sel_toUse sel)"
    by (simp only: P filter_mem_filter)
  have conf: "ap_confidence r = of_nat (length (sel_toUse sel)) / of_nat (length (sel_prices sel))"
    if "res = Some r" for r
    using s(4) [OF that] assms(2) pr
    by (auto simp: aggregateResult_def Let_def max_absorb1 Suc_leI)
  have "1 \<le> length (sel_toUse sel) \<longleftrightarrow> sel_toUse sel \<noteq> []"
    by (cases "sel_toUse sel") auto
  then show ?thesis
    using inc conf s(3) pr
    by (auto simp: s(2) captureEvidence_def getEvidence_def Let_def evidence_content.defs filter_map comp_def)
qed

theorem aggregator_evidence_agrees_witness:
  "\<exists>ag' det' r ev. sample_run = (ag', det', Inr (Some r)) \<and> getEvidence ''xlm'' ag' = Some ev \<and> ec_available ev = 2"
proof -
  obtain ag' det' r where r: "sample_run = (ag', det', Inr (Some r))"
    by (rule sample_run_publishes)
  have "length (getSourcePricesForAsset ''xlm'' sample_aggregator) = 2"
    by code_simp
  then show ?thesis
    using aggregator_evidence_agrees [OF r] r by fastforce
qed

text \<open>
  The reported quality follows the share of contributing sources: confidence lies in the
  interval (0, 1], the level is healthy exactly when every source of the asset contributes and
  the result is not stale, and critical exactly when it is stale or fewer than half contribute.
\<close>

theorem aggregator_degradation_exact:
  assumes "getLatestForAsset bn sqrtf evidenceId stalenessMs nowMs asset ag det = (ag', det', Inr (Some r))"
  shows "0 < ap_confidence r \<and> ap_confidence r \<le> 1
    \<and> (ap_degradationLevel r = Healthy \<longleftrightarrow> \<not> ap_stale r \<and> ap_confidence r = 1)
    \<and> (ap_degradationLevel r = Critical \<longleftrightarrow> ap_stale r \<or> ap_confidence r < 1 / 2)"
proof -
  have ne: "getSourcePricesForAsset asset ag \<noteq> []"
    using assms by (auto simp: getLatestForAsset_def getSourcePricesForAsset_def Let_def)
  obtain budget vol sel base where s:
    "sel = selectPrices nowMs (js_toUpperCase asset) budget ag"
    "sel_toUse sel \<noteq> []" "\<exists>a. r = aggregateResult bn nowMs (js_toUpperCase asset) sel a"
    using getLatest_cases [OF assms ne] by (metis option.distinct(1))
  obtain P where P: "sel_toUse sel = filter P (sel_prices sel)"
    using selectPrices_sublist s(1) by metis
  have le: "length (sel_toUse sel) \<le> length (sel_prices sel)" "0 < length (sel_toUse sel)"
    using s(2) by (auto simp: P)
  have "ap_confidence r = of_nat (length (sel_toUse sel)) / of_nat (max (length (sel_prices sel)) 1)"
    "ap_degradationLevel r = computeDegradationLevel (length (sel_toUse sel)) (length (sel_prices sel)) (ap_stale r)"
    using s(3) by (auto simp: aggregateResult_def Let_def)
  with computeDegradationLevel_exact [OF le(2,1)] show ?thesis
    by metis
qed

theorem aggregator_degradation_exact_witness:
  "\<exists>ag' det' r. sample_run = (ag', det', Inr (Some r)) \<and> ap_degradationLevel r \<noteq> Healthy"
proof -
  obtain ag' det' r where r: "sample_run = (ag', det', Inr (Some r))" "ap_confidence r = 1 / 2"
    by (rule sample_run_publishes)
  then show ?thesis
    using aggregator_degradation_exact [OF r(1)] by auto
qed

end
