(* ===== verification/Source_Breaker.thy ===== *)
theory Source_Breaker
  imports Js_Prelude
begin

text \<open>
  The per-source circuit breaker that guards provider fetches,
  \<open>services/aggregator/src/price-aggregation/source-circuit-breaker.ts\<close>: CLOSED, OPEN and HALF_OPEN
  states with surge limits during recovery. Log lines are not modelled; the clock is the argument \<open>now\<close>.
\<close>

subsection \<open>State\<close>

datatype sb_state = SB_CLOSED | SB_OPEN | SB_HALF_OPEN

record sb_surge_config =
  sc_maxConcurrentHalfOpen :: nat
  sc_maxRequestsPerWindow :: nat
  sc_windowMs :: int
  sc_halfOpenRateFraction :: rat
  sc_costPerRequest :: rat
  sc_maxCostPerWindow :: rat

record sb_config =
  sbc_failureThreshold :: nat
  sbc_cooldownMs :: int
  sbc_halfOpenSuccesses :: nat
  sbc_surge :: "sb_surge_config option"

datatype surge_decision = ALLOW | THROTTLE | DEGRADE

record surge_status =
  ss_decision :: surge_decision
  ss_inFlight :: nat
  ss_requestsInWindow :: nat
  ss_costInWindow :: rat
  ss_throttled :: nat
  ss_degraded :: nat
  ss_lastSurgeAlertTime :: "int option"

record cb_entry =
  en_state :: sb_state
  en_failures :: nat
  en_lastFailureTime :: "int option"
  en_lastStateChange :: int
  en_halfOpenSuccesses :: nat
  en_totalTrips :: nat
  en_inFlight :: nat
  en_windowStart :: int
  en_requestsInWindow :: nat
  en_costInWindow :: rat
  en_throttled :: nat
  en_degraded :: nat
  en_lastSurgeAlertTime :: "int option"

record sb_status =
  sbs_state :: sb_state
  sbs_failures :: nat
  sbs_lastFailureTime :: "int option"
  sbs_lastStateChange :: int
  sbs_totalTrips :: nat
  sbs_surge :: surge_status

definition DEFAULT_SURGE :: sb_surge_config where
  "DEFAULT_SURGE = \<lparr>sc_maxConcurrentHalfOpen = 2, sc_maxRequestsPerWindow = 10, sc_windowMs = 10000,
     sc_halfOpenRateFraction = 1 / 4, sc_costPerRequest = 1, sc_maxCostPerWindow = 20\<rparr>"

record source_breaker =
  sb_states :: "(string, cb_entry) js_map"
  sb_conf :: sb_config
  sb_surge :: sb_surge_config

definition newSourceCircuitBreaker :: "sb_config \<Rightarrow> source_breaker" where
  "newSourceCircuitBreaker config =
     \<lparr>sb_states = [], sb_conf = config, sb_surge = nullish (sbc_surge config) DEFAULT_SURGE\<rparr>"

subsection \<open>Operations\<close>

definition new_entry :: "int \<Rightarrow> cb_entry" where
  "new_entry now = \<lparr>en_state = SB_CLOSED, en_failures = 0, en_lastFailureTime = None, en_lastStateChange = now,
     en_halfOpenSuccesses = 0, en_totalTrips = 0, en_inFlight = 0, en_windowStart = now,
     en_requestsInWindow = 0, en_costInWindow = 0, en_throttled = 0, en_degraded = 0, en_lastSurgeAlertTime = None\<rparr>"

definition sb_getOrCreate :: "int \<Rightarrow> string \<Rightarrow> source_breaker \<Rightarrow> cb_entry" where
  "sb_getOrCreate now source b = nullish (jm_get (sb_states b) source) (new_entry now)"

definition sb_store :: "string \<Rightarrow> cb_entry \<Rightarrow> source_breaker \<Rightarrow> source_breaker" where
  "sb_store source e b = b\<lparr>sb_states := jm_set (sb_states b) source e\<rparr>"

definition rollWindow :: "sb_surge_config \<Rightarrow> int \<Rightarrow> cb_entry \<Rightarrow> cb_entry" where
  "rollWindow surge now s =
     (if now - en_windowStart s \<ge> sc_windowMs surge
      then s\<lparr>en_windowStart := now, en_requestsInWindow := 0, en_costInWindow := 0\<rparr> else s)"

definition alertSurge :: "sb_surge_config \<Rightarrow> int \<Rightarrow> cb_entry \<Rightarrow> cb_entry" where
  "alertSurge surge now s =
     (if (case en_lastSurgeAlertTime s of None \<Rightarrow> False | Some t \<Rightarrow> now - t < sc_windowMs surge) then s
      else s\<lparr>en_lastSurgeAlertTime := Some now\<rparr>)"

definition buildSurgeStatus :: "cb_entry \<Rightarrow> surge_decision \<Rightarrow> surge_status" where
  "buildSurgeStatus s decision = \<lparr>ss_decision = decision, ss_inFlight = en_inFlight s,
     ss_requestsInWindow = en_requestsInWindow s, ss_costInWindow = en_costInWindow s,
     ss_throttled = en_throttled s, ss_degraded = en_degraded s, ss_lastSurgeAlertTime = en_lastSurgeAlertTime s\<rparr>"

definition effectiveRateCap :: "sb_surge_config \<Rightarrow> nat" where
  "effectiveRateCap surge =
     (let rateCap = max 1 (nat \<lfloor>of_nat (sc_maxRequestsPerWindow surge) * sc_halfOpenRateFraction surge\<rfloor>)
      in min (sc_maxRequestsPerWindow surge) rateCap)"

definition halfOpenDecision :: "sb_surge_config \<Rightarrow> int \<Rightarrow> cb_entry \<Rightarrow> cb_entry \<times> surge_decision" where
  "halfOpenDecision surge now s =
     (if en_inFlight s \<ge> sc_maxConcurrentHalfOpen surge
      then (alertSurge surge now (s\<lparr>en_throttled := en_throttled s + 1\<rparr>), THROTTLE)
      else if en_requestsInWindow s \<ge> effectiveRateCap surge
      then (alertSurge surge now (s\<lparr>en_throttled := en_throttled s + 1\<rparr>), THROTTLE)
      else if en_costInWindow s + sc_costPerRequest surge > sc_maxCostPerWindow surge
      then (alertSurge surge now (s\<lparr>en_degraded := en_degraded s + 1\<rparr>), DEGRADE)
      else (s, ALLOW))"

definition enter_half_open :: "int \<Rightarrow> cb_entry \<Rightarrow> cb_entry" where
  "enter_half_open now s = s\<lparr>en_state := SB_HALF_OPEN, en_lastStateChange := now, en_halfOpenSuccesses := 0,
     en_inFlight := 0, en_windowStart := now, en_requestsInWindow := 0, en_costInWindow := 0\<rparr>"

definition evaluateEntry :: "sb_config \<Rightarrow> sb_surge_config \<Rightarrow> int \<Rightarrow> cb_entry \<Rightarrow> cb_entry \<times> surge_decision" where
  "evaluateEntry config surge now entry =
     (let s = rollWindow surge now entry
      in case en_state s of
           SB_OPEN \<Rightarrow>
             (if now - nullish (en_lastFailureTime s) 0 \<ge> sbc_cooldownMs config
              then halfOpenDecision surge now (enter_half_open now s)
              else (s, DEGRADE))
         | SB_CLOSED \<Rightarrow> (s, ALLOW)
         | SB_HALF_OPEN \<Rightarrow> halfOpenDecision surge now s)"

definition evaluateSurge :: "int \<Rightarrow> string \<Rightarrow> source_breaker \<Rightarrow> source_breaker \<times> surge_status" where
  "evaluateSurge now source b =
     (let (s, decision) = evaluateEntry (sb_conf b) (sb_surge b) now (sb_getOrCreate now source b)
      in (sb_store source s b, buildSurgeStatus s decision))"

definition sb_isAllowed :: "int \<Rightarrow> string \<Rightarrow> source_breaker \<Rightarrow> source_breaker \<times> bool" where
  "sb_isAllowed now source b = (let (b', st) = evaluateSurge now source b in (b', ss_decision st = ALLOW))"

definition sb_acquire :: "int \<Rightarrow> string \<Rightarrow> source_breaker \<Rightarrow> source_breaker \<times> bool" where
  "sb_acquire now source b =
     (let (b', status) = evaluateSurge now source b
      in if ss_decision status \<noteq> ALLOW then (b', False)
         else let s = sb_getOrCreate now source b'
              in (sb_store source (s\<lparr>en_inFlight := en_inFlight s + 1,
                    en_requestsInWindow := en_requestsInWindow s + 1,
                    en_costInWindow := en_costInWindow s + sc_costPerRequest (sb_surge b')\<rparr>) b', True))"

definition sb_release :: "int \<Rightarrow> string \<Rightarrow> source_breaker \<Rightarrow> source_breaker" where
  "sb_release now source b =
     (let s = sb_getOrCreate now source b
      in sb_store source (if en_inFlight s > 0 then s\<lparr>en_inFlight := en_inFlight s - 1\<rparr> else s) b)"

definition sb_recordSuccess :: "int \<Rightarrow> string \<Rightarrow> source_breaker \<Rightarrow> source_breaker" where
  "sb_recordSuccess now source b =
     (let s = sb_getOrCreate now source b
      in sb_store source
           (case en_state s of
              SB_HALF_OPEN \<Rightarrow>
                (let s' = s\<lparr>en_halfOpenSuccesses := en_halfOpenSuccesses s + 1\<rparr>
                 in if en_halfOpenSuccesses s' \<ge> sbc_halfOpenSuccesses (sb_conf b)
                    then s'\<lparr>en_state := SB_CLOSED, en_failures := 0, en_lastStateChange := now\<rparr> else s')
            | SB_CLOSED \<Rightarrow> s\<lparr>en_failures := 0\<rparr>
            | SB_OPEN \<Rightarrow> s) b)"

definition sb_recordFailure :: "int \<Rightarrow> string \<Rightarrow> source_breaker \<Rightarrow> source_breaker" where
  "sb_recordFailure now source b =
     (let s0 = sb_getOrCreate now source b;
          s = s0\<lparr>en_failures := en_failures s0 + 1, en_lastFailureTime := Some now\<rparr>
      in sb_store source
           (if en_state s = SB_HALF_OPEN
               \<or> (en_state s = SB_CLOSED \<and> en_failures s \<ge> sbc_failureThreshold (sb_conf b))
            then s\<lparr>en_state := SB_OPEN, en_lastStateChange := now, en_totalTrips := en_totalTrips s + 1\<rparr>
            else s) b)"

definition sb_getStatus :: "int \<Rightarrow> string \<Rightarrow> source_breaker \<Rightarrow> source_breaker \<times> sb_status" where
  "sb_getStatus now source b =
     (let s = sb_getOrCreate now source b
      in (sb_store source s b,
          \<lparr>sbs_state = en_state s, sbs_failures = en_failures s, sbs_lastFailureTime = en_lastFailureTime s,
           sbs_lastStateChange = en_lastStateChange s, sbs_totalTrips = en_totalTrips s,
           sbs_surge = buildSurgeStatus s (if en_state s = SB_OPEN then DEGRADE else ALLOW)\<rparr>))"

definition sb_getAllStatuses :: "int \<Rightarrow> source_breaker \<Rightarrow> (string, sb_status) js_map" where
  "sb_getAllStatuses now b = map (\<lambda>source. (source, snd (sb_getStatus now source b))) (jm_keys (sb_states b))"

subsection \<open>Recovery limits\<close>

definition entry_ok :: "sb_surge_config \<Rightarrow> cb_entry \<Rightarrow> bool" where
  "entry_ok surge e \<longleftrightarrow> (en_state e = SB_HALF_OPEN \<longrightarrow>
     en_inFlight e \<le> sc_maxConcurrentHalfOpen surge \<and> en_requestsInWindow e \<le> effectiveRateCap surge
     \<and> en_costInWindow e \<le> sc_maxCostPerWindow surge)"

definition surge_valid :: "sb_surge_config \<Rightarrow> bool" where
  "surge_valid surge \<longleftrightarrow> 0 \<le> sc_maxCostPerWindow surge"

datatype sb_op = Allowed | Acquire | Release | Success | Failure | Status

fun sb_step :: "int \<Rightarrow> string \<Rightarrow> sb_op \<Rightarrow> source_breaker \<Rightarrow> source_breaker" where
  "sb_step now s Allowed b = fst (sb_isAllowed now s b)"
| "sb_step now s Acquire b = fst (sb_acquire now s b)"
| "sb_step now s Release b = sb_release now s b"
| "sb_step now s Success b = sb_recordSuccess now s b"
| "sb_step now s Failure b = sb_recordFailure now s b"
| "sb_step now s Status b = fst (sb_getStatus now s b)"

fun sb_run :: "(int \<times> string \<times> sb_op) list \<Rightarrow> source_breaker \<Rightarrow> source_breaker" where
  "sb_run [] b = b"
| "sb_run ((now, s, e) # es) b = sb_run es (sb_step now s e b)"

definition breaker_ok :: "source_breaker \<Rightarrow> bool" where
  "breaker_ok b \<longleftrightarrow> jm.all_stored (\<lambda>_. entry_ok (sb_surge b)) (sb_states b)"

lemmas sb_entry_defs = rollWindow_def alertSurge_def halfOpenDecision_def enter_half_open_def evaluateEntry_def

lemma sb_store_simps [simp]:
  "sb_conf (sb_store source e b) = sb_conf b" "sb_surge (sb_store source e b) = sb_surge b"
  "sb_getOrCreate now source (sb_store source e b) = e"
  by (simp_all add: sb_store_def sb_getOrCreate_def)

lemma breaker_ok_store: "breaker_ok b \<Longrightarrow> entry_ok (sb_surge b) e \<Longrightarrow> breaker_ok (sb_store source e b)"
  by (simp add: breaker_ok_def sb_store_def jm.all_stored_put)

lemma breaker_ok_entry: "breaker_ok b \<Longrightarrow> entry_ok (sb_surge b) (sb_getOrCreate now source b)"
  unfolding breaker_ok_def sb_getOrCreate_def
  by (cases "jm_get (sb_states b) source") (auto simp: entry_ok_def new_entry_def dest: jm.all_storedD)

lemma evaluateEntry_ok:
  assumes "surge_valid surge" "entry_ok surge e" "evaluateEntry config surge now e = (s, d)"
  shows "entry_ok surge s"
    "d = ALLOW \<Longrightarrow> en_state s = SB_HALF_OPEN \<Longrightarrow>
       en_inFlight s < sc_maxConcurrentHalfOpen surge \<and> en_requestsInWindow s < effectiveRateCap surge
       \<and> en_costInWindow s + sc_costPerRequest surge \<le> sc_maxCostPerWindow surge"
  using assms
  by (auto simp: sb_entry_defs entry_ok_def surge_valid_def Let_def split: sb_state.splits if_splits option.splits)

lemma sb_step_frame [simp]:
  "sb_conf (sb_step now s e b) = sb_conf b" "sb_surge (sb_step now s e b) = sb_surge b"
  by (cases e; auto simp: sb_isAllowed_def sb_acquire_def evaluateSurge_def sb_release_def sb_recordSuccess_def
      sb_recordFailure_def sb_getStatus_def Let_def split: prod.splits)+

lemma breaker_ok_step:
  assumes v: "surge_valid (sb_surge b)" and b: "breaker_ok b"
  shows "breaker_ok (sb_step now s e b)"
proof -
  let ?e = "sb_getOrCreate now s b"
  obtain en d where ev: "evaluateEntry (sb_conf b) (sb_surge b) now ?e = (en, d)"
    by force
  note ok = breaker_ok_entry [OF b, of now s]
  note en = evaluateEntry_ok [OF v ok ev]
  have st: "breaker_ok (sb_store s en b)"
    by (rule breaker_ok_store [OF b en(1)])
  show ?thesis
    by (cases e)
      (use ok en st in \<open>auto simp: sb_isAllowed_def sb_acquire_def evaluateSurge_def ev sb_release_def
        sb_recordSuccess_def sb_recordFailure_def sb_getStatus_def Let_def buildSurgeStatus_def
        intro!: breaker_ok_store [OF b] breaker_ok_store [OF st]
        simp: entry_ok_def split: sb_state.splits if_splits\<close>)
qed

lemma sb_run_ok: "surge_valid (sb_surge b) \<Longrightarrow> breaker_ok b \<Longrightarrow> breaker_ok (sb_run es b) \<and> sb_surge (sb_run es b) = sb_surge b"
  by (induction es arbitrary: b) (auto simp: breaker_ok_step)

abbreviation sample_sb_config :: sb_config where
  "sample_sb_config \<equiv> \<lparr>sbc_failureThreshold = 1, sbc_cooldownMs = 10, sbc_halfOpenSuccesses = 2, sbc_surge = None\<rparr>"

text \<open>Two requests start while CLOSED, one fails and trips the breaker, and two more start in recovery.\<close>

abbreviation sample_sb_ops :: "(int \<times> string \<times> sb_op) list" where
  "sample_sb_ops \<equiv> [(0, ''band'', Acquire), (0, ''band'', Acquire), (1, ''band'', Failure), (1, ''band'', Release),
     (11, ''band'', Acquire), (11, ''band'', Acquire)]"

lemma sample_sb_half_open:
  obtains e where "jm_get (sb_states (sb_run sample_sb_ops (newSourceCircuitBreaker sample_sb_config))) ''band'' = Some e"
    "en_state e = SB_HALF_OPEN"
proof -
  have "(case jm_get (sb_states (sb_run sample_sb_ops (newSourceCircuitBreaker sample_sb_config))) ''band'' of
      Some e \<Rightarrow> en_state e = SB_HALF_OPEN | None \<Rightarrow> False)"
    by code_simp
  then show ?thesis using that by (auto split: option.splits)
qed

lemma sample_sb_surge_valid:
  "surge_valid (sb_surge (sb_run sample_sb_ops (newSourceCircuitBreaker sample_sb_config)))"
  by code_simp

text \<open>
  The counter is of counted requests, not of outstanding ones: entering HALF_OPEN resets it to zero,
  so the release of a request that was acquired before the trip frees a recovery slot. Here both
  recovery slots are taken and neither of their requests is released, yet after the release of the
  second CLOSED-era request a third recovery request is admitted.
\<close>

lemma stale_release_frees_recovery_slot:
  "\<not> snd (sb_acquire 20000 ''band'' (sb_run sample_sb_ops (newSourceCircuitBreaker sample_sb_config)))
   \<and> snd (sb_acquire 20000 ''band'' (sb_run (sample_sb_ops @ [(12, ''band'', Release)]) (newSourceCircuitBreaker sample_sb_config)))"
  by code_simp



text \<open>
  An open source is sealed for the whole cooldown: a request is admitted only once the cooldown
  since the last failure has elapsed, and an admitted request leaves the source in HALF_OPEN with
  exactly that one request counted.
\<close>

theorem open_until_cooldown:
  assumes "jm_get (sb_states b) source = Some e" "en_state e = SB_OPEN" "en_lastFailureTime e = Some t"
    and "sb_acquire now source b = (b', ok)"
  shows "(ok \<longrightarrow> sbc_cooldownMs (sb_conf b) \<le> now - t
      \<and> (\<exists>e'. jm_get (sb_states b') source = Some e' \<and> en_state e' = SB_HALF_OPEN \<and> en_inFlight e' = 1
           \<and> en_requestsInWindow e' = 1 \<and> en_halfOpenSuccesses e' = 0))
    \<and> (now - t < sbc_cooldownMs (sb_conf b) \<longrightarrow> \<not> ok
      \<and> (\<exists>e'. jm_get (sb_states b') source = Some e' \<and> en_state e' = SB_OPEN))"
  using assms
  by (auto simp: sb_acquire_def evaluateSurge_def sb_getOrCreate_def sb_entry_defs sb_store_def
      buildSurgeStatus_def Let_def split: if_splits prod.splits option.splits)

abbreviation sample_open_breaker :: source_breaker where
  "sample_open_breaker \<equiv> \<lparr>sb_states = [(''band'', (new_entry 0)\<lparr>en_state := SB_OPEN, en_lastFailureTime := Some 1\<rparr>)],
     sb_conf = sample_sb_config, sb_surge = DEFAULT_SURGE\<rparr>"

theorem open_until_cooldown_witness:
  "\<not> snd (sb_acquire 5 ''band'' sample_open_breaker)"
proof -
  have "jm_get (sb_states sample_open_breaker) ''band'' = Some ((new_entry 0)\<lparr>en_state := SB_OPEN, en_lastFailureTime := Some 1\<rparr>)"
    by (simp add: jm_get_Cons)
  from open_until_cooldown [OF this _ _ surjective_pairing, of 1 5] show ?thesis
    by simp
qed

end
