(* ===== verification/Price_Crdt.thy ===== *)
theory Price_Crdt
  imports Js_Prelude "HOL-Library.Product_Lexorder" "HOL-Library.List_Lexorder" "HOL-Library.Char_ord"
begin

text \<open>
  Multi-region replication, \<open>services/aggregator/src/replication/price-crdt.ts\<close>: the router that
  chooses a serving region per feed, and the last-writer-wins register with publisher epochs.

  Times and epochs are integers; the clock is an argument. \<open>advanceEpoch\<close> awaits the persistence hook
  between reading the floor and writing the new epoch, so it is split there into two steps. The
  optional decision logger is a pure observer and is left out. \<open>mergeLocal\<close> and \<open>clearOwnership\<close>
  read the property \<open>this.ownership\<close>, which the class does not have.
\<close>

subsection \<open>Feed health router\<close>

record feed_signal =
  fs_region :: string
  fs_asset :: string
  fs_freshnessMs :: rat
  fs_integrity :: rat
  fs_regionPriority :: "rat option"

record feed_router_config =
  fr_maxFreshnessMs :: rat
  fr_minIntegrity :: rat

definition DEFAULT_ROUTER_CONFIG :: feed_router_config where
  "DEFAULT_ROUTER_CONFIG = \<lparr>fr_maxFreshnessMs = 30000, fr_minIntegrity = 1 / 2\<rparr>"

datatype route_reason = Selected | Failover | NoHealthyFeed

record route_decision =
  rd_asset :: string
  rd_selectedRegion :: "string option"
  rd_reason :: route_reason
  rd_candidates :: "feed_signal list"
  rd_decidedAt :: int

record feed_router =
  fr_config :: feed_router_config
  fr_decisions :: nat
  fr_failovers :: nat
  fr_lastSelected :: "(string, string) js_map"

definition newFeedHealthRouter :: "rat option \<Rightarrow> rat option \<Rightarrow> feed_router" where
  "newFeedHealthRouter maxFreshnessMs minIntegrity =
     \<lparr>fr_config = \<lparr>fr_maxFreshnessMs = nullish maxFreshnessMs (fr_maxFreshnessMs DEFAULT_ROUTER_CONFIG),
                   fr_minIntegrity = nullish minIntegrity (fr_minIntegrity DEFAULT_ROUTER_CONFIG)\<rparr>,
      fr_decisions = 0, fr_failovers = 0, fr_lastSelected = []\<rparr>"

definition fr_isHealthy :: "feed_router \<Rightarrow> feed_signal \<Rightarrow> bool" where
  "fr_isHealthy rt signal \<longleftrightarrow> fs_freshnessMs signal \<le> fr_maxFreshnessMs (fr_config rt)
     \<and> fs_integrity signal \<ge> fr_minIntegrity (fr_config rt)"

text \<open>Only the sign of a comparator matters to \<open>sort\<close>; the differences are given by their sign.\<close>

definition js_diff_sign :: "rat \<Rightarrow> rat \<Rightarrow> int" where
  "js_diff_sign x y = (if x < y then -1 else if y < x then 1 else 0)"

definition compareSignals :: "feed_signal \<Rightarrow> feed_signal \<Rightarrow> int" where
  "compareSignals a b =
     (if fs_freshnessMs a \<noteq> fs_freshnessMs b then js_diff_sign (fs_freshnessMs a) (fs_freshnessMs b)
      else if fs_integrity a \<noteq> fs_integrity b then js_diff_sign (fs_integrity b) (fs_integrity a)
      else let pa = nullish (fs_regionPriority a) 0; pb = nullish (fs_regionPriority b) 0
           in if pa \<noteq> pb then js_diff_sign pa pb
              else if fs_region a < fs_region b then -1 else if fs_region a > fs_region b then 1 else 0)"

definition fr_route :: "string \<Rightarrow> feed_signal list \<Rightarrow> int \<Rightarrow> feed_router \<Rightarrow> feed_router \<times> route_decision" where
  "fr_route asset signals now rt =
     (let candidates = filter (\<lambda>s. fs_asset s = asset) signals;
          healthy = filter (fr_isHealthy rt) candidates;
          (selectedRegion, reason, lastSelected) =
            (if healthy \<noteq> [] then
               let region = fs_region (hd (js_sort compareSignals healthy));
                   previous = jm_get (fr_lastSelected rt) asset
               in (Some region, if previous \<noteq> None \<and> previous \<noteq> Some region then Failover else Selected,
                   jm_set (fr_lastSelected rt) asset region)
             else (None, NoHealthyFeed, fr_lastSelected rt))
      in (rt\<lparr>fr_lastSelected := lastSelected, fr_decisions := fr_decisions rt + 1,
             fr_failovers := (if reason = Failover then fr_failovers rt + 1 else fr_failovers rt)\<rparr>,
          \<lparr>rd_asset = asset, rd_selectedRegion = selectedRegion, rd_reason = reason,
           rd_candidates = candidates, rd_decidedAt = now\<rparr>))"

definition fr_resetMetrics :: "feed_router \<Rightarrow> feed_router" where
  "fr_resetMetrics rt = rt\<lparr>fr_decisions := 0, fr_failovers := 0\<rparr>"

subsection \<open>Last-writer-wins register\<close>

datatype record_source = Local | Remote

record region_price_record =
  pr_region :: string
  pr_asset :: string
  pr_price :: int
  pr_decimals :: int
  pr_timestamp :: int
  pr_receivedAt :: int
  pr_source :: record_source
  pr_epoch :: int
  pr_traceparent :: "string option"
  pr_tracestate :: "string option"

record stale_epoch_rejection =
  se_region :: string
  se_asset :: string
  se_recordEpoch :: int
  se_currentEpoch :: int
  se_timestamp :: int

record lww_register =
  lww_values :: "(string, region_price_record) js_map"
  lww_epochs :: "(string, int) js_map"
  lww_localEpochs :: "(string, int) js_map"
  lww_rejectedStaleEpochs :: nat
  lww_lastRejection :: "stale_epoch_rejection option"

definition newLwwPriceRegister :: lww_register where
  "newLwwPriceRegister = \<lparr>lww_values = [], lww_epochs = [], lww_localEpochs = [],
     lww_rejectedStaleEpochs = 0, lww_lastRejection = None\<rparr>"

datatype merge_result = MergeFalse | MergeApplied | MergeTrue

definition lww_key :: "region_price_record \<Rightarrow> string" where
  "lww_key rec = pr_region rec @ '':'' @ pr_asset rec"

definition epochFor :: "string \<Rightarrow> lww_register \<Rightarrow> int" where
  "epochFor region r = nullish (jm_get (lww_epochs r) region) 0"

definition currentEpoch :: "string \<Rightarrow> lww_register \<Rightarrow> int" where
  "currentEpoch region r = max (nullish (jm_get (lww_localEpochs r) region) 0) (nullish (jm_get (lww_epochs r) region) 0)"

definition lww_merge :: "int \<Rightarrow> region_price_record \<Rightarrow> lww_register \<Rightarrow> lww_register \<times> merge_result" where
  "lww_merge now rec r0 =
     (let current_epoch = nullish (jm_get (lww_epochs r0) (pr_region rec)) 0
      in if pr_epoch rec < current_epoch
         then (r0\<lparr>lww_rejectedStaleEpochs := lww_rejectedStaleEpochs r0 + 1,
                  lww_lastRejection := Some \<lparr>se_region = pr_region rec, se_asset = pr_asset rec,
                    se_recordEpoch = pr_epoch rec, se_currentEpoch = current_epoch, se_timestamp = now\<rparr>\<rparr>, MergeFalse)
         else
           let r = (if pr_epoch rec > current_epoch
                    then r0\<lparr>lww_epochs := jm_set (lww_epochs r0) (pr_region rec) (pr_epoch rec)\<rparr> else r0);
               key = lww_key rec
           in if (case jm_get (lww_values r) key of None \<Rightarrow> True | Some current \<Rightarrow> pr_timestamp rec > pr_timestamp current)
              then (r\<lparr>lww_values := jm_set (lww_values r) key rec\<rparr>, MergeApplied)
              else (r, MergeTrue))"

datatype js_error = TypeError | ReferenceError

record local_price =
  lp_asset :: string
  lp_price :: string
  lp_decimals :: int
  lp_timestamp :: int

definition lww_mergeLocal :: "string \<Rightarrow> local_price list \<Rightarrow> int \<Rightarrow> lww_register \<Rightarrow> lww_register \<times> (js_error + unit)" where
  "lww_mergeLocal region prices now r = (if prices = [] then (r, Inr ()) else (r, Inl TypeError))"

definition advanceEpoch_next :: "string \<Rightarrow> int option \<Rightarrow> lww_register \<Rightarrow> int" where
  "advanceEpoch_next region proposed r =
     (let floor = currentEpoch region r
      in case proposed of Some p \<Rightarrow> max p (floor + 1) | None \<Rightarrow> floor + 1)"

definition advanceEpoch_commit :: "string \<Rightarrow> int \<Rightarrow> lww_register \<Rightarrow> lww_register" where
  "advanceEpoch_commit region next r =
     r\<lparr>lww_localEpochs := jm_set (lww_localEpochs r) region next, lww_epochs := jm_set (lww_epochs r) region next\<rparr>"

definition advanceEpoch :: "string \<Rightarrow> int option \<Rightarrow> lww_register \<Rightarrow> lww_register \<times> int" where
  "advanceEpoch region proposed r =
     (let next = advanceEpoch_next region proposed r in (advanceEpoch_commit region next r, next))"

definition restoreEpoch :: "string \<Rightarrow> int \<Rightarrow> lww_register \<Rightarrow> lww_register" where
  "restoreEpoch region persisted r =
     (if persisted > currentEpoch region r then advanceEpoch_commit region persisted r else r)"

fun reduce_latest :: "region_price_record \<Rightarrow> region_price_record list \<Rightarrow> region_price_record" where
  "reduce_latest winner [] = winner"
| "reduce_latest winner (rec # recs) = reduce_latest (if pr_timestamp rec > pr_timestamp winner then rec else winner) recs"

definition lww_byAsset :: "string \<Rightarrow> lww_register \<Rightarrow> region_price_record list" where
  "lww_byAsset asset r = filter (\<lambda>rec. pr_asset rec = asset) (jm_values (lww_values r))"

definition lww_byRegion :: "string \<Rightarrow> lww_register \<Rightarrow> region_price_record list" where
  "lww_byRegion region r = filter (\<lambda>rec. pr_region rec = region) (jm_values (lww_values r))"

definition lww_latest :: "string \<Rightarrow> lww_register \<Rightarrow> region_price_record option" where
  "lww_latest asset r =
     (case lww_byAsset asset r of [] \<Rightarrow> None | c # cs \<Rightarrow> Some (reduce_latest c cs))"

definition lww_latestAll :: "lww_register \<Rightarrow> region_price_record list" where
  "lww_latestAll r =
     List.map_filter (\<lambda>a. lww_latest a r) (rev (remdups (rev (map pr_asset (jm_values (lww_values r))))))"

definition lww_clear :: "lww_register \<Rightarrow> lww_register" where
  "lww_clear r = r\<lparr>lww_values := []\<rparr>"

definition lww_clearOwnership :: "lww_register \<Rightarrow> lww_register \<times> (js_error + unit)" where
  "lww_clearOwnership r = (r, Inl TypeError)"

subsection \<open>Routing is a function of the set of signals\<close>

definition signal_rank :: "feed_signal \<Rightarrow> rat \<times> rat \<times> rat \<times> string" where
  "signal_rank s = (fs_freshnessMs s, - fs_integrity s, nullish (fs_regionPriority s) 0, fs_region s)"

lemma compareSignals_rank: "cmp_by signal_rank compareSignals"
  by (auto simp: cmp_by_def compareSignals_def signal_rank_def js_diff_sign_def Let_def)

lemma hd_sort_Min: "xs \<noteq> [] \<Longrightarrow> hd (sort xs) = Min (set xs)"
proof -
  assume "xs \<noteq> []"
  then obtain y ys where s: "sort xs = y # ys" by (metis list.exhaust set_empty set_sort)
  have "sorted (y # ys)" using s by (metis sorted_sort)
  then have "Min (set (y # ys)) = y" by (intro Min_eqI) auto
  then show ?thesis using s by (metis list.sel(1) set_sort)
qed

abbreviation healthy_feeds :: "feed_router \<Rightarrow> string \<Rightarrow> feed_signal list \<Rightarrow> feed_signal list" where
  "healthy_feeds rt asset signals \<equiv> filter (fr_isHealthy rt) (filter (\<lambda>s. fs_asset s = asset) signals)"

lemma first_ranked:
  assumes "healthy \<noteq> []"
  shows "signal_rank (hd (js_sort compareSignals healthy)) = Min (signal_rank ` set healthy)"
    "hd (js_sort compareSignals healthy) \<in> set healthy"
proof -
  have ne: "js_sort compareSignals healthy \<noteq> []"
    using assms by (metis length_0_conv length_js_sort)
  then have "signal_rank (hd (js_sort compareSignals healthy)) = hd (map signal_rank (js_sort compareSignals healthy))"
    by (simp add: hd_map)
  then show "signal_rank (hd (js_sort compareSignals healthy)) = Min (signal_rank ` set healthy)"
    using assms by (simp add: map_js_sort [OF compareSignals_rank] hd_sort_Min)
  show "hd (js_sort compareSignals healthy) \<in> set healthy"
    using ne hd_in_set [of "js_sort compareSignals healthy"] by simp
qed

lemma fr_route_selected:
  "rd_selectedRegion (snd (fr_route asset signals now rt)) =
     (if healthy_feeds rt asset signals = [] then None
      else Some (fs_region (hd (js_sort compareSignals (healthy_feeds rt asset signals)))))"
  by (simp add: fr_route_def Let_def del: filter_filter)

text \<open>
  The router serves an asset from a healthy feed exactly when one exists, the feed it picks is
  minimal in the documented order (fresher, then higher integrity, then lower priority value, then
  region name), and the choice depends only on the set of signals, not on their order or repetition.
\<close>

theorem route_best_and_deterministic:
  shows "(rd_selectedRegion (snd (fr_route asset signals now rt)) = None \<longleftrightarrow> healthy_feeds rt asset signals = [])
    \<and> (\<forall>region. rd_selectedRegion (snd (fr_route asset signals now rt)) = Some region \<longrightarrow>
        (\<exists>s \<in> set (healthy_feeds rt asset signals). fs_region s = region
           \<and> (\<forall>s' \<in> set (healthy_feeds rt asset signals). signal_rank s \<le> signal_rank s')))
    \<and> (\<forall>signals'. set signals' = set signals \<longrightarrow>
        rd_selectedRegion (snd (fr_route asset signals' now rt)) = rd_selectedRegion (snd (fr_route asset signals now rt)))"
proof (intro conjI allI impI)
  let ?h = "healthy_feeds rt asset signals"
  show "rd_selectedRegion (snd (fr_route asset signals now rt)) = None \<longleftrightarrow> ?h = []"
    by (simp add: fr_route_selected del: filter_filter)
  show "\<exists>s \<in> set ?h. fs_region s = region \<and> (\<forall>s' \<in> set ?h. signal_rank s \<le> signal_rank s')"
    if "rd_selectedRegion (snd (fr_route asset signals now rt)) = Some region" for region
    using that first_ranked [of ?h]
    by (intro bexI [of _ "hd (js_sort compareSignals ?h)"])
      (auto simp: fr_route_selected simp del: filter_filter split: if_splits)
  show "rd_selectedRegion (snd (fr_route asset signals' now rt)) = rd_selectedRegion (snd (fr_route asset signals now rt))"
    if "set signals' = set signals" for signals'
  proof -
    let ?h' = "healthy_feeds rt asset signals'"
    have eq: "set ?h' = set ?h" using that by simp
    then have ne: "?h' = [] \<longleftrightarrow> ?h = []" by (metis set_empty)
    show ?thesis
    proof (cases "?h = []")
      case False
      then have "signal_rank (hd (js_sort compareSignals ?h')) = signal_rank (hd (js_sort compareSignals ?h))"
        using first_ranked(1) [of ?h] first_ranked(1) [of ?h'] ne eq by simp
      then show ?thesis using False ne by (simp add: fr_route_selected signal_rank_def del: filter_filter)
    qed (use ne in \<open>simp add: fr_route_selected del: filter_filter\<close>)
  qed
qed

abbreviation sample_signals :: "feed_signal list" where
  "sample_signals \<equiv> [\<lparr>fs_region = ''eu'', fs_asset = ''XLM'', fs_freshnessMs = 900, fs_integrity = 1, fs_regionPriority = None\<rparr>,
     \<lparr>fs_region = ''us'', fs_asset = ''XLM'', fs_freshnessMs = 900, fs_integrity = 1, fs_regionPriority = Some (-1)\<rparr>,
     \<lparr>fs_region = ''ap'', fs_asset = ''XLM'', fs_freshnessMs = 1, fs_integrity = 1 / 4, fs_regionPriority = None\<rparr>]"

theorem route_best_and_deterministic_witness:
  "rd_selectedRegion (snd (fr_route ''XLM'' (rev sample_signals) 0 (newFeedHealthRouter None None))) = Some ''us''"
proof -
  have "rd_selectedRegion (snd (fr_route ''XLM'' sample_signals 0 (newFeedHealthRouter None None))) = Some ''us''"
    by code_simp
  then show ?thesis
    using route_best_and_deterministic [of "''XLM''" sample_signals 0 "newFeedHealthRouter None None"]
    by (metis set_rev)
qed

subsection \<open>Convergence of the register\<close>

fun mergeAll :: "(int \<times> region_price_record) list \<Rightarrow> lww_register \<Rightarrow> lww_register" where
  "mergeAll [] r = r"
| "mergeAll ((now, rec) # recs) r = mergeAll recs (fst (lww_merge now rec r))"

definition lww_pick :: "region_price_record \<Rightarrow> region_price_record option \<Rightarrow> region_price_record option" where
  "lww_pick rec cur = (case cur of None \<Rightarrow> Some rec
     | Some c \<Rightarrow> Some (if pr_timestamp rec > pr_timestamp c then rec else c))"

text \<open>All records of a region carry one publisher epoch: no failover happens during the exchange.\<close>

definition one_epoch :: "(string \<Rightarrow> int) \<Rightarrow> region_price_record set \<Rightarrow> bool" where
  "one_epoch ep recs \<longleftrightarrow> (\<forall>rec \<in> recs. pr_epoch rec = ep (pr_region rec) \<and> 0 \<le> pr_epoch rec)"

lemma lww_merge_accepted:
  assumes "epochFor (pr_region rec) r \<le> pr_epoch rec"
  shows "jm_get (lww_values (fst (lww_merge now rec r))) k =
      (if k = lww_key rec then lww_pick rec (jm_get (lww_values r) k) else jm_get (lww_values r) k)"
    "epochFor region (fst (lww_merge now rec r)) =
      (if region = pr_region rec then pr_epoch rec else epochFor region r)"
  using assms
  by (auto simp: lww_merge_def Let_def epochFor_def lww_pick_def jm_get_set split: option.splits)

lemma mergeAll_values:
  assumes "one_epoch ep (snd ` set recs)" "\<forall>region. epochFor region r \<in> {0, ep region}"
  shows "jm_get (lww_values (mergeAll recs r)) k =
     fold lww_pick (filter (\<lambda>rec. lww_key rec = k) (map snd recs)) (jm_get (lww_values r) k)"
  using assms
proof (induction recs arbitrary: r)
  case (Cons p recs)
  obtain now rec where p: "p = (now, rec)" by force
  have e: "pr_epoch rec = ep (pr_region rec)" "0 \<le> pr_epoch rec" "one_epoch ep (snd ` set recs)"
    using Cons.prems(1) by (auto simp: p one_epoch_def)
  then have a: "epochFor (pr_region rec) r \<le> pr_epoch rec"
    using Cons.prems(2) by (metis empty_iff insert_iff order_refl)
  have "\<forall>region. epochFor region (fst (lww_merge now rec r)) \<in> {0, ep region}"
    using Cons.prems(2) e(1) by (simp add: lww_merge_accepted(2) [OF a])
  from Cons.IH [OF e(3) this] show ?case
    by (auto simp: p lww_merge_accepted(1) [OF a])
qed simp

lemma fold_lww_pick:
  "fold lww_pick recs cur = w \<Longrightarrow>
     (w = None \<longleftrightarrow> recs = [] \<and> cur = None) \<and>
     (\<forall>v. w = Some v \<longrightarrow> (v \<in> set recs \<or> cur = Some v)
        \<and> (\<forall>rec \<in> set recs. pr_timestamp rec \<le> pr_timestamp v)
        \<and> (\<forall>c. cur = Some c \<longrightarrow> pr_timestamp c \<le> pr_timestamp v))"
proof (induction recs arbitrary: cur)
  case (Cons rec recs)
  from Cons.IH [of "lww_pick rec cur"] Cons.prems show ?case
    by (cases cur) (auto simp: lww_pick_def split: if_splits)
qed auto


abbreviation sample_record :: "string \<Rightarrow> int \<Rightarrow> int \<Rightarrow> int \<Rightarrow> region_price_record" where
  "sample_record region price t ep \<equiv> \<lparr>pr_region = region, pr_asset = ''XLM'', pr_price = price, pr_decimals = 7,
     pr_timestamp = t, pr_receivedAt = 0, pr_source = Remote, pr_epoch = ep, pr_traceparent = None, pr_tracestate = None\<rparr>"


text \<open>
  Without distinct timestamps the register does not converge: on a tie the record that arrived first
  stays, so two replicas that saw the two records in opposite orders keep different prices.
\<close>

lemma lww_tie_diverges:
  "map_option pr_price (lww_latest ''XLM'' (mergeAll [(0, sample_record ''eu'' 1 10 0), (0, sample_record ''eu'' 2 10 0)] newLwwPriceRegister)) = Some 1
   \<and> map_option pr_price (lww_latest ''XLM'' (mergeAll [(0, sample_record ''eu'' 2 10 0), (0, sample_record ''eu'' 1 10 0)] newLwwPriceRegister)) = Some 2"
  by code_simp

subsection \<open>Publisher epochs\<close>

datatype lww_op = Merge region_price_record | MergeLocal string "local_price list" | Advance string "int option"
  | Restore string int | ClearValues

fun lww_step :: "int \<Rightarrow> lww_op \<Rightarrow> lww_register \<Rightarrow> lww_register" where
  "lww_step now (Merge rec) r = fst (lww_merge now rec r)"
| "lww_step now (MergeLocal region prices) r = fst (lww_mergeLocal region prices now r)"
| "lww_step now (Advance region proposed) r = fst (advanceEpoch region proposed r)"
| "lww_step now (Restore region persisted) r = restoreEpoch region persisted r"
| "lww_step now ClearValues r = lww_clear r"

fun lww_run :: "(int \<times> lww_op) list \<Rightarrow> lww_register \<Rightarrow> lww_register" where
  "lww_run [] r = r"
| "lww_run ((now, e) # es) r = lww_run es (lww_step now e r)"

lemma epochFor_step: "epochFor region r \<le> epochFor region (lww_step now e r)"
  by (cases e)
    (auto simp: lww_merge_def lww_mergeLocal_def advanceEpoch_def advanceEpoch_next_def advanceEpoch_commit_def
      restoreEpoch_def lww_clear_def epochFor_def currentEpoch_def Let_def jm_get_set split: option.splits)

lemma epochFor_run: "epochFor region r \<le> epochFor region (lww_run es r)"
proof (induction es arbitrary: r)
  case (Cons e es)
  show ?case by (cases e) (auto intro: order_trans [OF epochFor_step Cons.IH])
qed simp



text \<open>
  The write after the awaited persistence hook does not re-read the floor, so a merge that arrives
  during the await can be undone: the epoch of the region goes down from 9 to 3, and a record with
  the superseded epoch 4 is accepted again.
\<close>

lemma interleaved_advance_lowers_epoch:
  "let r = fst (lww_merge 0 (sample_record ''eu'' 1 10 2) newLwwPriceRegister);
       next = advanceEpoch_next ''eu'' None r;
       r1 = fst (lww_merge 1 (sample_record ''eu'' 2 20 9) r);
       r2 = advanceEpoch_commit ''eu'' next r1
   in epochFor ''eu'' r1 = 9 \<and> epochFor ''eu'' r2 = 3
      \<and> snd (lww_merge 2 (sample_record ''eu'' 3 30 4) r1) = MergeFalse
      \<and> snd (lww_merge 2 (sample_record ''eu'' 3 30 4) r2) = MergeApplied"
  by code_simp

end
