(* ===== verification/Feed_Ownership.thy ===== *)
theory Feed_Ownership
  imports Price_Crdt
begin

text \<open>
  Feed ownership, publisher authority and the region replicator,
  \<open>services/aggregator/src/replication/region-price-replicator.ts\<close>.

  The registry object is shared by the authority, so it is passed beside it. The local region
  \<open>config.region.id\<close> is the argument \<open>regionId\<close>. The replicator class declares two constructors; its
  state here is that of the first. \<open>getReplicationLagReport\<close> and the trace headers are not modelled.
\<close>

subsection \<open>Ownership registry\<close>

record feed_ownership =
  fo_feed :: string
  fo_primaryRegion :: string
  fo_failoverRegion :: string
  fo_activeRegion :: string
  fo_epoch :: int

record feed_ownership_config =
  foc_feed :: string
  foc_primaryRegion :: string
  foc_failoverRegion :: string

datatype ownership_error = DuplicateFeed | SameRegions | NotAConfiguredOwner

type_synonym ownership_registry = "(string, feed_ownership) js_map"

fun registry_add :: "int \<Rightarrow> feed_ownership_config list \<Rightarrow> ownership_registry \<Rightarrow> ownership_error + ownership_registry" where
  "registry_add initialEpoch [] feeds = Inr feeds"
| "registry_add initialEpoch (entry # entries) feeds =
     (if jm_has feeds (foc_feed entry) then Inl DuplicateFeed
      else if foc_primaryRegion entry = foc_failoverRegion entry then Inl SameRegions
      else registry_add initialEpoch entries (jm_set feeds (foc_feed entry)
        \<lparr>fo_feed = foc_feed entry, fo_primaryRegion = foc_primaryRegion entry,
         fo_failoverRegion = foc_failoverRegion entry, fo_activeRegion = foc_primaryRegion entry,
         fo_epoch = initialEpoch\<rparr>))"

definition newFeedOwnershipRegistry :: "feed_ownership_config list \<Rightarrow> int \<Rightarrow> ownership_error + ownership_registry" where
  "newFeedOwnershipRegistry entries initialEpoch = registry_add initialEpoch entries []"

definition fo_isOwner :: "string \<Rightarrow> string \<Rightarrow> ownership_registry \<Rightarrow> bool" where
  "fo_isOwner feed region feeds = (map_option fo_activeRegion (jm_get feeds feed) = Some region)"

definition failoverTarget :: "string \<Rightarrow> ownership_registry \<Rightarrow> string option" where
  "failoverTarget feed feeds =
     (case jm_get feeds feed of
        None \<Rightarrow> None
      | Some ow \<Rightarrow> Some (if fo_activeRegion ow = fo_primaryRegion ow then fo_failoverRegion ow else fo_primaryRegion ow))"

definition fo_transfer ::
  "string \<Rightarrow> string \<Rightarrow> ownership_registry \<Rightarrow> ownership_registry \<times> (ownership_error + feed_ownership option)" where
  "fo_transfer feed region feeds =
     (case jm_get feeds feed of
        None \<Rightarrow> (feeds, Inr None)
      | Some ow \<Rightarrow>
          if region \<noteq> fo_primaryRegion ow \<and> region \<noteq> fo_failoverRegion ow then (feeds, Inl NotAConfiguredOwner)
          else if fo_activeRegion ow = region then (feeds, Inr (Some ow))
          else let ow' = ow\<lparr>fo_activeRegion := region, fo_epoch := fo_epoch ow + 1\<rparr>
               in (jm_set feeds feed ow', Inr (Some ow')))"

subsection \<open>Publisher authority\<close>

datatype deny_reason = UnknownFeed | NotOwner | StaleEpoch

record publish_decision =
  pd_allowed :: bool
  pd_epoch :: int
  pd_reason :: "deny_reason option"

record publisher_authority =
  pa_observedEpochs :: "(string, int) js_map"
  pa_region :: string

definition newPublisherAuthority :: "string \<Rightarrow> publisher_authority" where
  "newPublisherAuthority region = \<lparr>pa_observedEpochs = [], pa_region = region\<rparr>"

definition pa_currentEpoch :: "string \<Rightarrow> publisher_authority \<Rightarrow> int" where
  "pa_currentEpoch feed a = nullish (jm_get (pa_observedEpochs a) feed) 0"

definition pa_observeEpoch :: "string \<Rightarrow> int \<Rightarrow> publisher_authority \<Rightarrow> publisher_authority \<times> bool" where
  "pa_observeEpoch feed epoch a =
     (let current = pa_currentEpoch feed a
      in if epoch < current then (a, False)
         else if epoch > current then (a\<lparr>pa_observedEpochs := jm_set (pa_observedEpochs a) feed epoch\<rparr>, True)
         else (a, True))"

definition pa_authorize :: "string \<Rightarrow> int option \<Rightarrow> ownership_registry \<Rightarrow> publisher_authority \<Rightarrow> publish_decision" where
  "pa_authorize feed epoch feeds a =
     (case jm_get feeds feed of
        None \<Rightarrow> \<lparr>pd_allowed = False, pd_epoch = pa_currentEpoch feed a, pd_reason = Some UnknownFeed\<rparr>
      | Some ow \<Rightarrow>
          let effectiveEpoch = nullish epoch (fo_epoch ow); observed = pa_currentEpoch feed a
          in if effectiveEpoch < observed \<or> effectiveEpoch < fo_epoch ow
             then \<lparr>pd_allowed = False, pd_epoch = observed, pd_reason = Some StaleEpoch\<rparr>
             else if fo_activeRegion ow \<noteq> pa_region a
             then \<lparr>pd_allowed = False, pd_epoch = effectiveEpoch, pd_reason = Some NotOwner\<rparr>
             else \<lparr>pd_allowed = True, pd_epoch = effectiveEpoch, pd_reason = None\<rparr>)"

subsection \<open>Region replicator\<close>

record replicator_rejection =
  rr_region :: string
  rr_asset :: string
  rr_recordEpoch :: int
  rr_lastSeenEpoch :: int

record region_replicator =
  rp_register :: lww_register
  rp_epoch :: int
  rp_lastSeenEpochByRegion :: "(string, int) js_map"
  rp_staleEpochRejections :: "replicator_rejection list"

definition newRegionPriceReplicator :: "int \<Rightarrow> region_replicator" where
  "newRegionPriceReplicator initialEpoch =
     \<lparr>rp_register = newLwwPriceRegister, rp_epoch = initialEpoch, rp_lastSeenEpochByRegion = [], rp_staleEpochRejections = []\<rparr>"

definition advanceEpochOnLeaderElection :: "int option \<Rightarrow> region_replicator \<Rightarrow> region_replicator \<times> int" where
  "advanceEpochOnLeaderElection nextEpoch rp =
     (let candidate = nullish nextEpoch (rp_epoch rp + 1);
          rp' = (if candidate > rp_epoch rp then rp\<lparr>rp_epoch := candidate\<rparr> else rp)
      in (rp', rp_epoch rp'))"

definition mergeRemotePrice :: "int \<Rightarrow> region_price_record \<Rightarrow> region_replicator \<Rightarrow> region_replicator \<times> bool" where
  "mergeRemotePrice now rec rp =
     (let lastSeen = jm_get (rp_lastSeenEpochByRegion rp) (pr_region rec)
      in if (case lastSeen of None \<Rightarrow> False | Some l \<Rightarrow> pr_epoch rec < l)
         then (rp\<lparr>rp_staleEpochRejections := rp_staleEpochRejections rp @
                 [\<lparr>rr_region = pr_region rec, rr_asset = pr_asset rec, rr_recordEpoch = pr_epoch rec,
                   rr_lastSeenEpoch = nullish lastSeen 0\<rparr>]\<rparr>, False)
         else
           let rp' = (if (case lastSeen of None \<Rightarrow> True | Some l \<Rightarrow> pr_epoch rec > l)
                      then rp\<lparr>rp_lastSeenEpochByRegion := jm_set (rp_lastSeenEpochByRegion rp) (pr_region rec) (pr_epoch rec)\<rparr>
                      else rp)
           in (rp'\<lparr>rp_register := fst (lww_merge now (rec\<lparr>pr_receivedAt := now, pr_source := Remote\<rparr>) (rp_register rp'))\<rparr>, True))"

definition getLocalPrices :: "string \<Rightarrow> region_replicator \<Rightarrow> region_price_record list" where
  "getLocalPrices regionId rp = filter (\<lambda>rec. pr_source rec = Local) (lww_byRegion regionId (rp_register rp))"

record drift_report =
  dr_maxDriftPercent :: rat
  dr_maxStalenessMs :: int
  dr_asset :: "string option"
  dr_regions :: "string list"
  dr_regionCount :: nat
  dr_peerCount :: nat
  dr_hasPeers :: bool
  dr_driftKnown :: bool

definition drift_median :: "region_price_record list \<Rightarrow> rat" where
  "drift_median records =
     (let values = sort (map (\<lambda>rec. of_int (pr_price rec)) records) in values ! (length values div 2))"

definition drift_value :: "rat \<Rightarrow> rat \<Rightarrow> rat" where
  "drift_value median value = \<bar>value - median\<bar> / median * 100"

text \<open>The loop over one asset: the running maximum, the asset it came from, and the comparable count.\<close>

fun drift_values :: "string \<Rightarrow> rat \<Rightarrow> rat list \<Rightarrow> rat \<times> string option \<Rightarrow> rat \<times> string option" where
  "drift_values assetName median [] (m, a) = (m, a)"
| "drift_values assetName median (v # vs) (m, a) =
     drift_values assetName median vs
       (if drift_value median v > m then (drift_value median v, Some assetName) else (m, a))"

fun drift_assets :: "lww_register \<Rightarrow> string list \<Rightarrow> (rat \<times> string option) \<times> nat \<Rightarrow> (rat \<times> string option) \<times> nat" where
  "drift_assets r [] acc = acc"
| "drift_assets r (assetName # assets) (ma, comparable) =
     (let records = lww_byAsset assetName r
      in drift_assets r assets
           (if length records < 2 \<or> drift_median records = 0 then (ma, comparable)
            else (drift_values assetName (drift_median records)
                    (sort (map (\<lambda>rec. of_int (pr_price rec)) records)) ma, comparable + 1)))"

definition getDriftReport :: "string \<Rightarrow> int \<Rightarrow> region_replicator \<Rightarrow> drift_report" where
  "getDriftReport regionId now rp =
     (let r = rp_register rp;
          assets = rev (remdups (rev (map pr_asset (lww_latestAll r))));
          records = concat (map (\<lambda>a. lww_byAsset a r) assets);
          regions = remdups (map pr_region records);
          maxStalenessMs = fold (\<lambda>rec m. max m (now - pr_receivedAt rec)) records 0;
          ((maxDriftPercent, asset), comparableAssets) = drift_assets r assets ((0, None), 0);
          regionCount = length regions;
          peerCount = (if regionId \<in> set regions then regionCount - 1 else regionCount)
      in \<lparr>dr_maxDriftPercent = maxDriftPercent, dr_maxStalenessMs = maxStalenessMs, dr_asset = asset,
          dr_regions = sort regions, dr_regionCount = regionCount, dr_peerCount = peerCount,
          dr_hasPeers = (peerCount > 0), dr_driftKnown = (comparableAssets > 0)\<rparr>)"

subsection \<open>A single authorised publisher\<close>

definition ownership_ok :: "string \<Rightarrow> feed_ownership \<Rightarrow> bool" where
  "ownership_ok feed ow \<longleftrightarrow> fo_feed ow = feed \<and> fo_primaryRegion ow \<noteq> fo_failoverRegion ow
     \<and> fo_activeRegion ow \<in> {fo_primaryRegion ow, fo_failoverRegion ow}"

fun transfers :: "(string \<times> string) list \<Rightarrow> ownership_registry \<Rightarrow> ownership_registry" where
  "transfers [] feeds = feeds"
| "transfers ((feed, region) # ts) feeds = transfers ts (fst (fo_transfer feed region feeds))"

lemma registry_add_ok:
  "registry_add e entries feeds = Inr feeds' \<Longrightarrow> jm.all_stored ownership_ok feeds \<Longrightarrow> jm.all_stored ownership_ok feeds'"
proof (induction entries arbitrary: feeds)
  case (Cons entry entries)
  have "jm.all_stored ownership_ok (jm_set feeds (foc_feed entry)
      \<lparr>fo_feed = foc_feed entry, fo_primaryRegion = foc_primaryRegion entry,
       fo_failoverRegion = foc_failoverRegion entry, fo_activeRegion = foc_primaryRegion entry, fo_epoch = e\<rparr>)"
    if "foc_primaryRegion entry \<noteq> foc_failoverRegion entry"
    by (intro jm.all_stored_put Cons.prems(2)) (simp add: ownership_ok_def that)
  then show ?case using Cons.prems(1) Cons.IH by (auto split: if_splits)
qed simp

lemma fo_transfer_ok: "jm.all_stored ownership_ok feeds \<Longrightarrow> jm.all_stored ownership_ok (fst (fo_transfer feed region feeds))"
  by (auto simp: fo_transfer_def Let_def split: option.splits intro!: jm.all_stored_put dest: jm.all_storedD)
    (auto simp: ownership_ok_def dest!: jm.all_storedD)

lemma transfers_ok: "jm.all_stored ownership_ok feeds \<Longrightarrow> jm.all_stored ownership_ok (transfers ts feeds)"
  by (induction ts arbitrary: feeds) (auto simp: fo_transfer_ok)

lemma fo_transfer_epoch:
  "jm_get feeds feed = Some ow \<Longrightarrow> \<exists>ow'. jm_get (fst (fo_transfer f region feeds)) feed = Some ow' \<and>
     fo_epoch ow \<le> fo_epoch ow' \<and> (fo_activeRegion ow' \<noteq> fo_activeRegion ow \<longrightarrow> fo_epoch ow < fo_epoch ow')"
  by (auto simp: fo_transfer_def Let_def jm_get_set split: option.splits)

lemma transfers_epoch:
  "jm_get feeds feed = Some ow \<Longrightarrow> \<exists>ow'. jm_get (transfers ts feeds) feed = Some ow' \<and> fo_epoch ow \<le> fo_epoch ow'
     \<and> (fo_activeRegion ow' \<noteq> fo_activeRegion ow \<longrightarrow> fo_epoch ow < fo_epoch ow')"
proof (induction ts arbitrary: feeds ow)
  case (Cons t ts)
  obtain f region where t: "t = (f, region)" by force
  obtain ow1 where ow1: "jm_get (fst (fo_transfer f region feeds)) feed = Some ow1" "fo_epoch ow \<le> fo_epoch ow1"
    "fo_activeRegion ow1 \<noteq> fo_activeRegion ow \<longrightarrow> fo_epoch ow < fo_epoch ow1"
    using fo_transfer_epoch [OF Cons.prems, of f region] by blast
  from Cons.IH [OF ow1(1)] ow1(2,3) show ?case
    by (cases "fo_activeRegion ow1 = fo_activeRegion ow") (auto simp: t)
qed simp

text \<open>
  (C12) At any moment at most one region may publish a feed: after any transfers on a registry built
  from configuration, an allowed publisher is the active region of the feed, which is its primary or
  its failover region, and it publishes with an epoch that no other allowed publisher undercuts. A
  region that lost the feed in a transfer is denied with every epoch it held before.
\<close>

theorem single_authorized_publisher:
  assumes "newFeedOwnershipRegistry entries initialEpoch = Inr feeds0" "feeds = transfers ts feeds0"
    and "pd_allowed (pa_authorize feed epoch feeds a)"
  shows "\<exists>ow. jm_get feeds feed = Some ow \<and> pa_region a = fo_activeRegion ow
      \<and> fo_activeRegion ow \<in> {fo_primaryRegion ow, fo_failoverRegion ow}
      \<and> fo_epoch ow \<le> pd_epoch (pa_authorize feed epoch feeds a)
      \<and> pa_currentEpoch feed a \<le> pd_epoch (pa_authorize feed epoch feeds a)
      \<and> (\<forall>b epoch'. pd_allowed (pa_authorize feed epoch' feeds b) \<longrightarrow> pa_region b = pa_region a)
      \<and> (\<forall>ts' b. fo_activeRegion (the (jm_get (transfers ts' feeds) feed)) \<noteq> pa_region a \<longrightarrow>
           \<not> pd_allowed (pa_authorize feed (Some (fo_epoch ow)) (transfers ts' feeds) b))"
proof -
  have "jm.all_stored ownership_ok feeds"
    using assms(1,2) registry_add_ok [of initialEpoch entries "[]" feeds0]
    by (simp add: newFeedOwnershipRegistry_def transfers_ok)
  then have ok: "ownership_ok feed ow" if "jm_get feeds feed = Some ow" for ow
    using that by (rule jm.all_storedD)
  obtain ow where ow: "jm_get feeds feed = Some ow"
    using assms(3) by (cases "jm_get feeds feed") (auto simp: pa_authorize_def)
  have late: "\<not> pd_allowed (pa_authorize feed (Some (fo_epoch ow)) (transfers ts' feeds) b)"
    if "fo_activeRegion (the (jm_get (transfers ts' feeds) feed)) \<noteq> fo_activeRegion ow" for ts' b
    using transfers_epoch [OF ow, of ts'] that by (auto simp: pa_authorize_def Let_def)
  show ?thesis
    using ow ok [OF ow] assms(3) late
    by (auto simp: pa_authorize_def Let_def ownership_ok_def split: if_splits)
qed

theorem single_authorized_publisher_witness:
  "\<exists>feeds. newFeedOwnershipRegistry [\<lparr>foc_feed = ''XLM'', foc_primaryRegion = ''eu'', foc_failoverRegion = ''us''\<rparr>] 1 = Inr feeds
     \<and> pd_allowed (pa_authorize ''XLM'' None (transfers [(''XLM'', ''us'')] feeds) (newPublisherAuthority ''us''))
     \<and> \<not> pd_allowed (pa_authorize ''XLM'' None (transfers [(''XLM'', ''us'')] feeds) (newPublisherAuthority ''eu''))"
proof -
  let ?feeds = "[(''XLM'', \<lparr>fo_feed = ''XLM'', fo_primaryRegion = ''eu'', fo_failoverRegion = ''us'', fo_activeRegion = ''eu'', fo_epoch = 1\<rparr>)]"
  have n: "newFeedOwnershipRegistry [\<lparr>foc_feed = ''XLM'', foc_primaryRegion = ''eu'', foc_failoverRegion = ''us''\<rparr>] 1 = Inr ?feeds"
    by (simp add: newFeedOwnershipRegistry_def jm_has_def)
  have a: "pd_allowed (pa_authorize ''XLM'' None (transfers [(''XLM'', ''us'')] ?feeds) (newPublisherAuthority ''us''))"
    by code_simp
  have "pa_region (newPublisherAuthority ''us'') \<noteq> pa_region (newPublisherAuthority ''eu'')"
    by (simp add: newPublisherAuthority_def)
  moreover have "\<forall>b epoch'. pd_allowed (pa_authorize ''XLM'' epoch' (transfers [(''XLM'', ''us'')] ?feeds) b)
      \<longrightarrow> pa_region b = pa_region (newPublisherAuthority ''us'')"
    using single_authorized_publisher [OF n refl a] by (elim exE conjE)
  ultimately have "\<not> pd_allowed (pa_authorize ''XLM'' None (transfers [(''XLM'', ''us'')] ?feeds) (newPublisherAuthority ''eu''))"
    by metis
  with n a show ?thesis by (intro exI conjI)
qed

subsection \<open>Drift report\<close>

lemma drift_values_ge:
  "drift_values n med vs (m, a) = (m', a') \<Longrightarrow> m \<le> m' \<and> (\<forall>v \<in> set vs. drift_value med v \<le> m')"
proof (induction vs arbitrary: m a)
  case (Cons v vs)
  show ?case
  proof (cases "drift_value med v > m")
    case True
    with Cons.prems Cons.IH [of "drift_value med v" "Some n"] show ?thesis by auto
  next
    case False
    with Cons.prems Cons.IH [of m a] show ?thesis by auto
  qed
qed simp

abbreviation comparable :: "lww_register \<Rightarrow> string \<Rightarrow> bool" where
  "comparable r asset \<equiv> 2 \<le> length (lww_byAsset asset r) \<and> drift_median (lww_byAsset asset r) \<noteq> 0"

lemma drift_assets_ge:
  "drift_assets r assets ((m, a), c) = ((m', a'), c') \<Longrightarrow>
     m \<le> m' \<and> c \<le> c' \<and> (c < c' \<longleftrightarrow> (\<exists>x \<in> set assets. comparable r x)) \<and>
     (\<forall>x \<in> set assets. comparable r x \<longrightarrow>
        (\<forall>rec \<in> set (lww_byAsset x r). drift_value (drift_median (lww_byAsset x r)) (of_int (pr_price rec)) \<le> m'))"
proof (induction assets arbitrary: m a c)
  case (Cons x assets)
  show ?case
  proof (cases "comparable r x")
    case True
    obtain m1 a1 where d: "drift_values x (drift_median (lww_byAsset x r))
        (sort (map (\<lambda>rec. of_int (pr_price rec)) (lww_byAsset x r))) (m, a) = (m1, a1)" by force
    have "drift_assets r assets ((m1, a1), c + 1) = ((m', a'), c')"
      using Cons.prems True d by (auto simp: Let_def)
    from Cons.IH [OF this] drift_values_ge [OF d] True show ?thesis
      by (auto 0 3 intro: order_trans)
  next
    case False
    then have "drift_assets r assets ((m, a), c) = ((m', a'), c')"
      using Cons.prems by (auto simp: Let_def not_le)
    from Cons.IH [OF this] False show ?thesis by auto
  qed
qed simp

lemma reduce_latest_mem: "reduce_latest c cs \<in> set (c # cs)"
proof (induction cs arbitrary: c)
  case (Cons x cs)
  from Cons.IH [of "if pr_timestamp x > pr_timestamp c then x else c"] show ?case
    by (auto split: if_splits)
qed simp

lemma lww_latest_asset: "lww_latest a r = Some rec \<Longrightarrow> pr_asset rec = a"
proof (cases "lww_byAsset a r")
  case (Cons c cs)
  assume "lww_latest a r = Some rec"
  then have "rec \<in> set (lww_byAsset a r)"
    using Cons reduce_latest_mem [of c cs] by (auto simp: lww_latest_def)
  then show ?thesis by (simp add: lww_byAsset_def)
qed (simp add: lww_latest_def)

lemma latestAll_assets: "pr_asset ` set (lww_latestAll r) = pr_asset ` set (jm_values (lww_values r))"
proof -
  have "\<exists>rec'. lww_latest (pr_asset rec) r = Some rec'" if "rec \<in> set (jm_values (lww_values r))" for rec
  proof -
    have "rec \<in> set (lww_byAsset (pr_asset rec) r)" using that by (simp add: lww_byAsset_def)
    then show ?thesis by (cases "lww_byAsset (pr_asset rec) r") (auto simp: lww_latest_def)
  qed
  then show ?thesis
    by (force simp: lww_latestAll_def List.map_filter_def image_iff dest: lww_latest_asset)
qed

text \<open>
  The drift report is sound: for every asset that at least two regions report with a non-zero
  median, no region's price deviates from that median by more than the reported maximum; the drift is
  marked as known exactly when such an asset exists, and peers are reported exactly when a record of
  another region is held.
\<close>

theorem drift_report_sound:
  "0 \<le> dr_maxDriftPercent (getDriftReport regionId now rp)
   \<and> (\<forall>rec \<in> set (jm_values (lww_values (rp_register rp))). comparable (rp_register rp) (pr_asset rec) \<longrightarrow>
        drift_value (drift_median (lww_byAsset (pr_asset rec) (rp_register rp))) (of_int (pr_price rec))
          \<le> dr_maxDriftPercent (getDriftReport regionId now rp))
   \<and> (dr_driftKnown (getDriftReport regionId now rp) \<longleftrightarrow>
        (\<exists>rec \<in> set (jm_values (lww_values (rp_register rp))). comparable (rp_register rp) (pr_asset rec)))
   \<and> (dr_hasPeers (getDriftReport regionId now rp) \<longleftrightarrow>
        (\<exists>rec \<in> set (jm_values (lww_values (rp_register rp))). pr_region rec \<noteq> regionId))"
proof -
  let ?r = "rp_register rp" and ?vals = "set (jm_values (lww_values (rp_register rp)))"
  define assets where "assets = rev (remdups (rev (map pr_asset (lww_latestAll ?r))))"
  define regions where "regions = remdups (map pr_region (concat (map (\<lambda>a. lww_byAsset a ?r) assets)))"
  obtain m a c where d: "drift_assets ?r assets ((0, None), 0) = ((m, a), c)" by (metis prod.collapse)
  have as: "set assets = pr_asset ` ?vals" by (simp only: assets_def set_rev set_remdups set_map latestAll_assets)
  have rg: "set regions = pr_region ` ?vals"
    unfolding regions_def by (auto simp: as lww_byAsset_def image_iff)
  have f: "dr_maxDriftPercent (getDriftReport regionId now rp) = m"
    "dr_driftKnown (getDriftReport regionId now rp) = (c > 0)"
    "dr_hasPeers (getDriftReport regionId now rp) =
       ((if regionId \<in> set regions then length regions - 1 else length regions) > 0)"
    unfolding getDriftReport_def Let_def assets_def [symmetric] regions_def [symmetric] d prod.case
    by simp_all
  have "length regions = card (set regions)"
    by (rule distinct_card [symmetric]) (simp only: regions_def distinct_remdups)
  then have peers: "(if regionId \<in> set regions then length regions - 1 else length regions) = card (set regions - {regionId})"
    by simp
  have "set regions - {regionId} \<noteq> {} \<longleftrightarrow> (\<exists>rec \<in> ?vals. pr_region rec \<noteq> regionId)"
    unfolding rg by auto
  then have hp: "dr_hasPeers (getDriftReport regionId now rp) \<longleftrightarrow> (\<exists>rec \<in> ?vals. pr_region rec \<noteq> regionId)"
    unfolding f(3) peers card_gt_0_iff by simp
  have "rec \<in> set (lww_byAsset (pr_asset rec) ?r)" if "rec \<in> ?vals" for rec
    using that by (simp add: lww_byAsset_def)
  then show ?thesis
    using drift_assets_ge [OF d] unfolding hp f(1,2) as by blast
qed

abbreviation sample_replicator :: region_replicator where
  "sample_replicator \<equiv> fst (mergeRemotePrice 5 (sample_record ''us'' 110 10 1)
     (fst (mergeRemotePrice 4 (sample_record ''eu'' 100 10 1) (newRegionPriceReplicator 0))))"

theorem drift_report_sound_witness:
  "dr_driftKnown (getDriftReport ''eu'' 9 sample_replicator) \<and> dr_hasPeers (getDriftReport ''eu'' 9 sample_replicator)
   \<and> 100 / 11 \<le> dr_maxDriftPercent (getDriftReport ''eu'' 9 sample_replicator)"
proof -
  let ?rec = "(sample_record ''eu'' 100 10 1)\<lparr>pr_receivedAt := 4, pr_source := Remote\<rparr>"
  have m: "?rec \<in> set (jm_values (lww_values (rp_register sample_replicator)))"
    "comparable (rp_register sample_replicator) (pr_asset ?rec)"
    "drift_value (drift_median (lww_byAsset (pr_asset ?rec) (rp_register sample_replicator))) (of_int (pr_price ?rec)) = 100 / 11"
    "dr_hasPeers (getDriftReport ''eu'' 9 sample_replicator)"
    by code_simp+
  from drift_report_sound [of "''eu''" 9 sample_replicator, THEN conjunct2] m show ?thesis by metis
qed

text \<open>
  The comparison uses the raw integers of the records and ignores their decimals, so two regions that
  report the same value 1 on different scales appear to drift apart by 90 percent.
\<close>

lemma drift_ignores_decimals:
  "dr_maxDriftPercent (getDriftReport ''eu'' 9
     (fst (mergeRemotePrice 5 ((sample_record ''us'' 100000000 10 1)\<lparr>pr_decimals := 8\<rparr>)
       (fst (mergeRemotePrice 4 (sample_record ''eu'' 10000000 10 1) (newRegionPriceReplicator 0)))))) = 90"
  by code_simp

end
