(* ===== verification/Region_Quarantine.thy ===== *)
theory Region_Quarantine
  imports Feed_Ownership
begin

text \<open>
  Regional quarantine and failback, \<open>services/aggregator/src/replication/region-quarantine.ts\<close>.

  The public interface is \<open>evaluate\<close>, \<open>observeEpoch\<close> and the queries. \<open>evaluate\<close> refers to an identifier
  that is not declared, so it throws before it changes anything. The private failback machine behind
  it is modelled on its own: an evaluation runs up to an \<open>await\<close> and leaves a continuation, which a later
  event resumes. The reconciler and the epoch store are injected; their answers come with the events.
\<close>

record region_config =
  rc_id :: string
  rc_quarantineEnabled :: bool
  rc_failbackEnabled :: bool
  rc_driftAlertPercent :: rat
  rc_quarantineRecoverPercent :: rat
  rc_failbackStabilityWindowMs :: int

text \<open>The one reason text the code can reach, by its epoch.\<close>

datatype quarantine_reason = ObservedNewerEpoch rat

record quarantine_status =
  qs_region :: string
  qs_quarantined :: bool
  qs_reason :: "quarantine_reason option"
  qs_epoch :: rat
  qs_fenced :: bool

datatype failback_state = StablePrimary | FailedOver | AwaitingStability | Reconciling | FailingBack

fun failbackStateValue :: "failback_state \<Rightarrow> nat" where
  "failbackStateValue StablePrimary = 0"
| "failbackStateValue FailedOver = 1"
| "failbackStateValue AwaitingStability = 2"
| "failbackStateValue Reconciling = 3"
| "failbackStateValue FailingBack = 4"

record quarantine_manager =
  qm_status :: quarantine_status
  qm_failbackState :: failback_state
  qm_publisherEpoch :: int
  qm_stableSince :: "int option"
  qm_lastTransitionAt :: int
  qm_failbackInFlight :: bool
  qm_hasReconciler :: bool
  qm_hasEpochStore :: bool

definition newQuarantineManager :: "region_config \<Rightarrow> bool \<Rightarrow> bool \<Rightarrow> int \<Rightarrow> quarantine_manager" where
  "newQuarantineManager config reconciler store now =
     \<lparr>qm_status = \<lparr>qs_region = rc_id config, qs_quarantined = False, qs_reason = None, qs_epoch = 0, qs_fenced = False\<rparr>,
      qm_failbackState = StablePrimary, qm_publisherEpoch = 0, qm_stableSince = None, qm_lastTransitionAt = now,
      qm_failbackInFlight = False, qm_hasReconciler = reconciler, qm_hasEpochStore = store\<rparr>"

subsection \<open>Public interface\<close>

definition nextState :: "region_config \<Rightarrow> drift_report \<Rightarrow> quarantine_manager \<Rightarrow> bool" where
  "nextState config report m =
     (if \<not> rc_quarantineEnabled config then False
      else if dr_maxDriftPercent report > rc_driftAlertPercent config then True
      else let recovered = dr_driftKnown report \<and> dr_maxDriftPercent report \<le> rc_quarantineRecoverPercent config
           in qs_quarantined (qm_status m) \<and> \<not> recovered)"

datatype quarantine_error = ReferenceError

text \<open>\<open>feedSignals\<close> is not declared anywhere: evaluating the argument of \<open>evaluateFeeds\<close> throws.\<close>

definition qm_evaluate ::
  "region_config \<Rightarrow> drift_report \<Rightarrow> quarantine_manager \<Rightarrow> quarantine_manager \<times> (quarantine_error + quarantine_status)" where
  "qm_evaluate config report m =
     (let previous = qs_quarantined (qm_status m); driftQuarantined = nextState config report m
      in (m, Inl ReferenceError))"

definition observeEpoch :: "js_num \<Rightarrow> quarantine_manager \<Rightarrow> quarantine_manager \<times> quarantine_status" where
  "observeEpoch epoch m =
     (case epoch of
        Fin e \<Rightarrow>
          if e < 0 then (m, qm_status m)
          else if e > qs_epoch (qm_status m)
          then (let st = (qm_status m)\<lparr>qs_epoch := e, qs_fenced := True,
                      qs_reason := (if qs_quarantined (qm_status m) then qs_reason (qm_status m) else Some (ObservedNewerEpoch e))\<rparr> in (m\<lparr>qm_status := st\<rparr>, st))
          else (m, qm_status m)
      | _ \<Rightarrow> (m, qm_status m))"

definition isAuthoritative :: "quarantine_manager \<Rightarrow> bool" where
  "isAuthoritative m \<longleftrightarrow> \<not> qs_quarantined (qm_status m) \<and> \<not> qs_fenced (qm_status m)"

record failback_status =
  fb_region :: string
  fb_state :: failback_state
  fb_publisherEpoch :: int
  fb_stableForMs :: int
  fb_lastTransitionAt :: int

definition getFailbackStatus :: "region_config \<Rightarrow> int \<Rightarrow> quarantine_manager \<Rightarrow> failback_status" where
  "getFailbackStatus config now m =
     \<lparr>fb_region = rc_id config, fb_state = qm_failbackState m, fb_publisherEpoch = qm_publisherEpoch m,
      fb_stableForMs = (case qm_stableSince m of None \<Rightarrow> 0 | Some t \<Rightarrow> now - t), fb_lastTransitionAt = qm_lastTransitionAt m\<rparr>"

datatype public_call = Evaluate drift_report | ObserveEpoch js_num

fun public_step :: "region_config \<Rightarrow> public_call \<Rightarrow> quarantine_manager \<Rightarrow> quarantine_manager" where
  "public_step config (Evaluate report) m = fst (qm_evaluate config report m)"
| "public_step config (ObserveEpoch e) m = fst (observeEpoch e m)"

text \<open>The highest epoch among the observed ones, zero if none is finite and positive.\<close>

fun positive_epochs :: "public_call list \<Rightarrow> rat list" where
  "positive_epochs [] = []"
| "positive_epochs (ObserveEpoch (Fin e) # cs) = (if e > 0 then [e] else []) @ positive_epochs cs"
| "positive_epochs (_ # cs) = positive_epochs cs"

lemma public_fold:
  assumes "\<not> qs_quarantined (qm_status m)" "0 \<le> qs_epoch (qm_status m)" "qs_fenced (qm_status m) \<longleftrightarrow> 0 < qs_epoch (qm_status m)"
  shows "let m' = fold (public_step config) cs m
    in \<not> qs_quarantined (qm_status m') \<and> qs_epoch (qm_status m') = fold max (positive_epochs cs) (qs_epoch (qm_status m))
      \<and> (qs_fenced (qm_status m') \<longleftrightarrow> 0 < qs_epoch (qm_status m'))
      \<and> qm_failbackState m' = qm_failbackState m \<and> qm_publisherEpoch m' = qm_publisherEpoch m"
  using assms
proof (induction cs arbitrary: m rule: positive_epochs.induct)
  case (2 e cs)
  show ?case
  proof (cases "e > qs_epoch (qm_status m)")
    case True
    with 2 show ?thesis
      using "2.IH" [of "m\<lparr>qm_status := (qm_status m)\<lparr>qs_epoch := e, qs_fenced := True, qs_reason := Some (ObservedNewerEpoch e)\<rparr>\<rparr>"]
      by (simp add: observeEpoch_def Let_def max_def)
  next
    case False
    with 2 show ?thesis
      using "2.IH" [of m] by (auto simp: observeEpoch_def Let_def max_def)
  qed
qed (simp_all add: qm_evaluate_def observeEpoch_def Let_def)


subsection \<open>The failback machine\<close>

definition fb_transitionTo :: "failback_state \<Rightarrow> int \<Rightarrow> quarantine_manager \<Rightarrow> quarantine_manager" where
  "fb_transitionTo next' now m =
     (if qm_failbackState m = next' then m else m\<lparr>qm_failbackState := next', qm_lastTransitionAt := now\<rparr>)"

text \<open>What a call leaves behind: its result, or a continuation waiting for the reconciler or the epoch store.\<close>

datatype pending = AwaitReconcile | AwaitBump

datatype progress = Done bool | Suspended pending | Failed

definition finish_failback :: "int \<Rightarrow> int \<Rightarrow> quarantine_manager \<Rightarrow> quarantine_manager \<times> progress" where
  "finish_failback nextEpoch now m =
     ((fb_transitionTo StablePrimary now (m\<lparr>qm_publisherEpoch := nextEpoch, qm_stableSince := None\<rparr>))\<lparr>qm_failbackInFlight := False\<rparr>,
      Done True)"

definition start_bump :: "int \<Rightarrow> quarantine_manager \<Rightarrow> quarantine_manager \<times> progress" where
  "start_bump now m =
     (if qm_hasEpochStore m then (m, Suspended AwaitBump)
      else finish_failback (qm_publisherEpoch m + 1) now m)"

definition after_reconcile :: "bool \<Rightarrow> int \<Rightarrow> quarantine_manager \<Rightarrow> quarantine_manager \<times> progress" where
  "after_reconcile converged now m =
     (if \<not> converged then (m\<lparr>qm_failbackInFlight := False\<rparr>, Done False)
      else start_bump now (fb_transitionTo FailingBack now m))"

definition runReconcileAndFailback :: "int \<Rightarrow> quarantine_manager \<Rightarrow> quarantine_manager \<times> progress" where
  "runReconcileAndFailback now m =
     (if qm_failbackInFlight m then (m, Done False)
      else let m' = m\<lparr>qm_failbackInFlight := True\<rparr>
           in if qm_failbackState m' = Reconciling
              then (if qm_hasReconciler m' then (m', Suspended AwaitReconcile) else after_reconcile True now m')
              else start_bump now m')"

definition advanceFailback ::
  "region_config \<Rightarrow> int \<Rightarrow> drift_report \<Rightarrow> bool \<Rightarrow> quarantine_manager \<Rightarrow> quarantine_manager \<times> progress" where
  "advanceFailback config now report quarantined m =
     (if \<not> rc_failbackEnabled config then (m, Done False)
      else let driftAboveAlert = dr_maxDriftPercent report > rc_driftAlertPercent config;
               driftStable = (dr_driftKnown report \<and> dr_maxDriftPercent report \<le> rc_quarantineRecoverPercent config)
           in if quarantined \<or> driftAboveAlert
              then (fb_transitionTo FailedOver now (m\<lparr>qm_stableSince := None\<rparr>), Done False)
              else case qm_failbackState m of
                  StablePrimary \<Rightarrow> (m, Done False)
                | FailedOver \<Rightarrow>
                    if \<not> driftStable then (m, Done False)
                    else (fb_transitionTo AwaitingStability now (m\<lparr>qm_stableSince := Some now\<rparr>), Done False)
                | AwaitingStability \<Rightarrow>
                    if \<not> driftStable then (fb_transitionTo FailedOver now (m\<lparr>qm_stableSince := None\<rparr>), Done False)
                    else let since = nullish (qm_stableSince m) now; m' = m\<lparr>qm_stableSince := Some since\<rparr>
                         in if now - since < rc_failbackStabilityWindowMs config then (m', Done False)
                            else runReconcileAndFailback now (fb_transitionTo Reconciling now m')
                | Reconciling \<Rightarrow> runReconcileAndFailback now m
                | FailingBack \<Rightarrow> runReconcileAndFailback now m)"

text \<open>The continuations: the reconciler resolves or rejects, the epoch store answers or rejects.\<close>

fun resume :: "int \<Rightarrow> pending \<Rightarrow> int option \<Rightarrow> quarantine_manager \<Rightarrow> quarantine_manager \<times> progress" where
  "resume now p None m = (m\<lparr>qm_failbackInFlight := False\<rparr>, Failed)"
| "resume now AwaitReconcile (Some n) m = after_reconcile (n \<noteq> 0) now m"
| "resume now AwaitBump (Some n) m = finish_failback n now m"

text \<open>A manager with its suspended calls, and the number of transfers of authority so far.\<close>

type_synonym fb_config = "quarantine_manager \<times> pending list \<times> nat"

fun settle_progress :: "quarantine_manager \<times> progress \<Rightarrow> pending list \<Rightarrow> nat \<Rightarrow> fb_config" where
  "settle_progress (m, Suspended p) ps n = (m, p # ps, n)"
| "settle_progress (m, Done True) ps n = (m, ps, Suc n)"
| "settle_progress (m, _) ps n = (m, ps, n)"

inductive fb_step :: "region_config \<Rightarrow> fb_config \<Rightarrow> fb_config \<Rightarrow> bool" for config where
  advance: "fb_step config (m, ps, n) (settle_progress (advanceFailback config now report quarantined m) ps n)"
| resume: "p \<in> set ps \<Longrightarrow> fb_step config (m, ps, n) (settle_progress (resume now p answer m) (remove1 p ps) n)"

inductive fb_reachable :: "region_config \<Rightarrow> fb_config \<Rightarrow> bool" for config where
  init: "fb_reachable config (newQuarantineManager config reconciler store now, [], 0)"
| step: "fb_reachable config c \<Longrightarrow> fb_step config c c' \<Longrightarrow> fb_reachable config c'"

inductive_cases fb_stepE: "fb_step config (m, ps, n) c'"

text \<open>A call that is in flight is exactly one suspended call.\<close>

definition fb_ok :: "fb_config \<Rightarrow> bool" where
  "fb_ok c \<longleftrightarrow> (case c of (m, ps, n) \<Rightarrow> length ps = (if qm_failbackInFlight m then 1 else 0)
     \<and> (\<not> qm_hasEpochStore m \<longrightarrow> AwaitBump \<notin> set ps \<and> qm_publisherEpoch m = int n))"

lemma fb_transitionTo_keeps [simp]:
  "qm_failbackInFlight (fb_transitionTo s now m) = qm_failbackInFlight m" "qm_hasEpochStore (fb_transitionTo s now m) = qm_hasEpochStore m"
  "qm_publisherEpoch (fb_transitionTo s now m) = qm_publisherEpoch m" "qm_hasReconciler (fb_transitionTo s now m) = qm_hasReconciler m"
  by (simp_all add: fb_transitionTo_def)

lemma fb_ok_bump:
  "qm_failbackInFlight m \<Longrightarrow> \<not> qm_hasEpochStore m \<longrightarrow> qm_publisherEpoch m = int n \<Longrightarrow> fb_ok (settle_progress (start_bump now m) [] n)"
  by (simp add: start_bump_def finish_failback_def fb_ok_def)

lemma fb_ok_run:
  assumes "fb_ok (m, ps, n)"
  shows "fb_ok (settle_progress (runReconcileAndFailback now m) ps n)"
proof (cases "qm_failbackInFlight m")
  case True
  then show ?thesis using assms by (simp add: runReconcileAndFailback_def)
next
  case False
  with assms have ps: "ps = []" "\<not> qm_hasEpochStore m \<longrightarrow> qm_publisherEpoch m = int n" by (auto simp: fb_ok_def)
  let ?m = "m\<lparr>qm_failbackInFlight := True\<rparr>"
  show ?thesis
    using False ps fb_ok_bump [of ?m n now] fb_ok_bump [of "fb_transitionTo FailingBack now ?m" n now]
    by (simp add: runReconcileAndFailback_def after_reconcile_def Let_def) (auto simp: fb_ok_def)
qed

lemma fb_ok_advance:
  assumes "fb_ok (m, ps, n)"
  shows "fb_ok (settle_progress (advanceFailback config now report quarantined m) ps n)"
proof -
  have keep: "fb_ok (fb_transitionTo s now (m\<lparr>qm_stableSince := t\<rparr>), ps, n)" "fb_ok (m\<lparr>qm_stableSince := t\<rparr>, ps, n)" for s t
    using assms by (simp_all add: fb_ok_def)
  show ?thesis
    using assms keep fb_ok_run [OF assms] fb_ok_run [OF keep(1)]
    by (simp add: advanceFailback_def Let_def split: failback_state.split)
qed

lemma fb_ok_resume:
  assumes "fb_ok (m, ps, n)" "p \<in> set ps"
  shows "fb_ok (settle_progress (resume now p answer m) (remove1 p ps) n)"
proof -
  have ps: "ps = [p]" "qm_failbackInFlight m" "\<not> qm_hasEpochStore m \<longrightarrow> p \<noteq> AwaitBump \<and> qm_publisherEpoch m = int n"
    using assms by (auto simp: fb_ok_def length_Suc_conv split: if_splits)
  show ?thesis
  proof (cases answer)
    case None
    then show ?thesis using ps by (simp add: fb_ok_def)
  next
    case (Some k)
    then show ?thesis
      using ps fb_ok_bump [of "fb_transitionTo FailingBack now m" n now]
      by (cases p) (auto simp: after_reconcile_def finish_failback_def fb_ok_def)
  qed
qed

text \<open>
  However evaluations and answers interleave, at most one failback is under way, the in-flight
  flag says exactly whether one is, and without an epoch store the publisher epoch counts the transfers of
  authority.
\<close>

theorem failback_exclusive:
  assumes "fb_reachable config (m, ps, n)"
  shows "length ps \<le> 1 \<and> (qm_failbackInFlight m \<longleftrightarrow> ps \<noteq> []) \<and> (\<not> qm_hasEpochStore m \<longrightarrow> qm_publisherEpoch m = int n)"
proof -
  have "fb_ok c" if "fb_reachable config c" for c
    using that
  proof (induction rule: fb_reachable.induct)
    case (init reconciler store now)
    then show ?case by (simp add: fb_ok_def newQuarantineManager_def)
  next
    case (step c c')
    obtain m ps n where c: "c = (m, ps, n)" by (cases c) auto
    show ?case
      using step.hyps(2) step.IH unfolding c by (elim fb_stepE) (auto intro: fb_ok_advance fb_ok_resume)
  qed
  from this [OF assms] show ?thesis by (auto simp: fb_ok_def split: if_splits)
qed

abbreviation sample_region :: region_config where
  "sample_region \<equiv> \<lparr>rc_id = ''eu'', rc_quarantineEnabled = True, rc_failbackEnabled = True, rc_driftAlertPercent = 5,
     rc_quarantineRecoverPercent = 1, rc_failbackStabilityWindowMs = 10\<rparr>"

abbreviation sample_report :: "rat \<Rightarrow> drift_report" where
  "sample_report d \<equiv> \<lparr>dr_maxDriftPercent = d, dr_maxStalenessMs = 0, dr_asset = None, dr_regions = [], dr_regionCount = 2,
     dr_peerCount = 1, dr_hasPeers = True, dr_driftKnown = True\<rparr>"

fun run_drifts :: "(int \<times> rat) list \<Rightarrow> fb_config \<Rightarrow> fb_config" where
  "run_drifts [] c = c"
| "run_drifts ((t, d) # ds) (m, ps, n) = run_drifts ds (settle_progress (advanceFailback sample_region t (sample_report d) False m) ps n)"

lemma run_drifts_reachable: "fb_reachable sample_region c \<Longrightarrow> fb_reachable sample_region (run_drifts ds c)"
proof (induction ds c rule: run_drifts.induct)
  case (2 t d ds m ps n)
  show ?case
    unfolding run_drifts.simps by (rule "2.IH", rule fb_reachable.step [OF "2.prems"], rule fb_step.advance)
qed simp

definition sample_start :: fb_config where
  "sample_start = (newQuarantineManager sample_region True False 0, [], 0)"

theorem failback_exclusive_witness:
  "\<exists>m ps n. run_drifts [(1, 9), (2, 0), (12, 0), (13, 0)] sample_start = (m, ps, n) \<and> ps = [AwaitReconcile] \<and> qm_failbackInFlight m"
proof -
  have "fst (snd (run_drifts [(1, 9), (2, 0), (12, 0), (13, 0)] sample_start)) = [AwaitReconcile]"
    by code_simp
  then obtain m n where c: "run_drifts [(1, 9), (2, 0), (12, 0), (13, 0)] sample_start = (m, [AwaitReconcile], n)"
    by (metis prod.collapse)
  have "fb_reachable sample_region (run_drifts [(1, 9), (2, 0), (12, 0), (13, 0)] sample_start)"
    unfolding sample_start_def by (intro run_drifts_reachable fb_reachable.init)
  then have "qm_failbackInFlight m"
    using failback_exclusive [of sample_region m "[AwaitReconcile]" n] c by simp
  with c show ?thesis by blast
qed

text \<open>
  Drift that regresses while the reconciler runs does not abort the failback under way: the machine is
  back in \<open>FailedOver\<close>, and the answer of the reconciler still transfers authority.
\<close>

lemma regression_does_not_abort_failback:
  "(case run_drifts [(1, 9), (2, 0), (12, 0), (13, 9)] sample_start of (m, ps, n) \<Rightarrow>
     (qm_failbackState m, ps, n, snd (resume 14 AwaitReconcile (Some 1) m), qm_failbackState (fst (resume 14 AwaitReconcile (Some 1) m))))
   = (FailedOver, [AwaitReconcile], 0, Done True, StablePrimary)"
  by code_simp

end
