(* ===== verification/Merkle.thy ===== *)
theory Merkle
  imports Js_Prelude "HOL-Library.Word"
begin

text \<open>
  Merkle batches of prices, \<open>services/aggregator/src/infrastructure/merkle.ts\<close>: the canonical leaf
  encoding, the tree with promotion of the last node of an odd level, proofs and their verification.

  A \<open>Buffer\<close> is a list of bytes. SHA-256 is the argument \<open>sha\<close>; the only fact used about it is that
  a digest has 32 bytes (\<open>digest32\<close>). Strings are encoded as UTF-8 over code units below 256.
\<close>

type_synonym buffer = "8 word list"

record batch_price_entry =
  be_asset :: string
  be_price :: int
  be_decimals :: int
  be_timestamp :: int
  be_source :: string

record merkle_proof =
  mp_leafIndex :: int
  mp_siblings :: "buffer list"

datatype merkle_error = EmptyEntries | LeafIndexOutOfRange | RangeError

definition MAX_PROOF_SIBLINGS :: nat where "MAX_PROOF_SIBLINGS = 64"

definition LEAF_DOMAIN_TAG :: buffer where "LEAF_DOMAIN_TAG = [0]"

definition NODE_DOMAIN_TAG :: buffer where "NODE_DOMAIN_TAG = [1]"

subsection \<open>Leaf encoding\<close>

definition utf8_char :: "char \<Rightarrow> buffer" where
  "utf8_char c = (let n = (of_char c :: nat)
     in if n < 128 then [word_of_nat n] else [word_of_nat (192 + n div 64), word_of_nat (128 + n mod 64)])"

definition buffer_from :: "string \<Rightarrow> buffer" where
  "buffer_from s = concat (map utf8_char s)"

fun write_be :: "nat \<Rightarrow> int \<Rightarrow> buffer" where
  "write_be 0 x = []"
| "write_be (Suc n) x = write_be n (x div 256) @ [word_of_int x]"

definition asIntN :: "nat \<Rightarrow> int \<Rightarrow> int" where
  "asIntN w x = (let m = x mod 2 ^ w in if m \<ge> 2 ^ (w - 1) then m - 2 ^ w else m)"

definition asUintN :: "nat \<Rightarrow> int \<Rightarrow> int" where
  "asUintN w x = x mod 2 ^ w"

definition price_buffer :: "int \<Rightarrow> buffer" where
  "price_buffer p =
     (let price = asIntN 128 p;
          high = asUintN 64 (price div 2 ^ 64);
          low = asUintN 64 (price mod 2 ^ 64)
      in write_be 8 high @ write_be 8 low)"

definition leaf_preimage :: "batch_price_entry \<Rightarrow> merkle_error + buffer" where
  "leaf_preimage entry =
     (if \<not> (0 \<le> be_decimals entry \<and> be_decimals entry < 2 ^ 32) then Inl RangeError
      else if \<not> (0 \<le> be_timestamp entry \<and> be_timestamp entry < 2 ^ 64) then Inl RangeError
      else Inr (LEAF_DOMAIN_TAG @ buffer_from (be_asset entry) @ [0] @ price_buffer (be_price entry)
        @ write_be 4 (be_decimals entry) @ write_be 8 (be_timestamp entry) @ buffer_from (be_source entry)))"

definition hashLeaf :: "(buffer \<Rightarrow> buffer) \<Rightarrow> batch_price_entry \<Rightarrow> merkle_error + buffer" where
  "hashLeaf sha entry = (case leaf_preimage entry of Inl e \<Rightarrow> Inl e | Inr b \<Rightarrow> Inr (sha b))"

definition hashPair :: "(buffer \<Rightarrow> buffer) \<Rightarrow> buffer \<Rightarrow> buffer \<Rightarrow> buffer" where
  "hashPair sha left right = sha (NODE_DOMAIN_TAG @ left @ right)"

subsection \<open>Tree\<close>

fun next_level :: "(buffer \<Rightarrow> buffer) \<Rightarrow> buffer list \<Rightarrow> buffer list" where
  "next_level sha [] = []"
| "next_level sha [left] = [left]"
| "next_level sha (left # right # rest) = hashPair sha left right # next_level sha rest"

lemma length_next_level: "length (next_level sha xs) = (length xs + 1) div 2"
  by (induction sha xs rule: next_level.induct) auto

function build_levels :: "(buffer \<Rightarrow> buffer) \<Rightarrow> buffer list \<Rightarrow> buffer list list" where
  "build_levels sha current =
     (if length current > 1 then current # build_levels sha (next_level sha current) else [current])"
  by pat_completeness auto
termination
  by (relation "measure (\<lambda>(sha, current). length current)") (auto simp: length_next_level)

declare build_levels.simps [simp del]

record merkle_tree =
  mt_leaves :: "buffer list"
  mt_levels :: "buffer list list"

fun hash_leaves :: "(buffer \<Rightarrow> buffer) \<Rightarrow> batch_price_entry list \<Rightarrow> merkle_error + buffer list" where
  "hash_leaves sha [] = Inr []"
| "hash_leaves sha (e # es) =
     (case hashLeaf sha e of
        Inl err \<Rightarrow> Inl err
      | Inr h \<Rightarrow> (case hash_leaves sha es of Inl err \<Rightarrow> Inl err | Inr hs \<Rightarrow> Inr (h # hs)))"

definition newMerkleTree :: "(buffer \<Rightarrow> buffer) \<Rightarrow> batch_price_entry list \<Rightarrow> merkle_error + merkle_tree" where
  "newMerkleTree sha entries =
     (if entries = [] then Inl EmptyEntries
      else case hash_leaves sha entries of
             Inl e \<Rightarrow> Inl e
           | Inr leaves \<Rightarrow> Inr \<lparr>mt_leaves = leaves, mt_levels = build_levels sha leaves\<rparr>)"

definition mt_root :: "merkle_tree \<Rightarrow> buffer" where
  "mt_root t = hd (last (mt_levels t))"

fun proof_loop :: "buffer list list \<Rightarrow> nat \<Rightarrow> buffer list" where
  "proof_loop (levelNodes # level # levels) index =
     (let isLast = (index = length levelNodes - 1);
          isOddLevel = (length levelNodes mod 2 = 1)
      in (if isLast \<and> isOddLevel then []
          else [levelNodes ! (if index mod 2 = 0 then index + 1 else index - 1)])
         @ proof_loop (level # levels) (index div 2))"
| "proof_loop _ index = []"

definition mt_getProof :: "int \<Rightarrow> merkle_tree \<Rightarrow> merkle_error + merkle_proof" where
  "mt_getProof leafIndex t =
     (if leafIndex < 0 \<or> leafIndex \<ge> int (length (mt_leaves t)) then Inl LeafIndexOutOfRange
      else Inr \<lparr>mp_leafIndex = leafIndex, mp_siblings = proof_loop (mt_levels t) (nat leafIndex)\<rparr>)"

function verify_loop :: "(buffer \<Rightarrow> buffer) \<Rightarrow> buffer \<Rightarrow> int \<Rightarrow> nat \<Rightarrow> buffer list \<Rightarrow> buffer option" where
  "verify_loop sha current index levelSize siblings =
     (if levelSize > 1 then
        (let isLast = (index = int levelSize - 1); isOddLevel = (levelSize mod 2 = 1)
         in if isLast \<and> isOddLevel then verify_loop sha current (index div 2) ((levelSize + 1) div 2) siblings
            else case siblings of
                   [] \<Rightarrow> None
                 | sibling # rest \<Rightarrow>
                     verify_loop sha (if index mod 2 = 0 then hashPair sha current sibling else hashPair sha sibling current)
                       (index div 2) ((levelSize + 1) div 2) rest)
      else Some current)"
  by pat_completeness auto
termination
  by (relation "measure (\<lambda>(sha, current, index, levelSize, siblings). levelSize)") auto

declare verify_loop.simps [simp del]

definition mt_verifyProof :: "(buffer \<Rightarrow> buffer) \<Rightarrow> batch_price_entry \<Rightarrow> merkle_proof \<Rightarrow> merkle_tree \<Rightarrow> merkle_error + bool" where
  "mt_verifyProof sha entry proof t =
     (if length (mp_siblings proof) > MAX_PROOF_SIBLINGS then Inr False
      else case hashLeaf sha entry of
             Inl e \<Rightarrow> Inl e
           | Inr h \<Rightarrow>
               (case verify_loop sha h (mp_leafIndex proof) (length (mt_leaves t)) (mp_siblings proof) of
                  None \<Rightarrow> Inr False
                | Some current \<Rightarrow> Inr (current = mt_root t)))"

record merkle_batch =
  mb_root :: buffer
  mb_batchSize :: nat
  mb_entries :: "batch_price_entry list"
  mb_proofs :: "merkle_proof list"

definition mt_build :: "(buffer \<Rightarrow> buffer) \<Rightarrow> batch_price_entry list \<Rightarrow> merkle_error + merkle_batch" where
  "mt_build sha entries =
     (case newMerkleTree sha entries of
        Inl e \<Rightarrow> Inl e
      | Inr tree \<Rightarrow> Inr \<lparr>mb_root = mt_root tree, mb_batchSize = length (mt_leaves tree), mb_entries = entries,
          mb_proofs = map (\<lambda>i. case mt_getProof (int i) tree of Inr p \<Rightarrow> p
             | Inl _ \<Rightarrow> \<lparr>mp_leafIndex = int i, mp_siblings = []\<rparr>) [0..<length entries]\<rparr>)"

subsection \<open>Completeness of proofs\<close>

lemma nth_next_level:
  assumes "i < length xs"
  shows "next_level sha xs ! (i div 2) =
     (if Suc i = length xs \<and> odd (length xs) then xs ! i
      else if even i then hashPair sha (xs ! i) (xs ! (i + 1)) else hashPair sha (xs ! (i - 1)) (xs ! i))"
  using assms
proof (induction sha xs arbitrary: i rule: next_level.induct)
  case (3 sha left right rest)
  show ?case
  proof (cases "i < 2")
    case True
    then have "i = 0 \<or> i = 1" by auto
    then show ?thesis by auto
  next
    case False
    then obtain j where j: "i = Suc (Suc j)" by (metis add_2_eq_Suc le_add_diff_inverse not_less)
    with "3.prems" have "j < length rest" by simp
    have idx: "i div 2 = Suc (j div 2)" "even i = even j" "odd (length (left # right # rest)) = odd (length rest)"
      "(Suc i = length (left # right # rest)) = (Suc j = length rest)" by (simp_all add: j)
    have nth: "(left # right # rest) ! i = rest ! j" "(left # right # rest) ! (i + 1) = rest ! (j + 1)"
      "odd j \<Longrightarrow> (left # right # rest) ! (i - 1) = rest ! (j - 1)"
      by (simp_all add: j) (cases j; simp)
    show ?thesis
      unfolding idx nth(1,2) next_level.simps nth_Cons_Suc "3.IH" [OF \<open>j < length rest\<close>] by (simp add: nth(3) [unfolded One_nat_def])
  qed
qed auto

lemma last_build_levels: "current \<noteq> [] \<Longrightarrow> length (last (build_levels sha current)) = 1"
proof (induction sha current rule: build_levels.induct)
  case (1 sha current)
  have "build_levels sha x \<noteq> []" for x by (subst build_levels.simps) simp
  moreover have "0 < length (next_level sha current)"
    using "1.prems" by (cases current) (simp_all add: length_next_level)
  moreover have "length current = 1" if "\<not> length current > 1"
    using that "1.prems" by (cases current) auto
  ultimately show ?case
    using "1.IH" by (subst build_levels.simps) auto
qed

lemma loop_ends:
  "\<not> 1 < length xs \<Longrightarrow> build_levels sha xs = [xs]" "\<not> 1 < n \<Longrightarrow> verify_loop sha c i n sibs = Some c"
  by (subst build_levels.simps, simp, subst verify_loop.simps, simp)

lemma build_levels_ne: "build_levels sha x \<noteq> []"
  by (subst build_levels.simps) simp

text \<open>One turn of the two loops, for a promoted node and for a node with a sibling.\<close>

definition promoted :: "nat \<Rightarrow> nat \<Rightarrow> bool" where
  "promoted i n \<longleftrightarrow> Suc i = n \<and> odd n"

lemma verify_loop_step:
  assumes "1 < n" "i < n"
  shows "promoted i n \<Longrightarrow> verify_loop sha c (int i) n sibs = verify_loop sha c (int (i div 2)) ((n + 1) div 2) sibs"
    "\<not> promoted i n \<Longrightarrow> verify_loop sha c (int i) n [] = None"
    "\<not> promoted i n \<Longrightarrow> verify_loop sha c (int i) n (s # sibs) =
       verify_loop sha (if even i then hashPair sha c s else hashPair sha s c) (int (i div 2)) ((n + 1) div 2) sibs"
proof -
  have "(int i = int n - 1) = (Suc i = n)" by linarith
  moreover have "n mod 2 = 1 \<longleftrightarrow> odd n" "int i mod 2 = 0 \<longleftrightarrow> even i" by presburger+
  moreover have "int i div 2 = int (i div 2)" by (simp add: zdiv_int)
  ultimately show "promoted i n \<Longrightarrow> verify_loop sha c (int i) n sibs = verify_loop sha c (int (i div 2)) ((n + 1) div 2) sibs"
    "\<not> promoted i n \<Longrightarrow> verify_loop sha c (int i) n [] = None"
    "\<not> promoted i n \<Longrightarrow> verify_loop sha c (int i) n (s # sibs) =
       verify_loop sha (if even i then hashPair sha c s else hashPair sha s c) (int (i div 2)) ((n + 1) div 2) sibs"
    using assms by (auto simp: verify_loop.simps [of sha c "int i" n] Let_def promoted_def)
qed

lemma proof_loop_step:
  assumes "1 < length xs" "i < length xs"
  shows "proof_loop (build_levels sha xs) i =
    (if promoted i (length xs) then [] else [xs ! (if even i then i + 1 else i - 1)])
      @ proof_loop (build_levels sha (next_level sha xs)) (i div 2)"
proof -
  obtain l ls where l: "build_levels sha (next_level sha xs) = l # ls" using build_levels_ne by (metis list.exhaust)
  have b: "build_levels sha xs = xs # l # ls" using assms l by (subst build_levels.simps) simp
  have "(i = length xs - 1) = (Suc i = length xs)" using assms by auto
  moreover have "length xs mod 2 = 1 \<longleftrightarrow> odd (length xs)" "i mod 2 = 0 \<longleftrightarrow> even i" by presburger+
  ultimately show ?thesis
    unfolding b l proof_loop.simps Let_def promoted_def by simp
qed

lemma last_build_levels_step:
  "1 < length xs \<Longrightarrow> last (build_levels sha xs) = last (build_levels sha (next_level sha xs))"
  by (subst build_levels.simps) (simp add: build_levels_ne)

lemma verify_own_proof:
  assumes "i < length xs"
  shows "verify_loop sha (xs ! i) (int i) (length xs) (proof_loop (build_levels sha xs) i)
    = Some (hd (last (build_levels sha xs)))"
  using assms
proof (induction sha xs arbitrary: i rule: build_levels.induct)
  case (1 sha xs)
  show ?case
  proof (cases "length xs > 1")
    case True
    have i2: "i div 2 < length (next_level sha xs)" using "1.prems" by (simp add: length_next_level)
    note ih = "1.IH" [OF True i2, unfolded length_next_level]
    note step = verify_loop_step [OF True "1.prems"] proof_loop_step [OF True "1.prems"] last_build_levels_step [OF True]
    show ?thesis
    proof (cases "promoted i (length xs)")
      case True
      then have "next_level sha xs ! (i div 2) = xs ! i"
        using nth_next_level [OF "1.prems", of sha] by (simp add: promoted_def)
      with ih True step show ?thesis by simp
    next
      case False
      then have "next_level sha xs ! (i div 2) =
          (if even i then hashPair sha (xs ! i) (xs ! (i + 1)) else hashPair sha (xs ! (i - 1)) (xs ! i))"
        using nth_next_level [OF "1.prems", of sha] by (auto simp: promoted_def)
      with ih False step show ?thesis by (cases "even i") simp_all
    qed
  next
    case False
    then have "length xs = 1" using "1.prems" by simp
    then show ?thesis
      using "1.prems" by (cases xs) (auto simp: loop_ends)
  qed
qed

lemma proof_loop_length:
  "length xs \<le> 2 ^ k \<Longrightarrow> i < length xs \<Longrightarrow> length (proof_loop (build_levels sha xs) i) \<le> k"
proof (induction k arbitrary: xs i)
  case 0
  then show ?case by (simp add: loop_ends)
next
  case (Suc k)
  show ?case
  proof (cases "1 < length xs")
    case True
    have "length (next_level sha xs) \<le> 2 ^ k" "i div 2 < length (next_level sha xs)"
      using Suc.prems by (simp_all add: length_next_level)
    from Suc.IH [OF this] show ?thesis
      by (simp add: proof_loop_step [OF True Suc.prems(2)])
  next
    case False
    then show ?thesis by (simp add: loop_ends)
  qed
qed

lemma hash_leaves_nth:
  "hash_leaves sha es = Inr hs \<Longrightarrow> length hs = length es \<and> (\<forall>i < length es. hashLeaf sha (es ! i) = Inr (hs ! i))"
proof (induction es arbitrary: hs)
  case (Cons e es)
  then obtain h hs' where "hashLeaf sha e = Inr h" "hash_leaves sha es = Inr hs'" "hs = h # hs'"
    by (auto split: sum.splits)
  with Cons.IH [of hs'] show ?case by (auto simp: nth_Cons split: nat.splits)
qed simp

lemma newMerkleTree_Inr:
  assumes "newMerkleTree sha entries = Inr t"
  shows "length (mt_leaves t) = length entries" "mt_levels t = build_levels sha (mt_leaves t)"
    "\<And>i. i < length entries \<Longrightarrow> hashLeaf sha (entries ! i) = Inr (mt_leaves t ! i)"
  using assms hash_leaves_nth [of sha entries]
  by (auto simp: newMerkleTree_def split: if_splits sum.splits)

text \<open>
  Every proof the tree hands out is accepted: for a batch of up to 2 to the 64 entries, the
  proof of entry i verifies entry i against the root, and stays within the sibling limit.
\<close>

theorem merkle_proof_complete:
  assumes "newMerkleTree sha entries = Inr t" "i < length entries" "length entries \<le> 2 ^ 64"
  shows "\<exists>p. mt_getProof (int i) t = Inr p \<and> length (mp_siblings p) \<le> MAX_PROOF_SIBLINGS
    \<and> mt_verifyProof sha (entries ! i) p t = Inr True"
proof -
  note t = newMerkleTree_Inr [OF assms(1)]
  have i: "i < length (mt_leaves t)" using assms(2) t(1) by simp
  have "length (proof_loop (mt_levels t) i) \<le> 64"
    unfolding t(2) by (rule proof_loop_length) (use assms t(1) in auto)
  then show ?thesis
    using i t(3) [OF assms(2)] verify_own_proof [OF i, of sha]
    by (simp add: mt_getProof_def mt_verifyProof_def mt_root_def t(2) MAX_PROOF_SIBLINGS_def)
qed

subsection \<open>Soundness of proofs\<close>

definition digest32 :: "(buffer \<Rightarrow> buffer) \<Rightarrow> bool" where
  "digest32 sha \<longleftrightarrow> (\<forall>x. length (sha x) = 32)"

text \<open>The inputs the construction of the tree hashes.\<close>

definition level_inputs :: "buffer list \<Rightarrow> buffer list" where
  "level_inputs xs = map (\<lambda>k. NODE_DOMAIN_TAG @ xs ! (2 * k) @ xs ! (2 * k + 1)) [0..<length xs div 2]"

function node_inputs :: "(buffer \<Rightarrow> buffer) \<Rightarrow> buffer list \<Rightarrow> buffer list" where
  "node_inputs sha xs = (if length xs > 1 then level_inputs xs @ node_inputs sha (next_level sha xs) else [])"
  by pat_completeness auto
termination
  by (relation "measure (\<lambda>(sha, xs). length xs)") (auto simp: length_next_level)

declare node_inputs.simps [simp del]

definition tree_inputs :: "merkle_tree \<Rightarrow> (buffer \<Rightarrow> buffer) \<Rightarrow> batch_price_entry list \<Rightarrow> buffer set" where
  "tree_inputs t sha entries =
     set (node_inputs sha (mt_leaves t)) \<union> {b. \<exists>e \<in> set entries. leaf_preimage e = Inr b}"

definition second_preimage :: "(buffer \<Rightarrow> buffer) \<Rightarrow> buffer set \<Rightarrow> bool" where
  "second_preimage sha inputs \<longleftrightarrow> (\<exists>x \<in> inputs. \<exists>y. y \<noteq> x \<and> sha y = sha x)"

lemma level_inputs_mem:
  assumes "i < length xs" "\<not> promoted i (length xs)"
  shows "NODE_DOMAIN_TAG @ (if even i then xs ! i @ xs ! (i + 1) else xs ! (i - 1) @ xs ! i) \<in> set (level_inputs xs)"
proof -
  have "i div 2 < length xs div 2" using assms by (auto simp: promoted_def elim!: oddE evenE)
  moreover have "even i \<Longrightarrow> 2 * (i div 2) = i" "odd i \<Longrightarrow> 2 * (i div 2) = i - 1" "odd i \<Longrightarrow> 2 * (i div 2) + 1 = i" by auto
  ultimately show ?thesis unfolding level_inputs_def set_map
    by (intro image_eqI [of _ _ "i div 2"]) auto
qed

lemma hashPair_eq:
  assumes "hashPair sha a b = hashPair sha c d" "length a = length c \<or> length b = length d"
    "NODE_DOMAIN_TAG @ c @ d \<in> inputs"
  shows "(a = c \<and> b = d) \<or> second_preimage sha inputs"
proof (cases "a @ b = c @ d")
  case True
  with assms(2) show ?thesis by (auto simp: append_eq_append_conv)
next
  case False
  then have "NODE_DOMAIN_TAG @ a @ b \<noteq> NODE_DOMAIN_TAG @ c @ d" by simp
  with assms show ?thesis unfolding second_preimage_def hashPair_def by blast
qed

lemma next_level_digests:
  "digest32 sha \<Longrightarrow> \<forall>x \<in> set xs. length x = 32 \<Longrightarrow> \<forall>x \<in> set (next_level sha xs). length x = 32"
  by (induction sha xs rule: next_level.induct) (auto simp: hashPair_def digest32_def)

lemma verify_loop_sound:
  assumes "digest32 sha" "\<forall>x \<in> set xs. length x = 32" "length c = 32" "i < length xs"
    "verify_loop sha c (int i) (length xs) sibs = Some (hd (last (build_levels sha xs)))"
  shows "c = xs ! i \<or> second_preimage sha (set (node_inputs sha xs))"
  using assms
proof (induction sha xs arbitrary: c i sibs rule: build_levels.induct)
  case (1 sha xs)
  show ?case
  proof (cases "1 < length xs")
    case True
    let ?n = "next_level sha xs"
    have i2: "i div 2 < length ?n" using "1.prems"(4) by (simp add: length_next_level)
    have node: "set (node_inputs sha xs) = set (level_inputs xs) \<union> set (node_inputs sha ?n)"
      using True by (subst node_inputs.simps) simp
    then have deeper: "second_preimage sha (set (node_inputs sha ?n)) \<Longrightarrow> second_preimage sha (set (node_inputs sha xs))"
      by (auto simp: second_preimage_def)
    note ih = "1.IH" [OF True "1.prems"(1) next_level_digests [OF "1.prems"(1,2)] _ i2, unfolded length_next_level]
    note step = verify_loop_step [OF True "1.prems"(4)] last_build_levels_step [OF True, of sha]
    show ?thesis
    proof (cases "promoted i (length xs)")
      case prom: True
      then have "?n ! (i div 2) = xs ! i"
        using nth_next_level [OF "1.prems"(4), of sha] by (simp add: promoted_def)
      with ih [OF "1.prems"(3), of sibs] deeper "1.prems"(5) step(1) [OF prom] step(4) show ?thesis by auto
    next
      case prom: False
      then obtain s rest where sibs: "sibs = s # rest"
        using "1.prems"(5) step(2) by (cases sibs) auto
      define c' where "c' = (if even i then hashPair sha c s else hashPair sha s c)"
      have "length c' = 32" using "1.prems"(1) by (simp add: c'_def hashPair_def digest32_def)
      from ih [OF this, of rest] "1.prems"(5) have "c' = ?n ! (i div 2) \<or> second_preimage sha (set (node_inputs sha xs))"
        using deeper by (auto simp: sibs step(3) [OF prom] step(4) c'_def)
      moreover have "?n ! (i div 2) =
          (if even i then hashPair sha (xs ! i) (xs ! (i + 1)) else hashPair sha (xs ! (i - 1)) (xs ! i))"
        using nth_next_level [OF "1.prems"(4), of sha] prom by (auto simp: promoted_def)
      moreover have "length (xs ! i) = length c" using "1.prems"(2,3,4) by simp
      moreover note level_inputs_mem [OF "1.prems"(4) prom]
      ultimately show ?thesis
        using hashPair_eq [of sha c s "xs ! i" "xs ! (i + 1)" "set (level_inputs xs) \<union> set (node_inputs sha ?n)"]
          hashPair_eq [of sha s c "xs ! (i - 1)" "xs ! i" "set (level_inputs xs) \<union> set (node_inputs sha ?n)"]
        unfolding c'_def node by (cases "even i") auto
    qed
  next
    case False
    then have "length xs = 1" using "1.prems"(4) by simp
    then show ?thesis
      using "1.prems"(4,5) by (cases xs) (auto simp: loop_ends)
  qed
qed

subsection \<open>The leaf encoding is injective\<close>

lemma word8_of_nat_eq: "m < 256 \<Longrightarrow> n < 256 \<Longrightarrow> (word_of_nat m :: 8 word) = word_of_nat n \<longleftrightarrow> m = n"
  by (simp add: word_of_nat_eq_iff take_bit_eq_mod)

lemma word8_nonzero: "0 < m \<Longrightarrow> m < 256 \<Longrightarrow> (word_of_nat m :: 8 word) \<noteq> 0"
  using word8_of_nat_eq [of m 0] by simp

lemma utf8_char_append:
  assumes "utf8_char c @ x = utf8_char d @ y"
  shows "c = d \<and> x = y"
proof -
  define m n where "m = (of_char c :: nat)" and "n = (of_char d :: nat)"
  have lt: "m < 256" "n < 256" unfolding m_def n_def by (rule nat_of_char_less_256)+
  have "m = n \<and> x = y"
  proof (cases "m < 128"; cases "n < 128")
    assume "\<not> m < 128" "\<not> n < 128"
    then have "(word_of_nat (192 + m div 64) :: 8 word) = word_of_nat (192 + n div 64)"
      "(word_of_nat (128 + m mod 64) :: 8 word) = word_of_nat (128 + n mod 64)" "x = y"
      using assms by (auto simp: utf8_char_def Let_def m_def n_def)
    then have "m div 64 = n div 64" "m mod 64 = n mod 64"
      using lt by (auto simp: word8_of_nat_eq)
    then show ?thesis using \<open>x = y\<close> by (metis div_mult_mod_eq)
  next
    assume mn: "m < 128" "\<not> n < 128"
    then have "(word_of_nat m :: 8 word) = word_of_nat (192 + n div 64)"
      using assms by (auto simp: utf8_char_def Let_def m_def n_def)
    with mn lt show ?thesis by (subst (asm) word8_of_nat_eq) auto
  next
    assume mn: "\<not> m < 128" "n < 128"
    then have "(word_of_nat n :: 8 word) = word_of_nat (192 + m div 64)"
      using assms by (auto simp: utf8_char_def Let_def m_def n_def)
    with mn lt show ?thesis by (subst (asm) word8_of_nat_eq) auto
  qed (use assms lt in \<open>auto simp: utf8_char_def Let_def m_def [symmetric] n_def [symmetric] word8_of_nat_eq\<close>)
  then show ?thesis by (auto simp: m_def n_def)
qed

lemma buffer_from_inj: "buffer_from s = buffer_from t \<Longrightarrow> s = t"
proof (induction s arbitrary: t)
  case Nil
  then show ?case by (cases t) (auto simp: buffer_from_def utf8_char_def Let_def split: if_splits)
next
  case (Cons c s)
  then obtain d t' where t: "t = d # t'"
    by (cases t) (auto simp: buffer_from_def utf8_char_def Let_def split: if_splits)
  then have "utf8_char c @ buffer_from s = utf8_char d @ buffer_from t'"
    using Cons.prems by (simp add: buffer_from_def)
  from utf8_char_append [OF this] show ?case using Cons.IH [of t'] by (simp add: t)
qed

lemma length_write_be [simp]: "length (write_be n x) = n"
  by (induction n arbitrary: x) auto

lemma word8_of_int_eq: "(word_of_int x :: 8 word) = word_of_int y \<longleftrightarrow> x mod 256 = y mod 256"
  by (simp add: word_of_int_eq_iff take_bit_eq_mod)

lemma write_be_eq: "write_be n x = write_be n y \<longleftrightarrow> x mod 256 ^ n = y mod 256 ^ n"
proof (induction n arbitrary: x y)
  case (Suc n)
  have split: "z mod 256 ^ Suc n = 256 * (z div 256 mod 256 ^ n) + z mod 256" for z :: int
    using zmod_zmult2_eq [of "256 ^ n" z 256] by simp
  have "write_be (Suc n) x = write_be (Suc n) y \<longleftrightarrow> x div 256 mod 256 ^ n = y div 256 mod 256 ^ n \<and> x mod 256 = y mod 256"
    by (simp only: write_be.simps append1_eq_conv Suc.IH word8_of_int_eq)
  moreover have digit: "256 * a + r = 256 * b + s \<longleftrightarrow> a = b \<and> r = s"
    if "0 \<le> r" "r < 256" "0 \<le> s" "s < 256" for a b r s :: int
  proof
    assume eq: "256 * a + r = 256 * b + s"
    have "(256 * a + r) div 256 = a" "(256 * b + s) div 256 = b"
      using that by (simp_all add: div_mult_self4 div_pos_pos_trivial)
    with eq show "a = b \<and> r = s" by auto
  qed simp
  ultimately show ?case
    unfolding split by (simp only: digit pos_mod_sign pos_mod_bound zero_less_numeral)
qed simp

lemma write_be_inj:
  "write_be n x = write_be n y \<Longrightarrow> 0 \<le> x \<Longrightarrow> x < 256 ^ n \<Longrightarrow> 0 \<le> y \<Longrightarrow> y < 256 ^ n \<Longrightarrow> x = y"
  by (simp add: write_be_eq)

lemma asIntN_mod: "asIntN w r mod 2 ^ w = r mod 2 ^ w"
  by (simp add: asIntN_def Let_def)

lemma asIntN_cong: "p mod 2 ^ w = q mod 2 ^ w \<Longrightarrow> asIntN w p = asIntN w q"
  by (simp add: asIntN_def)

lemma write_be_asUintN: "write_be 8 (asUintN 64 x) = write_be 8 (asUintN 64 y) \<longleftrightarrow> x mod 2 ^ 64 = y mod 2 ^ 64"
proof -
  have e: "(256 :: int) ^ 8 = 2 ^ 64" by simp
  show ?thesis by (simp only: write_be_eq asUintN_def e mod_mod_trivial)
qed

lemma halves_eq:
  fixes p q m :: int
  assumes "0 \<le> m" "p div m mod m = q div m mod m" "p mod m = q mod m"
  shows "p mod (m * m) = q mod (m * m)"
  using assms by (simp add: zmod_zmult2_eq)

lemma price_buffer_inj:
  assumes "price_buffer p = price_buffer q"
  shows "asIntN 128 p = asIntN 128 q"
proof -
  let ?p = "asIntN 128 p" and ?q = "asIntN 128 q"
  have "write_be 8 (asUintN 64 (?p div 2 ^ 64)) = write_be 8 (asUintN 64 (?q div 2 ^ 64))
      \<and> write_be 8 (asUintN 64 (?p mod 2 ^ 64)) = write_be 8 (asUintN 64 (?q mod 2 ^ 64))"
    using assms unfolding price_buffer_def Let_def
    by (simp only: append_eq_append_conv length_write_be simp_thms)
  then have "?p mod (2 ^ 64 * 2 ^ 64) = ?q mod (2 ^ 64 * 2 ^ 64)"
    by (intro halves_eq) (simp_all only: write_be_asUintN mod_mod_trivial zero_le_power zero_le_numeral)
  moreover have "(2 :: int) ^ 64 * 2 ^ 64 = 2 ^ 128" by simp
  ultimately have "?p mod 2 ^ 128 = ?q mod 2 ^ 128" by (simp only:)
  then show ?thesis by (intro asIntN_cong) (simp only: asIntN_mod)
qed

lemma utf8_char_nonzero:
  assumes "c \<noteq> CHR 0x00"
  shows "0 \<notin> set (utf8_char c)"
proof -
  define n where "n = (of_char c :: nat)"
  have "n \<noteq> of_char CHR 0x00" using assms by (simp add: n_def del: of_char_Char)
  then have "n \<noteq> 0" by simp
  moreover have "n < 256" by (simp add: n_def)
  ultimately have nz: "0 \<noteq> (word_of_nat n :: 8 word)" "0 \<noteq> (word_of_nat (192 + n div 64) :: 8 word)"
    "0 \<noteq> (word_of_nat (128 + n mod 64) :: 8 word)"
    by (rule_tac word8_nonzero [symmetric]; simp)+
  show ?thesis
    unfolding utf8_char_def Let_def n_def [symmetric] using nz
    by (simp only: list.set insert_iff empty_iff simp_thms split: if_split)
qed

lemma buffer_from_no_nul:
  assumes "CHR 0x00 \<notin> set s"
  shows "0 \<notin> set (buffer_from s)"
proof
  assume "0 \<in> set (buffer_from s)"
  then obtain c where c: "c \<in> set s" "0 \<in> set (utf8_char c)"
    unfolding buffer_from_def set_concat set_map by (elim UN_E imageE) simp
  then have "c = CHR 0x00" using utf8_char_nonzero by metis
  with c(1) assms show False by simp
qed

lemma leaf_preimage_inj:
  assumes "leaf_preimage e = Inr b" "leaf_preimage e' = Inr b"
    and nul: "CHR 0x00 \<notin> set (be_asset e)" "CHR 0x00 \<notin> set (be_asset e')"
  shows "be_asset e = be_asset e' \<and> asIntN 128 (be_price e) = asIntN 128 (be_price e')
    \<and> be_decimals e = be_decimals e' \<and> be_timestamp e = be_timestamp e' \<and> be_source e = be_source e'"
proof -
  define rest where "rest = (\<lambda>e :: batch_price_entry. price_buffer (be_price e) @ write_be 4 (be_decimals e) @ write_be 8 (be_timestamp e)
      @ buffer_from (be_source e))"
  have r: "0 \<le> be_decimals e" "be_decimals e < 256 ^ 4" "0 \<le> be_timestamp e" "be_timestamp e < 256 ^ 8"
    "0 \<le> be_decimals e'" "be_decimals e' < 256 ^ 4" "0 \<le> be_timestamp e'" "be_timestamp e' < 256 ^ 8"
    using assms(1,2) by (auto simp: leaf_preimage_def split: if_splits)
  have eq: "buffer_from (be_asset e) @ 0 # rest e = buffer_from (be_asset e') @ 0 # rest e'"
    using assms(1,2) by (auto simp: leaf_preimage_def rest_def split: if_splits)
  have tw: "takeWhile (\<lambda>x. x \<noteq> 0) (buffer_from a @ 0 # y) = buffer_from a" if "CHR 0x00 \<notin> set a" for a y
    using buffer_from_no_nul [OF that] by (subst takeWhile_append2) auto
  from arg_cong [OF eq, of "takeWhile (\<lambda>x. x \<noteq> 0)"] have asset: "buffer_from (be_asset e) = buffer_from (be_asset e')"
    by (simp only: tw [OF nul(1)] tw [OF nul(2)])
  with eq have "rest e = rest e'" by simp
  moreover have "length (price_buffer p) = 16" for p by (simp add: price_buffer_def Let_def)
  ultimately have "price_buffer (be_price e) = price_buffer (be_price e') \<and> write_be 4 (be_decimals e) = write_be 4 (be_decimals e')
      \<and> write_be 8 (be_timestamp e) = write_be 8 (be_timestamp e') \<and> buffer_from (be_source e) = buffer_from (be_source e')"
    unfolding rest_def by (simp only: append_eq_append_conv length_write_be simp_thms)
  then show ?thesis
    using asset r by (auto intro: buffer_from_inj price_buffer_inj write_be_inj)
qed

text \<open>
  (C13) A proof that verifies at an index of the batch speaks for the entry at that index: the claimed
  entry has the same asset, source, decimals, timestamp and 128-bit price, unless the verification has
  produced a second preimage of one of the inputs hashed to build the tree. Asset names contain no NUL.
\<close>

theorem merkle_proof_sound:
  assumes "digest32 sha" "newMerkleTree sha entries = Inr t"
    and "0 \<le> mp_leafIndex p" "mp_leafIndex p < int (length entries)"
    and "mt_verifyProof sha entry p t = Inr True"
    and "CHR 0x00 \<notin> set (be_asset entry)" "CHR 0x00 \<notin> set (be_asset (entries ! nat (mp_leafIndex p)))"
  shows "(let e = entries ! nat (mp_leafIndex p)
     in be_asset entry = be_asset e \<and> asIntN 128 (be_price entry) = asIntN 128 (be_price e)
        \<and> be_decimals entry = be_decimals e \<and> be_timestamp entry = be_timestamp e \<and> be_source entry = be_source e)
     \<or> second_preimage sha (tree_inputs t sha entries)"
proof -
  define i where "i = nat (mp_leafIndex p)"
  have i: "i < length entries" "mp_leafIndex p = int i" using assms(3,4) by (auto simp: i_def)
  note t = newMerkleTree_Inr [OF assms(2)]
  have dig: "length h = 32" if "hashLeaf sha e = Inr h" for e h
    using that assms(1) by (auto simp: hashLeaf_def digest32_def split: sum.splits)
  obtain h where h: "hashLeaf sha entry = Inr h"
    "verify_loop sha h (int i) (length (mt_leaves t)) (mp_siblings p) = Some (mt_root t)"
    using assms(5) i(2) by (auto simp: mt_verifyProof_def split: if_splits sum.splits option.splits)
  have "\<forall>x \<in> set (mt_leaves t). length x = 32"
    using t(1,3) dig by (metis in_set_conv_nth)
  from verify_loop_sound [OF assms(1) this dig [OF h(1)], of i "mp_siblings p"] h(2) i(1) t
  have leaf: "h = mt_leaves t ! i \<or> second_preimage sha (tree_inputs t sha entries)"
    by (auto simp: mt_root_def second_preimage_def tree_inputs_def)
  obtain b b' where b: "leaf_preimage entry = Inr b" "h = sha b" "leaf_preimage (entries ! i) = Inr b'" "mt_leaves t ! i = sha b'"
    using h(1) t(3) [OF i(1)] by (auto simp: hashLeaf_def split: sum.splits)
  have "b' \<in> tree_inputs t sha entries" using b(3) i(1) by (auto simp: tree_inputs_def)
  with leaf b have "b = b' \<or> second_preimage sha (tree_inputs t sha entries)"
    by (auto simp: second_preimage_def)
  with leaf_preimage_inj [OF b(1), of "entries ! i"] b(3) assms(6,7) show ?thesis
    by (auto simp: Let_def i_def)
qed

abbreviation sample_entry :: "string \<Rightarrow> int \<Rightarrow> batch_price_entry" where
  "sample_entry asset price \<equiv> \<lparr>be_asset = asset, be_price = price, be_decimals = 7, be_timestamp = 100, be_source = ''band''\<rparr>"

abbreviation padded :: "buffer \<Rightarrow> buffer" where
  "padded b \<equiv> take 32 (b @ replicate 32 0)"

lemma sample_tree:
  obtains t where "newMerkleTree padded [sample_entry ''XLM'' 5, sample_entry ''BTC'' (- 9), sample_entry ''ETH'' 3] = Inr t"
    "mt_verifyProof padded (sample_entry ''BTC'' (- 9)) \<lparr>mp_leafIndex = 1, mp_siblings = [mt_leaves t ! 0, mt_leaves t ! 2]\<rparr> t = Inr True"
proof -
  have "(case newMerkleTree padded [sample_entry ''XLM'' 5, sample_entry ''BTC'' (- 9), sample_entry ''ETH'' 3] of Inl _ \<Rightarrow> False
     | Inr t \<Rightarrow> mt_verifyProof padded (sample_entry ''BTC'' (- 9)) \<lparr>mp_leafIndex = 1, mp_siblings = [mt_leaves t ! 0, mt_leaves t ! 2]\<rparr> t = Inr True)"
    by code_simp
  then show ?thesis using that by (auto split: sum.splits)
qed

theorem merkle_proof_complete_witness:
  "\<exists>t p. newMerkleTree padded [sample_entry ''XLM'' 5, sample_entry ''BTC'' (- 9), sample_entry ''ETH'' 3] = Inr t
     \<and> mt_getProof (int 2) t = Inr p \<and> mt_verifyProof padded (sample_entry ''ETH'' 3) p t = Inr True"
proof -
  obtain t where t: "newMerkleTree padded [sample_entry ''XLM'' 5, sample_entry ''BTC'' (- 9), sample_entry ''ETH'' 3] = Inr t"
    by (rule sample_tree)
  from merkle_proof_complete [OF this, of 2] t show ?thesis by auto
qed

theorem merkle_proof_sound_witness:
  "\<exists>t p. newMerkleTree padded [sample_entry ''XLM'' 5, sample_entry ''BTC'' (- 9), sample_entry ''ETH'' 3] = Inr t
     \<and> mt_verifyProof padded (sample_entry ''BTC'' (- 9)) p t = Inr True
     \<and> (be_asset (sample_entry ''BTC'' (- 9)) = ''BTC''
        \<or> second_preimage padded (tree_inputs t padded [sample_entry ''XLM'' 5, sample_entry ''BTC'' (- 9), sample_entry ''ETH'' 3]))"
proof -
  obtain t where t: "newMerkleTree padded [sample_entry ''XLM'' 5, sample_entry ''BTC'' (- 9), sample_entry ''ETH'' 3] = Inr t"
    "mt_verifyProof padded (sample_entry ''BTC'' (- 9)) \<lparr>mp_leafIndex = 1, mp_siblings = [mt_leaves t ! 0, mt_leaves t ! 2]\<rparr> t = Inr True"
    by (rule sample_tree)
  have "digest32 padded" by (simp add: digest32_def min_def)
  from merkle_proof_sound [OF this t(1) _ _ t(2)] t show ?thesis
    by (intro exI conjI) (auto simp: Let_def)
qed

text \<open>
  The bound on the index is needed: verification does not compare the index with the batch size, and
  reads it only through its parity and the promotion test. In a batch of two, the proof of entry 0
  also verifies entry 0 under the index 2.
\<close>

lemma out_of_range_index_accepted:
  "(case newMerkleTree padded [sample_entry ''XLM'' 5, sample_entry ''BTC'' (- 9)] of Inl _ \<Rightarrow> False
    | Inr t \<Rightarrow> mt_verifyProof padded (sample_entry ''XLM'' 5) \<lparr>mp_leafIndex = 2, mp_siblings = [mt_leaves t ! 1]\<rparr> t = Inr True
        \<and> mt_getProof 2 t = Inl LeafIndexOutOfRange)"
  by code_simp

end
