(* ===== verification/Ws_Replay.thy ===== *)
theory Ws_Replay
  imports Js_Prelude
begin

text \<open>
  Bounded WebSocket replay, \<open>api/src/infrastructure/ws-replay.ts\<close>: the scope check of a replay
  request, the bounded replay window, the per-connection rate limiter and the bounded buffer.

  The payload of a message is of any type \<open>'d\<close>; \<open>jsonLength\<close> is the length of its JSON text. The
  two loops of \<open>push\<close> are partial functions, so that their termination is a theorem.
\<close>

subsection \<open>Messages, bounds and scopes\<close>

record 'd buffered_message =
  bm_sequenceId :: int
  bm_asset :: string
  bm_timestamp :: int
  bm_data :: 'd

record replay_bounds =
  rb_boundMessages :: nat
  rb_boundBytes :: nat

record replay_scope =
  sc_feeds :: "string list option"
  sc_operations :: "string list"
  sc_environment :: string
  sc_expiresAt :: "int option"

datatype replay_denial = OperationNotPermitted | EnvironmentMismatch | Expired | AssetNotPermitted

definition evaluateReplayScope :: "replay_scope \<Rightarrow> string \<Rightarrow> int \<Rightarrow> replay_denial option" where
  "evaluateReplayScope scope environment now =
     (if ''replay'' \<notin> set (sc_operations scope) then Some OperationNotPermitted
      else if sc_environment scope \<noteq> environment then Some EnvironmentMismatch
      else if (case sc_expiresAt scope of None \<Rightarrow> False | Some t \<Rightarrow> now \<ge> t) then Some Expired
      else None)"

definition isAssetPermitted :: "replay_scope \<Rightarrow> string \<Rightarrow> bool" where
  "isAssetPermitted scope asset = (case sc_feeds scope of None \<Rightarrow> True | Some feeds \<Rightarrow> asset \<in> set feeds)"

record 'd replay_window =
  rw_messages :: "'d buffered_message list"
  rw_truncated :: bool
  rw_remaining :: int
  rw_bytes :: nat

definition messageBytes :: "('d \<Rightarrow> nat) \<Rightarrow> 'd buffered_message \<Rightarrow> nat" where
  "messageBytes jsonLength message = jsonLength (bm_data message) + 64"

subsection \<open>Replay window\<close>

definition replayCandidates ::
  "'d buffered_message list list \<Rightarrow> int \<Rightarrow> replay_scope option \<Rightarrow> 'd buffered_message list" where
  "replayCandidates sources lastSequenceId scope =
     filter (\<lambda>entry. \<not> bm_sequenceId entry \<le> lastSequenceId
       \<and> \<not> (case scope of None \<Rightarrow> False | Some sc \<Rightarrow> \<not> isAssetPermitted sc (bm_asset entry))) (concat sources)"

fun collect_loop ::
  "('d \<Rightarrow> nat) \<Rightarrow> replay_bounds \<Rightarrow> 'd buffered_message list \<Rightarrow> 'd buffered_message list \<Rightarrow> nat
     \<Rightarrow> 'd buffered_message list \<times> nat" where
  "collect_loop jl bounds [] messages bytes = (messages, bytes)"
| "collect_loop jl bounds (entry # rest) messages bytes =
     (if length messages \<ge> rb_boundMessages bounds then (messages, bytes)
      else if bytes + messageBytes jl entry > rb_boundBytes bounds \<and> length messages > 0 then (messages, bytes)
      else collect_loop jl bounds rest (messages @ [entry]) (bytes + messageBytes jl entry))"

definition collectReplayWindow ::
  "('d \<Rightarrow> nat) \<Rightarrow> 'd buffered_message list list \<Rightarrow> int \<Rightarrow> replay_bounds \<Rightarrow> replay_scope option \<Rightarrow> 'd replay_window" where
  "collectReplayWindow jl sources lastSequenceId bounds scope =
     (let candidates = js_sort (\<lambda>a b. bm_sequenceId a - bm_sequenceId b) (replayCandidates sources lastSequenceId scope);
          (messages, bytes) = collect_loop jl bounds candidates [] 0;
          remaining = int (length candidates) - int (length messages)
      in \<lparr>rw_messages = messages, rw_truncated = (remaining > 0), rw_remaining = remaining, rw_bytes = bytes\<rparr>)"

subsection \<open>Rate limiter\<close>

record replay_limiter =
  rl_hits :: "(string, int list) js_map"
  rl_maxRequests :: nat
  rl_windowMs :: int

definition newReplayRateLimiter :: "nat \<Rightarrow> int \<Rightarrow> replay_limiter" where
  "newReplayRateLimiter maxRequests windowMs = \<lparr>rl_hits = [], rl_maxRequests = maxRequests, rl_windowMs = windowMs\<rparr>"

definition rl_allow :: "string \<Rightarrow> int \<Rightarrow> replay_limiter \<Rightarrow> replay_limiter \<times> bool" where
  "rl_allow key now l =
     (let recent = filter (\<lambda>t. now - t < rl_windowMs l) (nullish (jm_get (rl_hits l) key) [])
      in if length recent \<ge> rl_maxRequests l then (l\<lparr>rl_hits := jm_set (rl_hits l) key recent\<rparr>, False)
         else (l\<lparr>rl_hits := jm_set (rl_hits l) key (recent @ [now])\<rparr>, True))"

definition rl_prune :: "int \<Rightarrow> replay_limiter \<Rightarrow> replay_limiter" where
  "rl_prune now l =
     l\<lparr>rl_hits := foldl (\<lambda>hits (key, timestamps).
         let recent = filter (\<lambda>t. now - t < rl_windowMs l) timestamps
         in if recent = [] then jm_delete hits key else jm_set hits key recent) (rl_hits l) (rl_hits l)\<rparr>"

definition rl_reset :: "replay_limiter \<Rightarrow> replay_limiter" where
  "rl_reset l = l\<lparr>rl_hits := []\<rparr>"

subsection \<open>Replay buffer\<close>

record 'd replay_buffer =
  rb_buffers :: "(string, 'd buffered_message list) js_map"
  rb_totalBytes :: int
  rb_totalMessages :: int
  rb_maxAssets :: nat
  rb_messagesPerAsset :: nat
  rb_maxBytes :: nat

definition newReplayBuffer :: "nat \<Rightarrow> nat \<Rightarrow> nat \<Rightarrow> 'd replay_buffer" where
  "newReplayBuffer maxAssets messagesPerAsset maxBytes =
     \<lparr>rb_buffers = [], rb_totalBytes = 0, rb_totalMessages = 0, rb_maxAssets = maxAssets,
      rb_messagesPerAsset = messagesPerAsset, rb_maxBytes = maxBytes\<rparr>"

definition dropOldest :: "('d \<Rightarrow> nat) \<Rightarrow> string \<Rightarrow> 'd replay_buffer \<Rightarrow> 'd replay_buffer" where
  "dropOldest jl asset b =
     (case jm_get (rb_buffers b) asset of
        None \<Rightarrow> b
      | Some [] \<Rightarrow> b
      | Some (dropped # rest) \<Rightarrow>
          b\<lparr>rb_buffers := jm_set (rb_buffers b) asset rest, rb_totalMessages := rb_totalMessages b - 1,
            rb_totalBytes := rb_totalBytes b - int (messageBytes jl dropped)\<rparr>)"

definition evictOldestAsset :: "('d \<Rightarrow> nat) \<Rightarrow> 'd replay_buffer \<Rightarrow> 'd replay_buffer" where
  "evictOldestAsset jl b =
     (case rb_buffers b of
        [] \<Rightarrow> b
      | (oldest, buffer) # _ \<Rightarrow>
          b\<lparr>rb_totalMessages := rb_totalMessages b - int (length buffer),
            rb_totalBytes := rb_totalBytes b - int (sum_list (map (messageBytes jl) buffer)),
            rb_buffers := jm_delete (rb_buffers b) oldest\<rparr>)"

definition dropOldestFromOldestAsset :: "('d \<Rightarrow> nat) \<Rightarrow> 'd replay_buffer \<Rightarrow> 'd replay_buffer" where
  "dropOldestFromOldestAsset jl b =
     (case rb_buffers b of
        [] \<Rightarrow> b
      | (oldest, _) # _ \<Rightarrow>
          let b' = dropOldest jl oldest b
          in if jm_get (rb_buffers b') oldest = Some [] then b'\<lparr>rb_buffers := jm_delete (rb_buffers b') oldest\<rparr> else b')"

partial_function (option) trim_asset :: "('d \<Rightarrow> nat) \<Rightarrow> string \<Rightarrow> 'd replay_buffer \<Rightarrow> 'd replay_buffer option" where
  "trim_asset jl asset b =
     (if length (nullish (jm_get (rb_buffers b) asset) []) > rb_messagesPerAsset b
      then trim_asset jl asset (dropOldest jl asset b) else Some b)"

partial_function (option) trim_bytes :: "('d \<Rightarrow> nat) \<Rightarrow> 'd replay_buffer \<Rightarrow> 'd replay_buffer option" where
  "trim_bytes jl b =
     (if rb_totalBytes b > int (rb_maxBytes b) \<and> rb_totalMessages b > 0
      then trim_bytes jl (dropOldestFromOldestAsset jl b) else Some b)"

definition rb_touch :: "('d \<Rightarrow> nat) \<Rightarrow> string \<Rightarrow> 'd replay_buffer \<Rightarrow> 'd replay_buffer" where
  "rb_touch jl asset b =
     (case jm_get (rb_buffers b) asset of
        Some existing \<Rightarrow> b\<lparr>rb_buffers := jm_set (jm_delete (rb_buffers b) asset) asset existing\<rparr>
      | None \<Rightarrow>
          let b' = (if length (rb_buffers b) \<ge> rb_maxAssets b then evictOldestAsset jl b else b)
          in b'\<lparr>rb_buffers := jm_set (rb_buffers b') asset []\<rparr>)"

definition rb_append :: "('d \<Rightarrow> nat) \<Rightarrow> string \<Rightarrow> 'd buffered_message \<Rightarrow> 'd replay_buffer \<Rightarrow> 'd replay_buffer" where
  "rb_append jl asset entry b =
     b\<lparr>rb_buffers := jm_set (rb_buffers b) asset (nullish (jm_get (rb_buffers b) asset) [] @ [entry]),
       rb_totalMessages := rb_totalMessages b + 1,
       rb_totalBytes := rb_totalBytes b + int (messageBytes jl entry)\<rparr>"

definition rb_push :: "('d \<Rightarrow> nat) \<Rightarrow> string \<Rightarrow> 'd buffered_message \<Rightarrow> 'd replay_buffer \<Rightarrow> 'd replay_buffer option" where
  "rb_push jl asset entry b =
     Option.bind (trim_asset jl asset (rb_append jl asset entry (rb_touch jl asset b))) (trim_bytes jl)"

definition rb_sources :: "string list option \<Rightarrow> replay_scope option \<Rightarrow> 'd replay_buffer \<Rightarrow> 'd buffered_message list list" where
  "rb_sources assets scope b =
     (case assets of
        None \<Rightarrow>
          (case scope of
             None \<Rightarrow> jm_values (rb_buffers b)
           | Some sc \<Rightarrow> map (filter (\<lambda>entry. isAssetPermitted sc (bm_asset entry))) (jm_values (rb_buffers b)))
      | Some as \<Rightarrow>
          map (\<lambda>asset. nullish (jm_get (rb_buffers b) asset) [])
            (filter (\<lambda>asset. case scope of None \<Rightarrow> True | Some sc \<Rightarrow> isAssetPermitted sc asset) as))"

definition rb_clear :: "'d replay_buffer \<Rightarrow> 'd replay_buffer" where
  "rb_clear b = b\<lparr>rb_buffers := [], rb_totalBytes := 0, rb_totalMessages := 0\<rparr>"

definition rb_oldestSequence :: "string list option \<Rightarrow> 'd replay_buffer \<Rightarrow> int option" where
  "rb_oldestSequence assets b =
     foldl (\<lambda>oldest buffer. case buffer of [] \<Rightarrow> oldest
        | m # _ \<Rightarrow> (case oldest of None \<Rightarrow> Some (bm_sequenceId m)
                     | Some o' \<Rightarrow> if bm_sequenceId m < o' then Some (bm_sequenceId m) else oldest)) None
       (case assets of Some as \<Rightarrow> map (\<lambda>asset. nullish (jm_get (rb_buffers b) asset) []) as
                     | None \<Rightarrow> jm_values (rb_buffers b))"

subsection \<open>The replay window is a bounded prefix of the permitted backlog\<close>

lemma collect_loop_prefix:
  assumes "collect_loop jl bounds cands msgs bytes = (msgs', bytes')"
    "bytes = sum_list (map (messageBytes jl) msgs)" "length msgs \<le> rb_boundMessages bounds"
    "length msgs \<le> 1 \<or> bytes \<le> rb_boundBytes bounds"
  shows "\<exists>n. msgs' = msgs @ take n cands \<and> bytes' = sum_list (map (messageBytes jl) msgs')
    \<and> length msgs' \<le> rb_boundMessages bounds \<and> (length msgs' \<le> 1 \<or> bytes' \<le> rb_boundBytes bounds)"
  using assms
proof (induction jl bounds cands msgs bytes rule: collect_loop.induct)
  case (2 jl bounds entry rest msgs bytes)
  show ?case
  proof (cases "length msgs \<ge> rb_boundMessages bounds \<or> (bytes + messageBytes jl entry > rb_boundBytes bounds \<and> length msgs > 0)")
    case True
    then show ?thesis using "2.prems" by (intro exI [of _ 0]) (auto split: if_splits)
  next
    case False
    then have "\<exists>n. msgs' = (msgs @ [entry]) @ take n rest \<and> bytes' = sum_list (map (messageBytes jl) msgs')
      \<and> length msgs' \<le> rb_boundMessages bounds \<and> (length msgs' \<le> 1 \<or> bytes' \<le> rb_boundBytes bounds)"
      using "2.prems" by (intro "2.IH") (auto simp: not_le)
    then obtain n where "msgs' = msgs @ take (Suc n) (entry # rest) \<and> bytes' = sum_list (map (messageBytes jl) msgs')
      \<and> length msgs' \<le> rb_boundMessages bounds \<and> (length msgs' \<le> 1 \<or> bytes' \<le> rb_boundBytes bounds)" by auto
    then show ?thesis by blast
  qed
qed auto

lemma seq_cmp: "cmp_by bm_sequenceId (\<lambda>a b. bm_sequenceId a - bm_sequenceId b)"
  by (auto simp: cmp_by_def)


abbreviation sample_message :: "int \<Rightarrow> string \<Rightarrow> nat buffered_message" where
  "sample_message n asset \<equiv> \<lparr>bm_sequenceId = n, bm_asset = asset, bm_timestamp = 0, bm_data = 6\<rparr>"


subsection \<open>The rate limiter\<close>

text \<open>The calls of one connection, as (time, allowed) pairs in order, and the limiter after them.\<close>

fun rl_calls :: "string \<Rightarrow> int list \<Rightarrow> replay_limiter \<Rightarrow> replay_limiter \<times> (int \<times> bool) list" where
  "rl_calls key [] l = (l, [])"
| "rl_calls key (now # ts) l =
     (let (l', ok) = rl_allow key now l; (l'', rest) = rl_calls key ts l' in (l'', (now, ok) # rest))"

definition allowed_times :: "(int \<times> bool) list \<Rightarrow> int list" where
  "allowed_times calls = map fst (filter snd calls)"

definition recent_allowed :: "int \<Rightarrow> int \<Rightarrow> (int \<times> bool) list \<Rightarrow> int list" where
  "recent_allowed windowMs now calls = filter (\<lambda>t. now - t < windowMs) (allowed_times calls)"

lemma rl_calls_snoc:
  "rl_calls key (ts @ [now]) l =
     (let (l', calls) = rl_calls key ts l; (l'', ok) = rl_allow key now l' in (l'', calls @ [(now, ok)]))"
  by (induction ts arbitrary: l) (auto simp: Let_def split: prod.splits)

lemma rl_allow_frame [simp]:
  "rl_maxRequests (fst (rl_allow key now l)) = rl_maxRequests l" "rl_windowMs (fst (rl_allow key now l)) = rl_windowMs l"
  by (auto simp: rl_allow_def Let_def)

lemma rl_calls_frame:
  "rl_calls key ts l = (l', calls) \<Longrightarrow> rl_maxRequests l' = rl_maxRequests l \<and> rl_windowMs l' = rl_windowMs l"
proof (induction ts arbitrary: l calls)
  case (Cons now ts)
  obtain l1 ok where l1: "rl_allow key now l = (l1, ok)" by force
  obtain rest where "rl_calls key ts l1 = (l', rest)" using Cons.prems l1 by (auto split: prod.splits)
  from Cons.IH [OF this] rl_allow_frame [of key now l] l1 show ?case by simp
qed simp

lemma rl_calls_inv:
  assumes "sorted ts" "rl_calls key ts (newReplayRateLimiter maxRequests windowMs) = (l, calls)"
  shows "(\<forall>now. (\<forall>t \<in> set ts. t \<le> now) \<longrightarrow>
      filter (\<lambda>t. now - t < windowMs) (nullish (jm_get (rl_hits l) key) []) = recent_allowed windowMs now calls)
    \<and> (ts \<noteq> [] \<longrightarrow> length (recent_allowed windowMs (last ts) calls) \<le> maxRequests)"
  using assms
proof (induction ts arbitrary: l calls rule: rev_induct)
  case Nil
  then show ?case by (auto simp: newReplayRateLimiter_def recent_allowed_def allowed_times_def)
next
  case (snoc now ts)
  obtain l0 calls0 where c0: "rl_calls key ts (newReplayRateLimiter maxRequests windowMs) = (l0, calls0)" by force
  obtain ok where ok: "rl_allow key now l0 = (l, ok)" "calls = calls0 @ [(now, ok)]"
    using snoc.prems(2) c0 by (auto simp: rl_calls_snoc Let_def split: prod.splits)
  have s: "sorted ts" "\<forall>t \<in> set ts. t \<le> now" using snoc.prems(1) by (auto simp: sorted_append)
  have cfg: "rl_maxRequests l0 = maxRequests" "rl_windowMs l0 = windowMs"
    using rl_calls_frame [OF c0] by (auto simp: newReplayRateLimiter_def)
  define old where "old = recent_allowed windowMs now calls0"
  have hits: "filter (\<lambda>t. now - t < windowMs) (nullish (jm_get (rl_hits l0) key) []) = old"
    using snoc.IH [OF s(1) c0] s(2) by (simp add: old_def)
  have upd: "nullish (jm_get (rl_hits l) key) [] = (if ok then old @ [now] else old)"
    "ok \<longleftrightarrow> length old < maxRequests"
    using ok(1) hits by (auto simp: rl_allow_def Let_def cfg not_le split: if_splits)
  have oldle: "length old \<le> maxRequests"
  proof (cases "ts = []")
    case True
    then show ?thesis using c0 by (simp add: old_def recent_allowed_def allowed_times_def)
  next
    case False
    then have le: "last ts \<le> now" using s(2) by simp
    have "old = filter (\<lambda>t. now - t < windowMs) (recent_allowed windowMs (last ts) calls0)"
      using le by (auto simp: old_def recent_allowed_def intro!: filter_cong)
    then show ?thesis using snoc.IH [OF s(1) c0] False by (metis length_filter_le order_trans)
  qed
  have narrow: "filter (\<lambda>t. later - t < windowMs) old = filter (\<lambda>t. later - t < windowMs) (allowed_times calls0)"
    if "now \<le> later" for later
    using that by (auto simp: old_def recent_allowed_def intro!: filter_cong)
  have new: "recent_allowed windowMs later calls =
      filter (\<lambda>t. later - t < windowMs) (allowed_times calls0 @ (if ok then [now] else []))" for later
    by (simp add: recent_allowed_def allowed_times_def ok(2))
  have "length (recent_allowed windowMs now calls) \<le> maxRequests"
    unfolding new using upd(2) oldle by (auto simp: old_def recent_allowed_def not_less)
  then show ?case
    using upd(1) narrow by (auto simp: new)
qed

text \<open>
  A connection cannot replay faster than its limit: with calls in time order, at each call the
  number of allowed requests of that connection within the window ending there is at most the
  configured maximum.
\<close>

theorem replay_rate_limited:
  assumes "sorted (ts @ [now])"
    and "rl_calls key (ts @ [now]) (newReplayRateLimiter maxRequests windowMs) = (l, calls)"
  shows "length (filter (\<lambda>(t, ok). ok \<and> now - t < windowMs) calls) \<le> maxRequests"
proof -
  have "length (filter (\<lambda>(t, ok). ok \<and> now - t < windowMs) calls) = length (recent_allowed windowMs now calls)"
    by (induction calls) (auto simp: recent_allowed_def allowed_times_def)
  then show ?thesis using rl_calls_inv [OF assms] by simp
qed

theorem replay_rate_limited_witness:
  "length (filter (\<lambda>(t, ok). ok \<and> 30 - t < 100) (snd (rl_calls ''c'' ([10, 20, 25] @ [30]) (newReplayRateLimiter 2 100)))) \<le> 2"
  by (rule replay_rate_limited [OF _ surjective_pairing]) simp

subsection \<open>The buffer\<close>

definition buffer_bytes :: "('d \<Rightarrow> nat) \<Rightarrow> 'd buffered_message list \<Rightarrow> nat" where
  "buffer_bytes jl buffer = sum_list (map (messageBytes jl) buffer)"

text \<open>The running totals are the true totals.\<close>

definition rb_accounted :: "('d \<Rightarrow> nat) \<Rightarrow> 'd replay_buffer \<Rightarrow> bool" where
  "rb_accounted jl b \<longleftrightarrow> jm_wf (rb_buffers b) \<and> rb_totalMessages b = int (jm_sum length (rb_buffers b))
     \<and> rb_totalBytes b = int (jm_sum (buffer_bytes jl) (rb_buffers b))"

definition rb_same_limits :: "'d replay_buffer \<Rightarrow> 'd replay_buffer \<Rightarrow> bool" where
  "rb_same_limits b b' \<longleftrightarrow> rb_maxAssets b' = rb_maxAssets b \<and> rb_messagesPerAsset b' = rb_messagesPerAsset b
     \<and> rb_maxBytes b' = rb_maxBytes b"

abbreviation buffer_of :: "'d replay_buffer \<Rightarrow> string \<Rightarrow> 'd buffered_message list" where
  "buffer_of b asset \<equiv> nullish (jm_get (rb_buffers b) asset) []"

lemma buffer_bytes_simps [simp]:
  "buffer_bytes jl [] = 0" "buffer_bytes jl (m # ms) = messageBytes jl m + buffer_bytes jl ms"
  "buffer_bytes jl (ms @ ms') = buffer_bytes jl ms + buffer_bytes jl ms'"
  by (simp_all add: buffer_bytes_def)

lemma dropOldest_spec:
  assumes "rb_accounted jl b"
  shows "rb_accounted jl (dropOldest jl asset b)" "rb_same_limits b (dropOldest jl asset b)"
    "buffer_of (dropOldest jl asset b) asset = tl (buffer_of b asset)"
    "k \<noteq> asset \<Longrightarrow> jm_get (rb_buffers (dropOldest jl asset b)) k = jm_get (rb_buffers b) k"
    "jm_keys (rb_buffers (dropOldest jl asset b)) = jm_keys (rb_buffers b)"
proof -
  consider "buffer_of b asset = []" | m ms where "jm_get (rb_buffers b) asset = Some (m # ms)"
    by (cases "jm_get (rb_buffers b) asset"; cases "the (jm_get (rb_buffers b) asset)") auto
  then have "rb_accounted jl (dropOldest jl asset b) \<and> rb_same_limits b (dropOldest jl asset b)
    \<and> buffer_of (dropOldest jl asset b) asset = tl (buffer_of b asset)
    \<and> (\<forall>k. k \<noteq> asset \<longrightarrow> jm_get (rb_buffers (dropOldest jl asset b)) k = jm_get (rb_buffers b) k)
    \<and> jm_keys (rb_buffers (dropOldest jl asset b)) = jm_keys (rb_buffers b)"
  proof cases
    case 1
    then have "dropOldest jl asset b = b"
      by (auto simp: dropOldest_def split: option.splits)
    with 1 assms show ?thesis by (auto simp: rb_same_limits_def)
  next
    case 2
    have k: "asset \<in> set (jm_keys (rb_buffers b))" using 2 by (metis jm_get_None option.distinct(1))
    show ?thesis
      using assms 2 k jm_sum_set [of length "rb_buffers b" asset ms] jm_sum_set [of "buffer_bytes jl" "rb_buffers b" asset ms]
      by (simp add: dropOldest_def rb_accounted_def rb_same_limits_def jm_keys_set)
  qed
  then show "rb_accounted jl (dropOldest jl asset b)" "rb_same_limits b (dropOldest jl asset b)"
    "buffer_of (dropOldest jl asset b) asset = tl (buffer_of b asset)"
    "k \<noteq> asset \<Longrightarrow> jm_get (rb_buffers (dropOldest jl asset b)) k = jm_get (rb_buffers b) k"
    "jm_keys (rb_buffers (dropOldest jl asset b)) = jm_keys (rb_buffers b)" by auto
qed

lemma trim_asset_spec:
  assumes "rb_accounted jl b"
  shows "\<exists>b'. trim_asset jl asset b = Some b' \<and> rb_accounted jl b' \<and> rb_same_limits b b'
    \<and> length (buffer_of b' asset) \<le> rb_messagesPerAsset b'
    \<and> (\<forall>k. k \<noteq> asset \<longrightarrow> jm_get (rb_buffers b') k = jm_get (rb_buffers b) k)
    \<and> jm_keys (rb_buffers b') = jm_keys (rb_buffers b)"
  using assms
proof (induction "length (buffer_of b asset)" arbitrary: b rule: less_induct)
  case less
  show ?case
  proof (cases "length (buffer_of b asset) > rb_messagesPerAsset b")
    case True
    note d = dropOldest_spec [OF less.prems, where asset = asset]
    have "length (buffer_of (dropOldest jl asset b) asset) < length (buffer_of b asset)"
      unfolding d(3) using True by (cases "buffer_of b asset") auto
    from less.hyps [OF this d(1)] d(2,4,5) show ?thesis
      using True by (subst trim_asset.simps) (auto simp: rb_same_limits_def)
  next
    case False
    then show ?thesis using less.prems by (subst trim_asset.simps) (auto simp: rb_same_limits_def)
  qed
qed

lemma drop_from_oldest_spec:
  assumes "rb_accounted jl b" "rb_buffers b = (oldest, buf) # rest"
  defines "b' \<equiv> dropOldestFromOldestAsset jl b"
  shows "rb_accounted jl b'" "rb_same_limits b b'" "length (rb_buffers b') \<le> length (rb_buffers b)"
    "length (buffer_of b' k) \<le> length (buffer_of b k)"
    "jm_sum length (rb_buffers b') + length (rb_buffers b') < jm_sum length (rb_buffers b) + length (rb_buffers b)"
proof -
  let ?d = "dropOldest jl oldest b"
  note d = dropOldest_spec [OF assms(1), where asset = oldest]
  have buf: "jm_get (rb_buffers b) oldest = Some buf" by (simp add: assms(2) jm_get_Cons)
  have len: "length (rb_buffers ?d) = length (rb_buffers b)" using d(5) by (metis length_map)
  have wf: "jm_wf (rb_buffers ?d)" "jm_wf (rb_buffers b)" using d(1) assms(1) by (auto simp: rb_accounted_def)
  have leb: "length (buffer_of ?d k) \<le> length (buffer_of b k)" for k
    using d(3) d(4) by (cases "k = oldest") auto
  have sum: "jm_sum length (rb_buffers ?d) + (if buf = [] then 0 else 1) = jm_sum length (rb_buffers b)"
    using jm_sum_set [of length "rb_buffers b" oldest "tl buf"] buf
    by (cases buf) (auto simp: dropOldest_def)
  have "rb_accounted jl b' \<and> rb_same_limits b b' \<and> length (rb_buffers b') \<le> length (rb_buffers b)
    \<and> (\<forall>k. length (buffer_of b' k) \<le> length (buffer_of b k))
    \<and> jm_sum length (rb_buffers b') + length (rb_buffers b') < jm_sum length (rb_buffers b) + length (rb_buffers b)"
  proof (cases "jm_get (rb_buffers ?d) oldest = Some []")
    case True
    then have b': "b' = ?d\<lparr>rb_buffers := jm_delete (rb_buffers ?d) oldest\<rparr>"
      by (simp add: b'_def dropOldestFromOldestAsset_def assms(2) Let_def)
    have "length (jm_delete (rb_buffers ?d) oldest) = length (rb_buffers b) - 1" "0 < length (rb_buffers b)"
      using jm_length_delete [OF wf(1), of oldest] True len by (simp_all add: jm_has_def assms(2))
    moreover from this have "jm_sum length (rb_buffers ?d) + (length (rb_buffers b) - 1)
        < jm_sum length (rb_buffers b) + length (rb_buffers b)"
      using sum by (cases "buf = []") linarith+
    ultimately show ?thesis
      using d(1,2) leb jm_sum_delete [OF wf(1), of length oldest] jm_sum_delete [OF wf(1), of "buffer_bytes jl" oldest] True
      by (auto simp: b' rb_accounted_def rb_same_limits_def jm_get_delete)
  next
    case False
    then have b': "b' = ?d" by (simp add: b'_def dropOldestFromOldestAsset_def assms(2) Let_def)
    have "buf \<noteq> []" using False buf by (auto simp: dropOldest_def)
    then show ?thesis using d(1,2) sum leb len by (simp add: b')
  qed
  then show "rb_accounted jl b'" "rb_same_limits b b'" "length (rb_buffers b') \<le> length (rb_buffers b)"
    "length (buffer_of b' k) \<le> length (buffer_of b k)"
    "jm_sum length (rb_buffers b') + length (rb_buffers b') < jm_sum length (rb_buffers b) + length (rb_buffers b)" by auto
qed

lemma trim_bytes_spec:
  assumes "rb_accounted jl b"
  shows "\<exists>b'. trim_bytes jl b = Some b' \<and> rb_accounted jl b' \<and> rb_same_limits b b'
    \<and> rb_totalBytes b' \<le> int (rb_maxBytes b') \<and> length (rb_buffers b') \<le> length (rb_buffers b)
    \<and> (\<forall>k. length (buffer_of b' k) \<le> length (buffer_of b k))"
  using assms
proof (induction "jm_sum length (rb_buffers b) + length (rb_buffers b)" arbitrary: b rule: less_induct)
  case less
  show ?case
  proof (cases "rb_totalBytes b > int (rb_maxBytes b) \<and> rb_totalMessages b > 0")
    case True
    then obtain oldest buf rest where m: "rb_buffers b = (oldest, buf) # rest"
      using less.prems by (cases "rb_buffers b") (auto simp: rb_accounted_def)
    note d = drop_from_oldest_spec [OF less.prems m]
    from less.hyps [OF d(5,1)] d(2,3,4) show ?thesis
      using True by (subst trim_bytes.simps) (fastforce simp: rb_same_limits_def intro: order_trans)
  next
    case False
    have "jm_sum length m = 0 \<Longrightarrow> jm_sum (buffer_bytes jl) m = 0" for m :: "(string, 'a buffered_message list) js_map"
      by (induction m) auto
    then have "rb_totalBytes b \<le> int (rb_maxBytes b)"
      using False less.prems by (fastforce simp: rb_accounted_def)
    then show ?thesis using False less.prems by (subst trim_bytes.simps) (auto simp: rb_same_limits_def)
  qed
qed

definition rb_ok :: "('d \<Rightarrow> nat) \<Rightarrow> 'd replay_buffer \<Rightarrow> bool" where
  "rb_ok jl b \<longleftrightarrow> rb_accounted jl b \<and> (\<forall>k. length (buffer_of b k) \<le> rb_messagesPerAsset b)
     \<and> length (rb_buffers b) \<le> max 1 (rb_maxAssets b) \<and> rb_totalBytes b \<le> int (rb_maxBytes b)"

lemma jm_length_delete_set:
  "jm_get m k = Some v \<Longrightarrow> jm_wf m \<Longrightarrow> length (jm_set (jm_delete m k) k u) = length m"
proof -
  assume *: "jm_get m k = Some v" "jm_wf m"
  then have "m \<noteq> []" by auto
  with * show ?thesis
    using jm_length_delete [of m k] by (auto simp: jm_length_set jm_has_def jm_get_delete jm_get_None [symmetric])
qed

lemma jm_get_tl: "jm_wf m \<Longrightarrow> jm_get (tl m) k = jm_get m k \<or> jm_get (tl m) k = None"
  by (cases m) (auto simp: jm_get_Cons jm_wf_def jm_get_None)

lemma evictOldestAsset_spec:
  assumes "rb_accounted jl b"
  shows "rb_accounted jl (evictOldestAsset jl b)" "rb_buffers (evictOldestAsset jl b) = tl (rb_buffers b)"
    "rb_same_limits b (evictOldestAsset jl b)"
proof -
  have "rb_accounted jl (evictOldestAsset jl b) \<and> rb_buffers (evictOldestAsset jl b) = tl (rb_buffers b)
    \<and> rb_same_limits b (evictOldestAsset jl b)"
  proof (cases "rb_buffers b")
    case (Cons e m)
    obtain a buf where e: "e = (a, buf)" by force
    have "jm_wf m" "jm_get m a = None" using assms by (auto simp: rb_accounted_def Cons e jm_wf_def jm_get_None)
    then have "jm_delete (rb_buffers b) a = m" by (simp add: Cons e jm_delete_Cons jm_delete_absent)
    with \<open>jm_wf m\<close> assms show ?thesis
      by (simp add: evictOldestAsset_def Cons e rb_accounted_def rb_same_limits_def buffer_bytes_def)
  qed (use assms in \<open>simp add: evictOldestAsset_def rb_same_limits_def\<close>)
  then show "rb_accounted jl (evictOldestAsset jl b)" "rb_buffers (evictOldestAsset jl b) = tl (rb_buffers b)"
    "rb_same_limits b (evictOldestAsset jl b)" by auto
qed

lemma rb_touch_spec:
  assumes "rb_ok jl b"
  shows "rb_accounted jl (rb_touch jl asset b)" "rb_same_limits b (rb_touch jl asset b)"
    "length (buffer_of (rb_touch jl asset b) k) \<le> rb_messagesPerAsset b"
    "length (rb_buffers (rb_touch jl asset b)) \<le> max 1 (rb_maxAssets b)"
    "jm_get (rb_buffers (rb_touch jl asset b)) asset \<noteq> None"
proof -
  have b: "rb_accounted jl b" "\<And>k. length (buffer_of b k) \<le> rb_messagesPerAsset b"
    "length (rb_buffers b) \<le> max 1 (rb_maxAssets b)" and wf: "jm_wf (rb_buffers b)"
    using assms by (auto simp: rb_ok_def rb_accounted_def)
  have "rb_accounted jl (rb_touch jl asset b) \<and> rb_same_limits b (rb_touch jl asset b)
    \<and> (\<forall>k. length (buffer_of (rb_touch jl asset b) k) \<le> rb_messagesPerAsset b)
    \<and> length (rb_buffers (rb_touch jl asset b)) \<le> max 1 (rb_maxAssets b)
    \<and> jm_get (rb_buffers (rb_touch jl asset b)) asset \<noteq> None"
  proof (cases "jm_get (rb_buffers b) asset")
    case (Some buf)
    have len: "length (jm_set (jm_delete (rb_buffers b) asset) asset buf) = length (rb_buffers b)"
      by (rule jm_length_delete_set [OF Some wf])
    have sum: "jm_sum f (jm_set (jm_delete (rb_buffers b) asset) asset buf) = jm_sum f (rb_buffers b)" for f
      using jm_sum_set [of f "jm_delete (rb_buffers b) asset" asset buf] jm_sum_delete [OF wf, of f asset] Some
      by (simp add: jm_get_delete)
    have get: "jm_get (jm_set (jm_delete (rb_buffers b) asset) asset buf) k = jm_get (rb_buffers b) k" for k
      using Some by (simp add: jm_get_set jm_get_delete)
    show ?thesis using b wf Some by (simp add: rb_touch_def rb_accounted_def rb_same_limits_def len sum get)
  next
    case None
    define e where "e = (if length (rb_buffers b) \<ge> rb_maxAssets b then evictOldestAsset jl b else b)"
    note ev = evictOldestAsset_spec [OF b(1)]
    have e: "rb_accounted jl e" "rb_same_limits b e" using b(1) ev by (auto simp: rb_same_limits_def e_def)
    have sub: "jm_get (rb_buffers e) k = jm_get (rb_buffers b) k \<or> jm_get (rb_buffers e) k = None" for k
      using ev(2) jm_get_tl [OF wf, of k] by (auto simp: e_def)
    have lens: "length (buffer_of e k) \<le> rb_messagesPerAsset b" "jm_get (rb_buffers e) asset = None" for k
      using sub [of k] sub [of asset] b(2) [of k] None by auto
    have size: "Suc (length (rb_buffers e)) \<le> max 1 (rb_maxAssets b)"
      using b(3) ev(2) by (cases "rb_buffers b") (auto simp: e_def)
    have rt: "rb_touch jl asset b = e\<lparr>rb_buffers := jm_set (rb_buffers e) asset []\<rparr>"
      by (simp add: rb_touch_def None Let_def e_def)
    show ?thesis
      using e lens size jm_sum_set [of length "rb_buffers e" asset "[]"] jm_sum_set [of "buffer_bytes jl" "rb_buffers e" asset "[]"]
      by (simp add: rt rb_accounted_def rb_same_limits_def jm_get_set jm_length_set jm_has_def)
  qed
  then show "rb_accounted jl (rb_touch jl asset b)" "rb_same_limits b (rb_touch jl asset b)"
    "length (buffer_of (rb_touch jl asset b) k) \<le> rb_messagesPerAsset b"
    "length (rb_buffers (rb_touch jl asset b)) \<le> max 1 (rb_maxAssets b)"
    "jm_get (rb_buffers (rb_touch jl asset b)) asset \<noteq> None" by blast+
qed

lemma rb_append_spec:
  assumes "rb_accounted jl b" "jm_get (rb_buffers b) asset = Some buf"
  shows "rb_accounted jl (rb_append jl asset entry b)" "rb_same_limits b (rb_append jl asset entry b)"
    "k \<noteq> asset \<Longrightarrow> jm_get (rb_buffers (rb_append jl asset entry b)) k = jm_get (rb_buffers b) k"
    "length (rb_buffers (rb_append jl asset entry b)) = length (rb_buffers b)"
  using assms jm_sum_set [of length "rb_buffers b" asset "buf @ [entry]"]
    jm_sum_set [of "buffer_bytes jl" "rb_buffers b" asset "buf @ [entry]"] jm_get_None [of "rb_buffers b" asset]
  by (auto simp: rb_append_def rb_accounted_def rb_same_limits_def jm_length_set jm_has_def)

lemma rb_push_ok:
  assumes "rb_ok jl b"
  shows "\<exists>b'. rb_push jl asset entry b = Some b' \<and> rb_ok jl b' \<and> rb_same_limits b b'"
proof -
  let ?t = "rb_touch jl asset b"
  let ?a = "rb_append jl asset entry ?t"
  note t = rb_touch_spec [OF assms, where asset = asset]
  obtain buf where buf: "jm_get (rb_buffers ?t) asset = Some buf" using t(5) by auto
  note a = rb_append_spec [OF t(1) buf, where entry = entry]
  obtain b1 where b1: "trim_asset jl asset ?a = Some b1" "rb_accounted jl b1" "rb_same_limits ?a b1"
    "length (buffer_of b1 asset) \<le> rb_messagesPerAsset b1"
    "\<And>k. k \<noteq> asset \<Longrightarrow> jm_get (rb_buffers b1) k = jm_get (rb_buffers ?a) k"
    "jm_keys (rb_buffers b1) = jm_keys (rb_buffers ?a)"
    using trim_asset_spec [OF a(1), of asset] by blast
  obtain b2 where b2: "trim_bytes jl b1 = Some b2" "rb_accounted jl b2" "rb_same_limits b1 b2"
    "rb_totalBytes b2 \<le> int (rb_maxBytes b2)" "length (rb_buffers b2) \<le> length (rb_buffers b1)"
    "\<And>k. length (buffer_of b2 k) \<le> length (buffer_of b1 k)"
    using trim_bytes_spec [OF b1(2)] by blast
  have lims: "rb_same_limits b b1" "rb_same_limits b b2" using t(2) a(2) b1(3) b2(3) by (auto simp: rb_same_limits_def)
  have "length (buffer_of b1 k) \<le> rb_messagesPerAsset b" for k
    using b1(4,5) a(3) t(3) lims(1) by (cases "k = asset") (auto simp: rb_same_limits_def)
  moreover have "length (rb_buffers b1) \<le> max 1 (rb_maxAssets b)"
    using b1(6) a(4) t(4) by (metis length_map)
  moreover have "rb_messagesPerAsset b2 = rb_messagesPerAsset b" "rb_maxAssets b2 = rb_maxAssets b"
    using lims(2) by (auto simp: rb_same_limits_def)
  ultimately have "rb_ok jl b2"
    using b2(2,4,5) order_trans [OF b2(6)] by (simp add: rb_ok_def)
  then show ?thesis using b1(1) b2(1) lims(2) by (simp add: rb_push_def)
qed

fun rb_pushes :: "('d \<Rightarrow> nat) \<Rightarrow> (string \<times> 'd buffered_message) list \<Rightarrow> 'd replay_buffer \<Rightarrow> 'd replay_buffer option" where
  "rb_pushes jl [] b = Some b"
| "rb_pushes jl ((asset, entry) # es) b = Option.bind (rb_push jl asset entry b) (rb_pushes jl es)"

lemma rb_pushes_ok: "rb_ok jl b \<Longrightarrow> \<exists>b'. rb_pushes jl es b = Some b' \<and> rb_ok jl b' \<and> rb_same_limits b b'"
proof (induction es arbitrary: b)
  case (Cons e es)
  obtain asset entry where e: "e = (asset, entry)" by force
  obtain b1 where "rb_push jl asset entry b = Some b1" "rb_ok jl b1" "rb_same_limits b b1"
    using rb_push_ok [OF Cons.prems] by blast
  with Cons.IH [of b1] show ?case by (auto simp: e rb_same_limits_def)
qed (simp add: rb_same_limits_def)

text \<open>
  (C15) The replay buffer has a fixed ceiling: any sequence of pushes completes (both trimming loops
  end), the running totals equal what is stored, and the stored messages stay within the byte budget,
  the per-asset message limit and the asset limit.
\<close>

theorem replay_buffer_bounded:
  "\<exists>b. rb_pushes jl es (newReplayBuffer maxAssets messagesPerAsset maxBytes) = Some b
     \<and> rb_totalMessages b = int (sum_list (map length (jm_values (rb_buffers b))))
     \<and> rb_totalBytes b = int (sum_list (map (messageBytes jl) (concat (jm_values (rb_buffers b)))))
     \<and> rb_totalBytes b \<le> int maxBytes \<and> length (rb_buffers b) \<le> max 1 maxAssets
     \<and> list_all (\<lambda>buffer. length buffer \<le> messagesPerAsset) (jm_values (rb_buffers b))"
proof -
  have "rb_ok jl (newReplayBuffer maxAssets messagesPerAsset maxBytes)"
    by (simp add: rb_ok_def rb_accounted_def newReplayBuffer_def)
  from rb_pushes_ok [OF this, of es] obtain b where
    b: "rb_pushes jl es (newReplayBuffer maxAssets messagesPerAsset maxBytes) = Some b" "rb_ok jl b"
      "rb_maxAssets b = maxAssets" "rb_messagesPerAsset b = messagesPerAsset" "rb_maxBytes b = maxBytes"
    by (auto simp: rb_same_limits_def newReplayBuffer_def)
  have "sum_list (map (messageBytes jl) (concat bufs)) = sum_list (map (buffer_bytes jl) bufs)" for bufs
    by (induction bufs) (auto simp: buffer_bytes_def)
  moreover have "list_all (\<lambda>buffer. length buffer \<le> messagesPerAsset) (jm_values (rb_buffers b))"
    unfolding list_all_iff
  proof
    fix buf
    assume "buf \<in> set (jm_values (rb_buffers b))"
    moreover have "jm_wf (rb_buffers b)" using b(2) by (simp add: rb_ok_def rb_accounted_def)
    ultimately obtain k where "jm_get (rb_buffers b) k = Some buf" using jm_values_get [of buf "rb_buffers b"] by blast
    moreover have "length (buffer_of b k) \<le> rb_messagesPerAsset b" using b(2) unfolding rb_ok_def by blast
    ultimately show "length buf \<le> messagesPerAsset" using b(4) by simp
  qed
  ultimately show ?thesis
    using b unfolding rb_ok_def rb_accounted_def jm_sum_def by (intro exI [of _ b]) simp
qed

end
