(* ===== verification/Rate_Limits.thy ===== *)
theory Rate_Limits
  imports Js_Prelude
begin

text \<open>
  Request rate limits of the API: the tier table (\<open>api/src/platform/limit-model.ts\<close>), the per-key
  tenant window (\<open>api/src/platform/tenant-window.ts\<close>) and the layered limiter
  (\<open>api/src/platform/rate-limiter.ts\<close>).

  The clock and the window length are arguments. Redis is not under the sources: its reply to a call is
  an argument (\<open>None\<close> when there is no store or the call failed). Both modules count locally in the
  same way; the locale \<open>window_counter\<close> is that contract, and each module's counter interprets it.
\<close>

subsection \<open>Fixed-window counters\<close>

record window_entry =
  we_windowStart :: int
  we_count :: nat

locale window_counter =
  fixes bump :: "'s \<Rightarrow> 'k \<Rightarrow> int \<Rightarrow> 's \<times> nat"
    and entry :: "'s \<Rightarrow> 'k \<Rightarrow> window_entry option"
    and inv :: "'s \<Rightarrow> bool"
  assumes bump_inv: "inv s \<Longrightarrow> inv (fst (bump s k w))"
    and bump_count: "inv s \<Longrightarrow> snd (bump s k w) =
      (case entry s k of None \<Rightarrow> 1 | Some e \<Rightarrow> if we_windowStart e = w then we_count e + 1 else 1)"
    and bump_entry: "inv s \<Longrightarrow> entry (fst (bump s k w)) k = Some \<lparr>we_windowStart = w, we_count = snd (bump s k w)\<rparr>"
    and bump_other: "inv s \<Longrightarrow> k' \<noteq> k \<Longrightarrow> entry (fst (bump s k w)) k' = entry s k' \<or>
      (entry (fst (bump s k w)) k' = None \<and> (\<forall>e. entry s k' = Some e \<longrightarrow> we_windowStart e \<noteq> w))"
begin

definition seen :: "'s \<Rightarrow> 'k \<Rightarrow> int \<Rightarrow> nat" where
  "seen s k w = (case entry s k of None \<Rightarrow> 0 | Some e \<Rightarrow> if we_windowStart e = w then we_count e else 0)"

definition bumps :: "('k \<times> int) list \<Rightarrow> 's \<Rightarrow> 's" where
  "bumps es s = fold (\<lambda>(k, w) s. fst (bump s k w)) es s"

lemma bump_seen: "inv s \<Longrightarrow> snd (bump s k w) = seen s k w + 1"
  by (simp add: bump_count seen_def split: option.split)

lemma count_list_later: "\<forall>e \<in> set es. snd e < w \<Longrightarrow> count_list es (k, w :: int) = 0"
  by (induction es) auto

lemma seen_step:
  assumes "inv s" "\<And>k w'. w \<le> w' \<Longrightarrow> seen s k w' = count_list es (k, w')" "\<forall>e \<in> set es. snd e \<le> w" "w \<le> w'"
  shows "seen (fst (bump s k1 w)) k w' = count_list (es @ [(k1, w)]) (k, w')"
proof -
  have zero: "w' \<noteq> w \<Longrightarrow> count_list es (k, w') = 0" for k
    using assms(3,4) by (intro count_list_later) fastforce
  show ?thesis
  proof (cases "k = k1")
    case True
    have "seen (fst (bump s k1 w)) k1 w' = (if w' = w then seen s k1 w + 1 else 0)"
      using bump_seen [OF assms(1), of k1 w] by (simp add: seen_def bump_entry [OF assms(1)])
    then show ?thesis using True assms(2) [of w k1] zero [of k1] by auto
  next
    case False
    from bump_other [OF assms(1) False, of w] show ?thesis
    proof
      assume "entry (fst (bump s k1 w)) k = entry s k"
      then have "seen (fst (bump s k1 w)) k w' = seen s k w'" by (simp add: seen_def)
      with assms(2) [OF assms(4)] False show ?thesis by auto
    next
      assume *: "entry (fst (bump s k1 w)) k = None \<and> (\<forall>e. entry s k = Some e \<longrightarrow> we_windowStart e \<noteq> w)"
      then have "seen s k w = 0" by (auto simp: seen_def split: option.split)
      with * zero [of k] assms(2) [of w k] False show ?thesis by (cases "w' = w") (auto simp: seen_def)
    qed
  qed
qed

lemma bumps_inv: "inv s \<Longrightarrow> inv (bumps es s)"
  by (induction es arbitrary: s) (auto simp: bumps_def bump_inv)

lemma bumps_seen:
  assumes "inv s0" "\<And>k. entry s0 k = None" "sorted (map snd es)" "\<forall>e \<in> set es. snd e \<le> w"
  shows "seen (bumps es s0) k w = count_list es (k, w)"
  using assms(3,4)
proof (induction es arbitrary: k w rule: rev_induct)
  case Nil
  then show ?case by (simp add: bumps_def seen_def assms(2))
next
  case (snoc e es)
  obtain k1 w1 where e: "e = (k1, w1)" by force
  have le: "\<forall>e \<in> set es. snd e \<le> w1" "w1 \<le> w"
    using snoc.prems by (force simp: sorted_append e)+
  have "seen (fst (bump (bumps es s0) k1 w1)) k w = count_list (es @ [(k1, w1)]) (k, w)"
    by (rule seen_step [OF bumps_inv [OF assms(1)] snoc.IH]) (use snoc.prems le in \<open>force simp: sorted_append\<close>)+
  then show ?case by (simp add: bumps_def e)
qed

text \<open>The number reported by a hit is the number of hits of that key in that window so far.\<close>

lemma bump_exact:
  assumes "inv s0" "\<And>k. entry s0 k = None" "sorted (map snd es @ [w])"
  shows "snd (bump (bumps es s0) k w) = count_list es (k, w) + 1"
  using bumps_seen [OF assms(1,2), of es w k] bumps_inv [OF assms(1)] assms(3)
  by (auto simp: bump_seen sorted_append)

end

subsection \<open>Tier limits\<close>

datatype rate_tier = Free | Pro | Enterprise | Admin

fun TIER_RATE_LIMITS :: "rate_tier \<Rightarrow> int" where
  "TIER_RATE_LIMITS Free = 60"
| "TIER_RATE_LIMITS Pro = 500"
| "TIER_RATE_LIMITS Enterprise = 10000"
| "TIER_RATE_LIMITS Admin = 100000"

fun TIER_RATE_LIMIT_CEILINGS :: "rate_tier \<Rightarrow> int" where
  "TIER_RATE_LIMIT_CEILINGS Free = 600"
| "TIER_RATE_LIMIT_CEILINGS Pro = 5000"
| "TIER_RATE_LIMIT_CEILINGS Enterprise = 50000"
| "TIER_RATE_LIMIT_CEILINGS Admin = 100000"

definition ceilingForTier :: "rate_tier \<Rightarrow> int" where
  "ceilingForTier tier = TIER_RATE_LIMIT_CEILINGS tier"

definition effectiveTenantLimit :: "rate_tier \<Rightarrow> js_num option \<Rightarrow> int" where
  "effectiveTenantLimit tier requested =
     (let tierDefault = TIER_RATE_LIMITS tier
      in case requested of
           Some (Fin r) \<Rightarrow>
             (let floored = \<lfloor>r\<rfloor>
              in if floored < 0 then tierDefault else min floored (TIER_RATE_LIMIT_CEILINGS tier))
         | _ \<Rightarrow> tierDefault)"

record override_decision =
  od_requested :: int
  od_effective :: int
  od_ceiling :: int
  od_clamped :: bool

definition clampOverride :: "rate_tier \<Rightarrow> rat \<Rightarrow> override_decision" where
  "clampOverride tier requested =
     (let ceiling = TIER_RATE_LIMIT_CEILINGS tier; normalized = \<lfloor>requested\<rfloor>; effective = min normalized ceiling
      in \<lparr>od_requested = normalized, od_effective = effective, od_ceiling = ceiling, od_clamped = (effective \<noteq> normalized)\<rparr>)"

subsection \<open>Tenant window\<close>

record tenant_window =
  tw_local :: "(string, window_entry) js_map"
  tw_store :: bool

definition newTenantWindow :: "bool \<Rightarrow> tenant_window" where
  "newTenantWindow store = \<lparr>tw_local = [], tw_store = store\<rparr>"

record consume_result =
  cr_allowed :: bool
  cr_limit :: int
  cr_remaining :: int
  cr_consumed :: nat
  cr_reset :: int
  cr_shared :: bool

definition windowStartOf :: "int \<Rightarrow> int \<Rightarrow> int" where
  "windowStartOf windowMs now = now - now mod windowMs"

definition resetOf :: "int \<Rightarrow> int \<Rightarrow> int" where
  "resetOf windowMs windowStart = \<lceil>of_int (windowStart + windowMs) / (1000 :: rat)\<rceil>"

definition tw_prune :: "int \<Rightarrow> tenant_window \<Rightarrow> tenant_window" where
  "tw_prune windowStart t = t\<lparr>tw_local := filter (\<lambda>(_, e). \<not> we_windowStart e \<noteq> windowStart) (tw_local t)\<rparr>"

definition tw_count :: "tenant_window \<Rightarrow> string \<Rightarrow> int \<Rightarrow> tenant_window \<times> nat" where
  "tw_count t identity windowStart =
     (let current = jm_get (tw_local t) identity;
          count = (case current of None \<Rightarrow> 1
                     | Some e \<Rightarrow> if we_windowStart e \<noteq> windowStart then 1 else we_count e + 1);
          t' = t\<lparr>tw_local := jm_set (tw_local t) identity \<lparr>we_windowStart = windowStart, we_count = count\<rparr>\<rparr>
      in (if length (tw_local t') > 5000 then tw_prune windowStart t' else t', count))"

definition tw_consume :: "int \<Rightarrow> int \<Rightarrow> nat option \<Rightarrow> string \<Rightarrow> int \<Rightarrow> tenant_window \<Rightarrow> tenant_window \<times> consume_result" where
  "tw_consume windowMs now reply identity limit t =
     (let windowStart = windowStartOf windowMs now; reset = resetOf windowMs windowStart;
          shared = (tw_store t \<and> reply \<noteq> None);
          (t', count) = (case (tw_store t, reply) of (True, Some c) \<Rightarrow> (t, c)
                          | _ \<Rightarrow> tw_count t identity windowStart)
      in (t', \<lparr>cr_allowed = (int count \<le> limit), cr_limit = limit, cr_remaining = max 0 (limit - int count),
               cr_consumed = count, cr_reset = reset, cr_shared = shared\<rparr>))"

subsection \<open>Layered limiter\<close>

datatype layer = Global | Ip | Endpoint

record decision =
  dc_allowed :: bool
  dc_layer :: layer
  dc_limit :: int
  dc_remaining :: int
  dc_reset :: int
  dc_consumed :: nat
  dc_degraded :: bool

fun baseLimits :: "int \<Rightarrow> layer \<Rightarrow> int" where
  "baseLimits rateLimitMax Global = rateLimitMax * 10"
| "baseLimits rateLimitMax Ip = rateLimitMax"
| "baseLimits rateLimitMax Endpoint = max 10 (rateLimitMax div 2)"

definition setSystemLoadPressure :: "js_num \<Rightarrow> rat \<Rightarrow> rat" where
  "setSystemLoadPressure pressure systemLoadPressure =
     (case pressure of NaN \<Rightarrow> systemLoadPressure | PosInf \<Rightarrow> 3 / 2 | NegInf \<Rightarrow> 0
        | Fin p \<Rightarrow> min (3 / 2) (max 0 p))"

definition pressureMultiplier :: "rat \<Rightarrow> rat" where
  "pressureMultiplier systemLoadPressure =
     (if systemLoadPressure > 4 / 5 then 3 / 4 else if systemLoadPressure < 3 / 10 then 11 / 10 else 1)"

definition regionMultiplier :: "string option \<Rightarrow> string option \<Rightarrow> rat" where
  "regionMultiplier geoRegion cfCountry =
     (let nonempty = (\<lambda>h. case h of None \<Rightarrow> None | Some s \<Rightarrow> if s = [] then None else Some s);
          region = js_toUpperCase (nullish (nonempty geoRegion) (nullish (nonempty cfCountry) ''''))
      in if region \<in> set [''CN'', ''RU'', ''KP''] then 1 / 2
         else if region \<in> set [''AF'', ''OC'', ''SA''] then 5 / 4 else 1)"

definition adjustedLimit :: "int \<Rightarrow> rat \<Rightarrow> rat \<Rightarrow> layer \<Rightarrow> bool \<Rightarrow> int" where
  "adjustedLimit rateLimitMax regionMul pressure layer degraded =
     (let degradation = (if degraded then 1 / 2 else 1)
      in max 1 \<lfloor>of_int (baseLimits rateLimitMax layer) * regionMul * pressureMultiplier pressure * degradation\<rfloor>)"

type_synonym counter_mirror = "(string, window_entry) js_map"

text \<open>A reply of the store: the value after INCR, and the value after INCRBY of a given amount.\<close>

record redis_reply =
  rr_incr :: nat
  rr_incrby :: "nat \<Rightarrow> nat"

definition increment_local :: "counter_mirror \<Rightarrow> string \<Rightarrow> int \<Rightarrow> counter_mirror \<times> nat" where
  "increment_local windows key windowStart =
     (case jm_get windows key of
        None \<Rightarrow> (jm_set windows key \<lparr>we_windowStart = windowStart, we_count = 1\<rparr>, 1)
      | Some current \<Rightarrow>
          if we_windowStart current \<noteq> windowStart
          then (jm_set windows key \<lparr>we_windowStart = windowStart, we_count = 1\<rparr>, 1)
          else (jm_set windows key (current\<lparr>we_count := we_count current + 1\<rparr>), we_count current + 1))"

definition increment :: "redis_reply option \<Rightarrow> counter_mirror \<Rightarrow> string \<Rightarrow> int \<Rightarrow> counter_mirror \<times> nat" where
  "increment reply windows key windowStart =
     (case reply of
        None \<Rightarrow> increment_local windows key windowStart
      | Some r \<Rightarrow>
          let count = (case jm_get windows key of
                         None \<Rightarrow> rr_incr r
                       | Some mirrored \<Rightarrow>
                           if we_windowStart mirrored = windowStart \<and> we_count mirrored + 1 > rr_incr r
                           then rr_incrby r (we_count mirrored + 1 - rr_incr r) else rr_incr r)
          in (jm_set windows key \<lparr>we_windowStart = windowStart, we_count = count\<rparr>, count))"

definition readCount :: "nat option \<Rightarrow> counter_mirror \<Rightarrow> string \<Rightarrow> int \<Rightarrow> nat option" where
  "readCount reply windows key windowStart =
     (case reply of
        Some raw \<Rightarrow> Some raw
      | None \<Rightarrow> (case jm_get windows key of
                   Some current \<Rightarrow> if we_windowStart current = windowStart then Some (we_count current) else None
                 | None \<Rightarrow> None))"

definition stricter :: "decision option \<Rightarrow> decision \<Rightarrow> decision" where
  "stricter cur candidate =
     (case cur of
        None \<Rightarrow> candidate
      | Some current \<Rightarrow>
          if dc_allowed current \<noteq> dc_allowed candidate then (if dc_allowed current then candidate else current)
          else if \<not> dc_allowed current then current
          else if dc_remaining candidate < dc_remaining current then candidate else current)"

record block_entry =
  bl_expires :: int
  bl_decision :: decision

type_synonym block_cache = "(string, block_entry) js_map"

definition BLOCK_CACHE_TTL_MS :: int where "BLOCK_CACHE_TTL_MS = 50"

definition BLOCK_CACHE_MAX_ENTRIES :: nat where "BLOCK_CACHE_MAX_ENTRIES = 5000"

function drop_to_capacity :: "block_cache \<Rightarrow> block_cache" where
  "drop_to_capacity blockCache =
     (if length blockCache \<ge> BLOCK_CACHE_MAX_ENTRIES
      then case blockCache of [] \<Rightarrow> [] | e # _ \<Rightarrow> drop_to_capacity (jm_delete blockCache (fst e))
      else blockCache)"
  by pat_completeness auto
termination
  by (relation "measure length") (auto simp: jm_delete_def less_Suc_eq_le intro: le_trans [OF length_filter_le])

declare drop_to_capacity.simps [simp del]

definition setBlockCache :: "string \<Rightarrow> int \<Rightarrow> decision \<Rightarrow> block_cache \<Rightarrow> block_cache" where
  "setBlockCache cacheKey now decision blockCache =
     (let pruned = (if length blockCache \<ge> BLOCK_CACHE_MAX_ENTRIES
                    then drop_to_capacity (filter (\<lambda>(_, e). \<not> bl_expires e \<le> now) blockCache) else blockCache)
      in jm_set pruned cacheKey \<lparr>bl_expires = now + BLOCK_CACHE_TTL_MS, bl_decision = decision\<rparr>)"

datatype limiter_error = UndefinedCache

text \<open>
  \<open>evaluate\<close> reads the identifier \<open>cache\<close>, which the module does not declare, in the first turn of its
  loop and before any counter is touched: every evaluation throws.
\<close>

definition rl_evaluate :: "limiter_error + decision" where
  "rl_evaluate = Inl UndefinedCache"

definition distributedRateLimiter :: "string \<Rightarrow> limiter_error + unit" where
  "distributedRateLimiter path =
     (if path = ''/metrics'' then Inr () else case rl_evaluate of Inl e \<Rightarrow> Inl e | Inr _ \<Rightarrow> Inr ())"

subsection \<open>Counting is exact\<close>

lemma jm_get_filter:
  "jm_wf m \<Longrightarrow> jm_get (filter P m) k = (case jm_get m k of None \<Rightarrow> None | Some v \<Rightarrow> if P (k, v) then Some v else None)"
proof (induction m)
  case (Cons e m)
  then have "jm_wf m" "jm_get m (fst e) = None" by (auto simp: jm_wf_def jm_get_None)
  with Cons.IH show ?case by (cases e) (auto simp: jm_get_Cons)
qed simp

interpretation tw: window_counter tw_count "\<lambda>t. jm_get (tw_local t)" "\<lambda>t. jm_wf (tw_local t)"
proof
  fix s :: tenant_window and k w k'
  assume wf: "jm_wf (tw_local s)"
  let ?m = "jm_set (tw_local s) k \<lparr>we_windowStart = w, we_count = snd (tw_count s k w)\<rparr>"
  have fst: "tw_local (fst (tw_count s k w)) =
      (if length ?m > 5000 then filter (\<lambda>(_, e). we_windowStart e = w) ?m else ?m)"
    by (simp add: tw_count_def tw_prune_def Let_def)
  have m: "jm_wf ?m" using wf by simp
  show "jm_wf (tw_local (fst (tw_count s k w)))"
    using m by (auto simp: fst jm_wf_def distinct_map_filter)
  show "snd (tw_count s k w) = (case jm_get (tw_local s) k of None \<Rightarrow> 1
      | Some e \<Rightarrow> if we_windowStart e = w then we_count e + 1 else 1)"
    by (simp add: tw_count_def Let_def split: option.split)
  show "jm_get (tw_local (fst (tw_count s k w))) k = Some \<lparr>we_windowStart = w, we_count = snd (tw_count s k w)\<rparr>"
    by (simp add: fst jm_get_filter [OF m])
  show "jm_get (tw_local (fst (tw_count s k w))) k' = jm_get (tw_local s) k' \<or>
      (jm_get (tw_local (fst (tw_count s k w))) k' = None \<and> (\<forall>e. jm_get (tw_local s) k' = Some e \<longrightarrow> we_windowStart e \<noteq> w))"
    if "k' \<noteq> k"
    using that by (auto simp: fst jm_get_filter [OF m] split: option.splits)
qed

interpretation mirror: window_counter increment_local jm_get "\<lambda>_. True"
  by unfold_locales (auto simp: increment_local_def split: option.splits)

lemma windowStartOf_mono: "0 < windowMs \<Longrightarrow> a \<le> b \<Longrightarrow> windowStartOf windowMs a \<le> windowStartOf windowMs b"
proof -
  assume "0 < windowMs" "a \<le> b"
  then have "windowMs * (a div windowMs) \<le> windowMs * (b div windowMs)"
    by (simp add: zdiv_mono1)
  then show ?thesis by (simp add: windowStartOf_def minus_mod_eq_mult_div)
qed

fun tw_calls :: "int \<Rightarrow> int \<Rightarrow> (int \<times> string) list \<Rightarrow> tenant_window \<Rightarrow> tenant_window" where
  "tw_calls windowMs limit [] t = t"
| "tw_calls windowMs limit ((now, identity) # cs) t =
     tw_calls windowMs limit cs (fst (tw_consume windowMs now None identity limit t))"

lemma tw_calls_bumps:
  "tw_calls windowMs limit cs t = tw.bumps (map (\<lambda>(now, i). (i, windowStartOf windowMs now)) cs) t"
proof (induction cs arbitrary: t)
  case (Cons c cs)
  then show ?case
    by (cases c) (auto simp: tw.bumps_def tw_consume_def Let_def split: prod.splits bool.splits)
qed (simp add: tw.bumps_def)

text \<open>
  (C16) Without a shared store the tenant window counts exactly: whatever other keys do and however
  often the map is pruned, a request is allowed if and only if the requests of its key in its window,
  itself included, do not exceed the limit.
\<close>

theorem tenant_window_exact:
  assumes "0 < windowMs" "sorted (map fst calls @ [now])"
  shows "let n = length (filter (\<lambda>(t, i). i = identity \<and> windowStartOf windowMs t = windowStartOf windowMs now) calls) + 1;
           r = snd (tw_consume windowMs now None identity limit (tw_calls windowMs limit calls (newTenantWindow store)))
     in cr_consumed r = n \<and> (cr_allowed r \<longleftrightarrow> int n \<le> limit) \<and> cr_remaining r = max 0 (limit - int n)"
proof -
  let ?es = "map (\<lambda>(t, i). (i, windowStartOf windowMs t)) calls"
  have "sorted (map snd ?es @ [windowStartOf windowMs now])"
    using assms by (auto simp: sorted_append windowStartOf_mono sorted_wrt_map split_beta
        intro: sorted_wrt_mono_rel [of _ "\<lambda>x y. fst x \<le> fst y"])
  then have "snd (tw_count (tw.bumps ?es (newTenantWindow store)) identity (windowStartOf windowMs now)) =
      count_list ?es (identity, windowStartOf windowMs now) + 1"
    by (intro tw.bump_exact) (auto simp: newTenantWindow_def)
  moreover have "count_list ?es (identity, windowStartOf windowMs now) =
      length (filter (\<lambda>(t, i). i = identity \<and> windowStartOf windowMs t = windowStartOf windowMs now) calls)"
    by (induction calls) auto
  ultimately show ?thesis
    by (auto simp: tw_calls_bumps tw_consume_def Let_def split: prod.splits bool.splits)
qed

theorem tenant_window_exact_witness:
  "cr_consumed (snd (tw_consume 1000 1999 None ''k'' 2 (tw_calls 1000 2 [(900, ''k''), (1100, ''k''), (1200, ''j'')] (newTenantWindow False)))) = 2"
  using tenant_window_exact [of 1000 "[(900, ''k''), (1100, ''k''), (1200, ''j'')]" 1999 "''k''" 2 False]
  by (simp add: windowStartOf_def Let_def)

text \<open>
  The enforced tenant limit is never negative and never above the ceiling of its tier, whatever
  value is stored; a whole non-negative value up to the ceiling (zero included) is enforced as it is,
  and anything that is not a finite non-negative number falls back to the tier default.
\<close>

theorem effective_limit_within_tier:
  "0 \<le> effectiveTenantLimit tier requested \<and> effectiveTenantLimit tier requested \<le> ceilingForTier tier
   \<and> (\<forall>n. 0 \<le> n \<and> n \<le> ceilingForTier tier \<longrightarrow> effectiveTenantLimit tier (Some (Fin (of_int n))) = n)
   \<and> (\<forall>r. r < 0 \<longrightarrow> effectiveTenantLimit tier (Some (Fin r)) = TIER_RATE_LIMITS tier)
   \<and> effectiveTenantLimit tier None = TIER_RATE_LIMITS tier \<and> effectiveTenantLimit tier (Some NaN) = TIER_RATE_LIMITS tier"
proof -
  have t: "0 \<le> TIER_RATE_LIMITS tier" "TIER_RATE_LIMITS tier \<le> TIER_RATE_LIMIT_CEILINGS tier"
    "0 \<le> TIER_RATE_LIMIT_CEILINGS tier" by (cases tier; simp)+
  then show ?thesis
    by (auto simp: effectiveTenantLimit_def ceilingForTier_def Let_def split: option.split js_num.split)
qed

theorem effective_limit_within_tier_witness:
  "effectiveTenantLimit Free (Some (Fin (of_int 0))) = 0 \<and> effectiveTenantLimit Pro (Some (Fin (- 1))) = 500"
proof
  have "\<forall>n. 0 \<le> n \<and> n \<le> ceilingForTier Free \<longrightarrow> effectiveTenantLimit Free (Some (Fin (of_int n))) = n"
    using effective_limit_within_tier [of Free] by blast
  then show "effectiveTenantLimit Free (Some (Fin (of_int 0))) = 0"
    by (simp only: ceilingForTier_def TIER_RATE_LIMIT_CEILINGS.simps) fastforce
  show "effectiveTenantLimit Pro (Some (Fin (- 1))) = 500"
    using effective_limit_within_tier [of Pro] by simp
qed

text \<open>
  The layered limiter never forgets usage: whether the store answers, fails or has lost its
  counter, the count charged to a request exceeds the last count known locally for the same key and
  window. INCRBY is assumed to return at least the INCR result plus the amount added.
\<close>

theorem increment_never_forgets:
  assumes "\<And>r d. reply = Some r \<Longrightarrow> rr_incr r + d \<le> rr_incrby r d"
    and "jm_get windows key = Some e" "we_windowStart e = windowStart"
    and "increment reply windows key windowStart = (windows', n)"
  shows "we_count e < n \<and> jm_get windows' key = Some \<lparr>we_windowStart = windowStart, we_count = n\<rparr>"
proof (cases reply)
  case None
  with assms(2-4) show ?thesis
    by (auto simp: increment_def increment_local_def split: if_splits)
next
  case (Some r)
  with assms(1) [OF Some, of "we_count e + 1 - rr_incr r"] assms(2-4) show ?thesis
    by (auto simp: increment_def Let_def split: if_splits)
qed

theorem increment_never_forgets_witness:
  "7 < snd (increment (Some \<lparr>rr_incr = 1, rr_incrby = (\<lambda>d. 1 + d)\<rparr>) [(''k'', \<lparr>we_windowStart = 0, we_count = 7\<rparr>)] ''k'' 0)"
  by (rule increment_never_forgets [where e = "\<lparr>we_windowStart = 0, we_count = 7\<rparr>", OF _ _ _ surjective_pairing, THEN conjunct1, simplified])
    (auto simp: jm_get_Cons)

end
