(* ===== verification/Db_Breaker.thy ===== *)
theory Db_Breaker
  imports Js_Prelude "HOL-Library.Sublist"
begin

text \<open>
  The database circuit breaker, \<open>api/src/infrastructure/db-circuit-breaker.ts\<close>.

  \<open>execute\<close> awaits the operation, so it is split there: \<open>db_begin\<close> decides whether the operation runs,
  \<open>db_settle\<close> records its outcome. The result of the operation itself is passed through and left out.
\<close>

datatype db_state = DbClosed | DbOpen | DbHalfOpen

record db_config =
  db_enabled :: bool
  db_failureThreshold :: nat
  db_successThreshold :: nat
  db_openMs :: int

datatype db_error = CircuitOpenError

record db_breaker =
  dbb_state :: db_state
  dbb_failures :: nat
  dbb_successes :: nat
  dbb_openedAt :: int
  dbb_config :: db_config

definition newDbCircuitBreaker :: "db_config \<Rightarrow> db_breaker" where
  "newDbCircuitBreaker config =
     \<lparr>dbb_state = DbClosed, dbb_failures = 0, dbb_successes = 0, dbb_openedAt = 0, dbb_config = config\<rparr>"

definition getStateCode :: "db_breaker \<Rightarrow> nat" where
  "getStateCode b = (if dbb_state b = DbClosed then 0 else if dbb_state b = DbHalfOpen then 1 else 2)"

definition db_transitionTo :: "int \<Rightarrow> db_state \<Rightarrow> db_breaker \<Rightarrow> db_breaker" where
  "db_transitionTo now st b =
     (if dbb_state b = st then b
      else let b' = b\<lparr>dbb_state := st, dbb_failures := 0, dbb_successes := 0\<rparr>
           in if st = DbOpen then b'\<lparr>dbb_openedAt := now\<rparr> else b')"

definition db_onSuccess :: "int \<Rightarrow> db_breaker \<Rightarrow> db_breaker" where
  "db_onSuccess now b =
     (if dbb_state b = DbHalfOpen
      then let b' = b\<lparr>dbb_successes := dbb_successes b + 1\<rparr>
           in if dbb_successes b' \<ge> db_successThreshold (dbb_config b') then db_transitionTo now DbClosed b' else b'
      else b\<lparr>dbb_failures := 0\<rparr>)"

definition db_onFailure :: "int \<Rightarrow> db_breaker \<Rightarrow> db_breaker" where
  "db_onFailure now b =
     (if dbb_state b = DbHalfOpen then db_transitionTo now DbOpen b
      else let b' = b\<lparr>dbb_failures := dbb_failures b + 1\<rparr>
           in if dbb_failures b' \<ge> db_failureThreshold (dbb_config b') then db_transitionTo now DbOpen b' else b')"

definition db_begin :: "int \<Rightarrow> db_breaker \<Rightarrow> db_breaker \<times> (db_error + unit)" where
  "db_begin now b =
     (if \<not> db_enabled (dbb_config b) then (b, Inr ())
      else if dbb_state b = DbOpen
      then (if now - dbb_openedAt b \<ge> db_openMs (dbb_config b) then (db_transitionTo now DbHalfOpen b, Inr ())
            else (b, Inl CircuitOpenError))
      else (b, Inr ()))"

definition db_settle :: "int \<Rightarrow> bool \<Rightarrow> db_breaker \<Rightarrow> db_breaker" where
  "db_settle now ok b =
     (if \<not> db_enabled (dbb_config b) then b else if ok then db_onSuccess now b else db_onFailure now b)"

text \<open>A call whose operation settles with \<open>ok\<close> before the next call begins.\<close>

definition db_execute :: "int \<Rightarrow> bool \<Rightarrow> db_breaker \<Rightarrow> db_breaker \<times> (db_error + bool)" where
  "db_execute now ok b =
     (case db_begin now b of
        (b', Inl e) \<Rightarrow> (b', Inl e)
      | (b', Inr _) \<Rightarrow> (db_settle now ok b', Inr ok))"

subsection \<open>Interleaved calls\<close>

datatype db_event = Begin | Settle bool

fun db_step :: "int \<Rightarrow> db_event \<Rightarrow> db_breaker \<Rightarrow> db_breaker" where
  "db_step now Begin b = fst (db_begin now b)"
| "db_step now (Settle ok) b = db_settle now ok b"

inductive db_reachable :: "db_config \<Rightarrow> db_breaker \<Rightarrow> bool" for config where
  init: "db_reachable config (newDbCircuitBreaker config)"
| step: "db_reachable config b \<Longrightarrow> db_reachable config (db_step now e b)"

definition db_ok :: "db_config \<Rightarrow> db_breaker \<Rightarrow> bool" where
  "db_ok config b \<longleftrightarrow> dbb_config b = config
     \<and> (dbb_state b = DbClosed \<longrightarrow> dbb_failures b < db_failureThreshold config)
     \<and> (dbb_state b = DbHalfOpen \<longrightarrow> dbb_failures b = 0 \<and> dbb_successes b < db_successThreshold config)
     \<and> (dbb_state b \<noteq> DbHalfOpen \<longrightarrow> dbb_successes b = 0)"

lemma db_ok_step:
  "0 < db_failureThreshold config \<Longrightarrow> 0 < db_successThreshold config \<Longrightarrow> db_ok config b \<Longrightarrow> db_ok config (db_step now e b)"
  by (cases e; cases "dbb_state b")
    (auto simp: db_ok_def db_begin_def db_settle_def db_onSuccess_def db_onFailure_def db_transitionTo_def Let_def not_le)

text \<open>
  Under any interleaving of calls, a closed breaker has seen fewer consecutive failures than its
  threshold, a half-open one fewer consecutive successes than its threshold and no failure, and an
  open one rejects every call without running it until its open time has passed.
\<close>

theorem db_breaker_invariant:
  assumes "db_reachable config b" "0 < db_failureThreshold config" "0 < db_successThreshold config"
  shows "(dbb_state b = DbClosed \<longrightarrow> dbb_failures b < db_failureThreshold config)
    \<and> (dbb_state b = DbHalfOpen \<longrightarrow> dbb_failures b = 0 \<and> dbb_successes b < db_successThreshold config)
    \<and> (dbb_state b = DbOpen \<and> db_enabled config \<and> now < dbb_openedAt b + db_openMs config \<longrightarrow>
         db_execute now ok b = (b, Inl CircuitOpenError))"
proof -
  from assms(1) have "db_ok config b"
    by induction (use assms(2,3) in \<open>auto simp: db_ok_step, simp add: db_ok_def newDbCircuitBreaker_def\<close>)
  then show ?thesis
    by (auto simp: db_ok_def db_execute_def db_begin_def)
qed

abbreviation sample_db_config :: db_config where
  "sample_db_config \<equiv> \<lparr>db_enabled = True, db_failureThreshold = 2, db_successThreshold = 1, db_openMs = 100\<rparr>"

theorem db_breaker_invariant_witness:
  "db_execute 20 True (db_step 8 (Settle False) (db_step 7 (Settle False) (newDbCircuitBreaker sample_db_config)))
     = (db_step 8 (Settle False) (db_step 7 (Settle False) (newDbCircuitBreaker sample_db_config)), Inl CircuitOpenError)"
proof -
  let ?b = "db_step 8 (Settle False) (db_step 7 (Settle False) (newDbCircuitBreaker sample_db_config))"
  have "db_reachable sample_db_config ?b"
    by (intro db_reachable.intros)
  moreover have "dbb_state ?b = DbOpen" "dbb_openedAt ?b = 8" by code_simp+
  ultimately show ?thesis
    using db_breaker_invariant [of sample_db_config ?b 20 True] by simp
qed

subsection \<open>Tripping\<close>

fun db_calls :: "int \<Rightarrow> bool list \<Rightarrow> db_breaker \<Rightarrow> db_breaker" where
  "db_calls now [] b = b"
| "db_calls now (ok # oks) b = db_calls now oks (fst (db_execute now ok b))"

lemma sublist_replicate_break:
  assumes "k < n"
  shows "sublist (replicate n False) (replicate k False @ True # oks) \<longleftrightarrow> sublist (replicate n False) oks"
proof -
  have "xs2 = []" if split: "replicate n False = xs1 @ xs2" "prefix xs2 (True # oks)" for xs1 xs2
  proof (cases xs2)
    case (Cons y ys)
    then have "True \<in> set (xs1 @ xs2)" using split(2) by simp
    then show ?thesis unfolding split(1) [symmetric] by simp
  qed
  moreover have "\<not> suffix (replicate n False) (replicate k False)" "\<not> sublist (replicate n False) (replicate k False)"
    using assms by (auto dest: suffix_length_le sublist_length_le)
  moreover have "\<not> prefix (replicate n False) (True # oks)"
    using assms by (cases n) auto
  ultimately show ?thesis
    unfolding sublist_append sublist_Cons_right by (metis append_Nil2)
qed

lemma db_calls_open:
  assumes "dbb_state b = DbOpen" "db_enabled (dbb_config b)" "now < dbb_openedAt b + db_openMs (dbb_config b)"
  shows "db_calls now oks b = b"
  using assms by (induction oks) (auto simp: db_execute_def db_begin_def)

lemma db_calls_trips:
  assumes "dbb_state b = DbClosed" "db_enabled (dbb_config b)" "0 < db_openMs (dbb_config b)"
    "dbb_failures b < db_failureThreshold (dbb_config b)"
  shows "dbb_state (db_calls now oks b) = DbOpen \<longleftrightarrow>
    sublist (replicate (db_failureThreshold (dbb_config b)) False) (replicate (dbb_failures b) False @ oks)"
  using assms
proof (induction oks arbitrary: b)
  case Nil
  then show ?case by (auto dest: sublist_length_le)
next
  case (Cons ok oks)
  let ?n = "db_failureThreshold (dbb_config b)"
  show ?case
  proof (cases ok)
    case True
    then have "fst (db_execute now ok b) = b\<lparr>dbb_failures := 0\<rparr>"
      using Cons.prems by (simp add: db_execute_def db_begin_def db_settle_def db_onSuccess_def)
    with Cons.IH [of "b\<lparr>dbb_failures := 0\<rparr>"] Cons.prems True show ?thesis
      by (simp add: sublist_replicate_break)
  next
    case False
    let ?b = "b\<lparr>dbb_failures := dbb_failures b + 1\<rparr>"
    have rep: "replicate (dbb_failures b) False @ False # oks = replicate (dbb_failures b + 1) False @ oks"
      by (simp add: replicate_app_Cons_same)
    show ?thesis
    proof (cases "dbb_failures b + 1 \<ge> ?n")
      case trip: True
      then have n: "?n = dbb_failures b + 1" using Cons.prems by simp
      then have b: "fst (db_execute now ok b) = b\<lparr>dbb_state := DbOpen, dbb_failures := 0, dbb_successes := 0, dbb_openedAt := now\<rparr>"
        using Cons.prems False
        by (simp add: db_execute_def db_begin_def db_settle_def db_onFailure_def db_transitionTo_def Let_def)
      have "sublist (replicate ?n False) (replicate (dbb_failures b) False @ ok # oks)"
        unfolding n sublist_def using \<open>\<not> ok\<close> rep
        by (intro exI [of _ "[]"] exI [of _ oks]) simp
      then show ?thesis using Cons.prems b by (simp add: db_calls_open)
    next
      case False
      then have "fst (db_execute now ok b) = ?b"
        using Cons.prems \<open>\<not> ok\<close>
        by (simp add: db_execute_def db_begin_def db_settle_def db_onFailure_def Let_def)
      with Cons.IH [of ?b] Cons.prems False \<open>\<not> ok\<close> show ?thesis by (simp add: replicate_app_Cons_same)
    qed
  qed
qed



end
