(* ===== verification/Checkpoint.thy ===== *)
theory Checkpoint
  imports Js_Prelude
begin

text \<open>
  Stream resumption with checkpoints in the SDK, \<open>packages/sdk-bindings/src/checkpoint.ts\<close>.

  The transport, the callbacks and \<open>stop()\<close> belong to the caller: a run is driven by the list of
  connections it opens, each a function of the requested position. A connection yields messages, each with
  the outcomes of \<open>onGap\<close>, \<open>onMessage\<close> and \<open>store.save\<close>, and then ends or breaks. \<open>cr_run\<close> answers
  \<open>Running\<close> when the run is still going after the given connections.
\<close>

record stream_message =
  sm_seq :: js_num
  sm_data :: js_value

type_synonym checkpoint_store = "(string, int) js_map"

definition mcs_load :: "checkpoint_store \<Rightarrow> string \<Rightarrow> int option" where
  "mcs_load m i = jm_get m i"

definition mcs_save :: "checkpoint_store \<Rightarrow> string \<Rightarrow> int \<Rightarrow> checkpoint_store" where
  "mcs_save m i n = jm_set m i n"

record delivery =
  dl_message :: stream_message
  dl_stopped :: bool
  dl_reported :: bool
  dl_handled :: bool
  dl_saved :: bool

record connection_run =
  cn_deliveries :: "delivery list"
  cn_ended :: bool
  cn_stopped_at_catch :: bool
  cn_stopped_asleep :: bool

type_synonym connect = "int \<Rightarrow> connection_run"

record gap_event =
  ge_from :: int
  ge_to :: int
  ge_truncated :: bool

record checkpoint_stats =
  cs_delivered :: nat
  cs_duplicatesDropped :: nat
  cs_gapsDetected :: nat
  cs_missedMessages :: int
  cs_reconnects :: nat

record resumer_options =
  ro_maxReplay :: "int option"
  ro_maxRetries :: "nat option"
  ro_backoffMs :: "(nat \<Rightarrow> int) option"

definition default_backoff :: "nat \<Rightarrow> int" where
  "default_backoff n = min (250 * 2 ^ (n - 1)) 10000"

text \<open>
  The fields of the object and the locals of \<open>run\<close>. \<open>cr_checkpoint\<close>, \<open>cr_processed\<close>, \<open>cr_gaps\<close> and
  \<open>cr_sleeps\<close> record the calls made: the last saved position, the positions \<open>onMessage\<close> accepted, the gaps
  passed to \<open>onGap\<close> and the delays slept.
\<close>

record resumer =
  cr_last :: int
  cr_failures :: nat
  cr_first :: bool
  cr_stats :: checkpoint_stats
  cr_stopped :: bool
  cr_checkpoint :: int
  cr_processed :: "int list"
  cr_gaps :: "gap_event list"
  cr_sleeps :: "int list"

definition start_run :: "int option \<Rightarrow> resumer" where
  "start_run loaded = \<lparr>cr_last = nullish loaded 0, cr_failures = 0, cr_first = False,
     cr_stats = \<lparr>cs_delivered = 0, cs_duplicatesDropped = 0, cs_gapsDetected = 0, cs_missedMessages = 0, cs_reconnects = 0\<rparr>,
     cr_stopped = False, cr_checkpoint = nullish loaded 0, cr_processed = [], cr_gaps = [], cr_sleeps = []\<rparr>"

datatype outcome = Continue | Returned | Threw

definition report_gap :: "resumer_options \<Rightarrow> int \<Rightarrow> resumer \<Rightarrow> resumer" where
  "report_gap o' n r =
     (let missed = n - cr_last r - 1;
          truncated = (cr_first r \<and> missed > nullish (ro_maxReplay o') 1000)
      in r\<lparr>cr_stats := (cr_stats r)\<lparr>cs_gapsDetected := cs_gapsDetected (cr_stats r) + 1,
                                cs_missedMessages := cs_missedMessages (cr_stats r) + missed\<rparr>,
           cr_gaps := cr_gaps r @ [\<lparr>ge_from = cr_last r + 1, ge_to = n - 1, ge_truncated = truncated\<rparr>]\<rparr>)"

definition process_message :: "delivery \<Rightarrow> int \<Rightarrow> resumer \<Rightarrow> resumer \<times> outcome" where
  "process_message d n r0 =
     (let r = r0\<lparr>cr_first := False\<rparr>
      in if \<not> dl_handled d then (r, Threw)
         else let h = r\<lparr>cr_last := n, cr_processed := cr_processed r @ [n]\<rparr>
              in if \<not> dl_saved d then (h, Threw)
                 else (h\<lparr>cr_checkpoint := n, cr_stats := (cr_stats h)\<lparr>cs_delivered := cs_delivered (cr_stats h) + 1\<rparr>,
                         cr_failures := 0\<rparr>, Continue))"

definition on_position :: "resumer_options \<Rightarrow> delivery \<Rightarrow> int \<Rightarrow> resumer \<Rightarrow> resumer \<times> outcome" where
  "on_position o' d n r =
     (if n \<le> cr_last r
      then (r\<lparr>cr_stats := (cr_stats r)\<lparr>cs_duplicatesDropped := cs_duplicatesDropped (cr_stats r) + 1\<rparr>\<rparr>, Continue)
      else if n > cr_last r + 1
      then (let g = report_gap o' n r
            in if dl_reported d then process_message d n g else (g, Threw))
      else process_message d n r)"

definition on_message :: "resumer_options \<Rightarrow> delivery \<Rightarrow> resumer \<Rightarrow> resumer \<times> outcome" where
  "on_message o' d r0 =
     (let r = r0\<lparr>cr_stopped := cr_stopped r0 \<or> dl_stopped d\<rparr>
      in if cr_stopped r then (r, Returned)
         else case sm_seq (dl_message d) of
             Fin q \<Rightarrow> if of_int \<lfloor>q\<rfloor> \<noteq> q \<or> q < 0 then (r, Continue) else on_position o' d \<lfloor>q\<rfloor> r
           | _ \<Rightarrow> (r, Continue))"

fun read_stream :: "resumer_options \<Rightarrow> delivery list \<Rightarrow> resumer \<Rightarrow> resumer \<times> outcome" where
  "read_stream o' [] r = (r, Continue)"
| "read_stream o' (d # ds) r =
     (let (r', out) = on_message o' d r in if out = Continue then read_stream o' ds r' else (r', out))"

datatype run_result = Completed | RetriesExhausted | Running

fun cr_run :: "resumer_options \<Rightarrow> connect list \<Rightarrow> resumer \<Rightarrow> resumer \<times> run_result" where
  "cr_run o' [] r = (r, if cr_stopped r then Completed else Running)"
| "cr_run o' (conn # conns) r =
     (if cr_stopped r then (r, Completed)
      else let cn = conn (cr_last r);
               (r', out) = read_stream o' (cn_deliveries cn) (r\<lparr>cr_first := True\<rparr>)
           in if out = Returned \<or> out = Continue \<and> cn_ended cn then (r', Completed)
              else let c = r'\<lparr>cr_stopped := cr_stopped r' \<or> cn_stopped_at_catch cn\<rparr>
                   in if cr_stopped c then (c, Completed)
                      else let f = c\<lparr>cr_failures := cr_failures c + 1\<rparr>
                           in if cr_failures f > nullish (ro_maxRetries o') 5 then (f, RetriesExhausted)
                              else cr_run o' conns
                                (f\<lparr>cr_stats := (cr_stats f)\<lparr>cs_reconnects := cs_reconnects (cr_stats f) + 1\<rparr>,
                                   cr_sleeps := cr_sleeps f @ [nullish (ro_backoffMs o') default_backoff (cr_failures f)],
                                   cr_stopped := cn_stopped_asleep cn\<rparr>))"

subsection \<open>Delivery is ordered\<close>

definition ordered_ok :: "int \<Rightarrow> resumer \<Rightarrow> bool" where
  "ordered_ok start r \<longleftrightarrow> sorted_wrt (<) (start # cr_processed r) \<and> last (start # cr_processed r) = cr_last r
     \<and> cr_checkpoint r \<in> set (start # cr_processed r)"

text \<open>What the run keeps of a predicate that the loop's own bookkeeping does not touch.\<close>

lemma read_stream_keeps:
  assumes "\<And>d r r' out. d \<in> set ds \<Longrightarrow> P r \<Longrightarrow> on_message o' d r = (r', out) \<Longrightarrow> P r'"
    and "P r" "read_stream o' ds r = (r', out)"
  shows "P r'"
  using assms
proof (induction ds arbitrary: r)
  case (Cons d ds)
  obtain r1 out1 where m: "on_message o' d r = (r1, out1)" by fastforce
  then have "P r1" using Cons.prems(1,2) by (meson list.set_intros(1))
  with Cons.prems(3) m Cons.IH [of r1] Cons.prems(1) show ?case
    by (auto split: if_splits)
qed auto

definition resumer_progress :: "resumer \<Rightarrow> int \<times> int \<times> int list \<times> gap_event list \<times> int" where
  "resumer_progress r = (cr_last r, cr_checkpoint r, cr_processed r, cr_gaps r, cs_missedMessages (cr_stats r))"

lemma cr_run_keeps:
  assumes msg: "\<And>d r r' out. d \<in> D \<Longrightarrow> P r \<Longrightarrow> on_message o' d r = (r', out) \<Longrightarrow> P r'"
    and upd: "\<And>r r'. P r \<Longrightarrow> resumer_progress r' = resumer_progress r \<Longrightarrow> P r'"
    and D: "\<forall>conn \<in> set conns. \<forall>p. set (cn_deliveries (conn p)) \<subseteq> D"
    and "P r"
  shows "P (fst (cr_run o' conns r))"
  using D \<open>P r\<close>
proof (induction conns arbitrary: r)
  case (Cons conn conns)
  let ?cn = "conn (cr_last r)"
  obtain r' out where rs: "read_stream o' (cn_deliveries ?cn) (r\<lparr>cr_first := True\<rparr>) = (r', out)" by fastforce
  have ds: "d \<in> D" if "d \<in> set (cn_deliveries ?cn)" for d using Cons.prems(1) that by auto
  have "P (r\<lparr>cr_first := True\<rparr>)"
    by (rule upd [OF Cons.prems(2)]) (simp add: resumer_progress_def)
  then have r': "P r'"
    using read_stream_keeps [where P = P, OF _ _ rs] msg ds by blast
  have IH: "P (fst (cr_run o' conns s))" if "resumer_progress s = resumer_progress r'" for s
    by (rule Cons.IH) (use Cons.prems(1) upd [OF r' that] in auto)
  have keep: "P s" if "resumer_progress s = resumer_progress r'" for s
    using upd [OF r' that] .
  show ?case
    using rs by (simp add: Let_def Cons.prems(2) r' keep IH resumer_progress_def)
qed simp

lemma sorted_wrt_snoc:
  "sorted_wrt (<) xs \<Longrightarrow> xs \<noteq> [] \<Longrightarrow> last xs < n \<Longrightarrow> sorted_wrt (<) (xs @ [n])" for n :: int
proof (induction xs)
  case (Cons a xs)
  then show ?case by (cases "xs = []") (auto dest: bspec [OF _ last_in_set])
qed simp

text \<open>What a message does to the resumer_progress: nothing, a reported gap that is then aborted, or one processed position.\<close>

definition skipped :: "int \<Rightarrow> int \<Rightarrow> int set" where
  "skipped l n = {l + 1..n - 1}"

definition gap_range :: "gap_event \<Rightarrow> int set" where
  "gap_range g = {ge_from g..ge_to g}"

lemma process_message_progress:
  assumes "process_message d n r = (r', out)"
  shows "if dl_handled d
    then cr_last r' = n \<and> cr_processed r' = cr_processed r @ [n] \<and> cr_checkpoint r' \<in> {cr_checkpoint r, n}
      \<and> cr_gaps r' = cr_gaps r \<and> cs_missedMessages (cr_stats r') = cs_missedMessages (cr_stats r)
    else resumer_progress r' = resumer_progress r"
  using assms by (auto simp: process_message_def Let_def resumer_progress_def split: if_splits)

lemma report_gap_progress:
  "cr_last (report_gap o' n r) = cr_last r" "cr_processed (report_gap o' n r) = cr_processed r"
  "cr_checkpoint (report_gap o' n r) = cr_checkpoint r"
  "\<Union> (gap_range ` set (cr_gaps (report_gap o' n r))) = \<Union> (gap_range ` set (cr_gaps r)) \<union> skipped (cr_last r) n"
  "cs_missedMessages (cr_stats (report_gap o' n r)) = cs_missedMessages (cr_stats r) + (n - cr_last r - 1)"
  by (auto simp: report_gap_def Let_def gap_range_def skipped_def)

definition processed :: "int \<Rightarrow> resumer \<Rightarrow> resumer \<Rightarrow> bool" where
  "processed n r r' \<longleftrightarrow> cr_last r < n \<and> cr_last r' = n \<and> cr_processed r' = cr_processed r @ [n]
     \<and> cr_checkpoint r' \<in> {cr_checkpoint r, n}
     \<and> \<Union> (gap_range ` set (cr_gaps r')) = \<Union> (gap_range ` set (cr_gaps r)) \<union> skipped (cr_last r) n
     \<and> cs_missedMessages (cr_stats r') = cs_missedMessages (cr_stats r) + (n - cr_last r - 1)"

definition aborted :: "resumer \<Rightarrow> resumer \<Rightarrow> bool" where
  "aborted r r' \<longleftrightarrow> cr_last r' = cr_last r \<and> cr_processed r' = cr_processed r \<and> cr_checkpoint r' = cr_checkpoint r"

lemma on_position_cases:
  assumes pos: "on_position o' d n r = (r', out)"
  shows "resumer_progress r' = resumer_progress r \<or> processed n r r' \<or> (\<not> (dl_reported d \<and> dl_handled d) \<and> aborted r r')"
proof (cases "n \<le> cr_last r")
  case True
  then show ?thesis using pos by (auto simp: on_position_def resumer_progress_def)
next
  case new: False
  show ?thesis
  proof (cases "n > cr_last r + 1")
    case gap: True
    show ?thesis
    proof (cases "dl_reported d")
      case True
      then have "process_message d n (report_gap o' n r) = (r', out)"
        using pos new gap by (simp add: on_position_def Let_def)
      from process_message_progress [OF this] new show ?thesis
        by (auto simp: report_gap_progress processed_def aborted_def resumer_progress_def split: if_splits)
    next
      case False
      then have "r' = report_gap o' n r"
        using pos new gap by (simp add: on_position_def Let_def)
      then show ?thesis using False by (simp add: aborted_def report_gap_progress)
    qed
  next
    case False
    then have "n = cr_last r + 1" and "process_message d n r = (r', out)"
      using pos new by (auto simp: on_position_def)
    from process_message_progress [OF this(2)] this(1) show ?thesis
      by (auto simp: processed_def skipped_def split: if_splits)
  qed
qed

lemma on_message_cases:
  assumes "on_message o' d r = (r', out)"
  obtains "resumer_progress r' = resumer_progress r"
  | n where "processed n r r'"
  | "\<not> (dl_reported d \<and> dl_handled d)" "aborted r r'"
proof -
  let ?r = "r\<lparr>cr_stopped := cr_stopped r \<or> dl_stopped d\<rparr>"
  have "resumer_progress ?r = resumer_progress r" by (simp add: resumer_progress_def)
  moreover have "processed n ?r r' = processed n r r'" "aborted ?r r' = aborted r r'" for n
    by (simp_all add: processed_def aborted_def)
  moreover have "r' = ?r \<or> (\<exists>n. on_position o' d n ?r = (r', out))"
    using assms by (auto simp: on_message_def Let_def split: if_splits js_num.splits)
  ultimately show thesis
    using that on_position_cases [of o' d _ ?r r' out] by metis
qed

lemma ordered_ok_progress: "ordered_ok start r \<Longrightarrow> resumer_progress r' = resumer_progress r \<Longrightarrow> ordered_ok start r'"
  by (simp add: ordered_ok_def resumer_progress_def)

lemma ordered_ok_message:
  assumes "ordered_ok start r" "on_message o' d r = (r', out)"
  shows "ordered_ok start r'"
  using assms(2)
proof (cases rule: on_message_cases)
  case 1
  then show ?thesis using assms(1) by (rule ordered_ok_progress [rotated])
next
  case (2 n)
  then have "sorted_wrt (<) ((start # cr_processed r) @ [n])"
    using assms(1) by (intro sorted_wrt_snoc) (auto simp: ordered_ok_def processed_def)
  with 2 assms(1) show ?thesis by (auto simp: ordered_ok_def processed_def)
next
  case 3
  then show ?thesis using assms(1) by (simp add: ordered_ok_def aborted_def)
qed

subsection \<open>Every position is delivered or reported\<close>

definition accounted :: "int \<Rightarrow> resumer \<Rightarrow> bool" where
  "accounted start r \<longleftrightarrow> start \<le> cr_last r
     \<and> set (cr_processed r) \<union> \<Union> (gap_range ` set (cr_gaps r)) = {start<..cr_last r}
     \<and> cr_last r = start + int (length (cr_processed r)) + cs_missedMessages (cr_stats r)"

lemma accounted_message:
  assumes acc: "accounted start r" and ok: "dl_reported d" "dl_handled d" and "on_message o' d r = (r', out)"
  shows "accounted start r'"
  using assms(4)
proof (cases rule: on_message_cases)
  case 1
  then show ?thesis using acc by (simp add: accounted_def resumer_progress_def)
next
  case (2 n)
  then have "{start<..n} = insert n ({start<..cr_last r} \<union> skipped (cr_last r) n)"
    using acc by (auto simp: accounted_def processed_def skipped_def)
  moreover have "set (cr_processed r') \<union> \<Union> (gap_range ` set (cr_gaps r'))
      = insert n ((set (cr_processed r) \<union> \<Union> (gap_range ` set (cr_gaps r))) \<union> skipped (cr_last r) n)"
    using 2 by (auto simp: processed_def)
  ultimately show ?thesis
    using acc 2 by (simp add: accounted_def processed_def)
next
  case 3
  with ok show ?thesis by blast
qed

text \<open>
  (C18) Whatever the connections yield, messages are processed in strictly increasing order, each once,
  beyond the loaded checkpoint, and the saved checkpoint is the loaded one or a processed position. If the
  gap and message callbacks never throw, the positions up to the last processed one are exactly those
  processed and those reported missing, and the missed-message counter is exactly their number.
\<close>

theorem checkpoint_run_exact:
  assumes "cr_run o' conns (start_run (Some start)) = (r, res)"
  shows "sorted_wrt (<) (start # cr_processed r)
    \<and> cr_checkpoint r \<in> set (start # cr_processed r)
    \<and> ((\<forall>conn \<in> set conns. \<forall>p. \<forall>d \<in> set (cn_deliveries (conn p)). dl_reported d \<and> dl_handled d) \<longrightarrow>
        set (cr_processed r) \<union> \<Union> (gap_range ` set (cr_gaps r)) = {start<..cr_last r}
        \<and> cs_missedMessages (cr_stats r) = cr_last r - start - int (length (cr_processed r)))"
proof -
  have "ordered_ok start (fst (cr_run o' conns (start_run (Some start))))"
  proof (rule cr_run_keeps [where D = UNIV])
    show "ordered_ok start r'" if "ordered_ok start r" "on_message o' d r = (r', out)" for d r r' out
      using that by (rule ordered_ok_message)
  qed (auto simp: ordered_ok_def start_run_def resumer_progress_def)
  moreover have "accounted start (fst (cr_run o' conns (start_run (Some start))))"
    if "\<forall>conn \<in> set conns. \<forall>p. \<forall>d \<in> set (cn_deliveries (conn p)). dl_reported d \<and> dl_handled d"
  proof (rule cr_run_keeps [where D = "{d. dl_reported d \<and> dl_handled d}"])
    show "accounted start r'" if "d \<in> {d. dl_reported d \<and> dl_handled d}" "accounted start r" "on_message o' d r = (r', out)"
      for d r r' out
      using that by (auto intro: accounted_message)
  qed (use that in \<open>auto simp: accounted_def start_run_def resumer_progress_def\<close>)
  ultimately show ?thesis
    using assms by (auto simp: ordered_ok_def accounted_def)
qed

abbreviation sample_delivery :: "rat \<Rightarrow> bool \<Rightarrow> delivery" where
  "sample_delivery n ok \<equiv> \<lparr>dl_message = \<lparr>sm_seq = Fin n, sm_data = JNull\<rparr>, dl_stopped = False, dl_reported = True,
     dl_handled = ok, dl_saved = True\<rparr>"

abbreviation sample_options :: resumer_options where
  "sample_options \<equiv> \<lparr>ro_maxReplay = None, ro_maxRetries = None, ro_backoffMs = None\<rparr>"

abbreviation sample_connect :: "rat list \<Rightarrow> bool \<Rightarrow> bool \<Rightarrow> connect" where
  "sample_connect ns ok ended \<equiv> \<lambda>p. \<lparr>cn_deliveries = map (\<lambda>n. sample_delivery n ok) ns, cn_ended = ended,
     cn_stopped_at_catch = False, cn_stopped_asleep = False\<rparr>"

theorem checkpoint_run_exact_witness:
  "let r = fst (cr_run sample_options [sample_connect [3, 4, 7] True False, sample_connect [7, 8] True True] (start_run (Some 2)))
   in cr_processed r = [3, 4, 7, 8] \<and> cs_missedMessages (cr_stats r) = 2"
proof -
  let ?run = "cr_run sample_options [sample_connect [3, 4, 7] True False, sample_connect [7, 8] True True] (start_run (Some 2))"
  have run: "cr_processed (fst ?run) = [3, 4, 7, 8]" "cr_last (fst ?run) = 8"
    by (simp_all add: start_run_def on_message_def on_position_def process_message_def report_gap_def Let_def)
  have "?run = (fst ?run, snd ?run)" by simp
  from checkpoint_run_exact [OF this] run show ?thesis
    unfolding Let_def by simp
qed

text \<open>
  A callback that throws after a gap was reported leaves the position unchanged, so the gap is counted
  again, or messages counted as missed are then delivered.
\<close>

lemma missed_counter_overcounts:
  "let r = fst (cr_run sample_options [sample_connect [3] False False, sample_connect [1, 2, 3] True True] (start_run None))
   in cr_processed r = [1, 2, 3] \<and> cs_missedMessages (cr_stats r) = 2"
  by (simp add: start_run_def on_message_def on_position_def process_message_def report_gap_def Let_def)

end
