(* ===== verification/Feed_Lifecycle.thy ===== *)
theory Feed_Lifecycle
  imports Js_Prelude
begin

text \<open>
  The governed feed onboarding lifecycle, \<open>api/src/feeds/feed-lifecycle.ts\<close>: states, transitions, the role
  each transition needs, and the append-only change log. The store is the map that
  \<open>createFeedLifecycleStore\<close> makes; timestamps are the strings the caller or the clock supplies, the clock's
  being the argument \<open>nowIso\<close>; error messages are left out.
\<close>

datatype feed_state = Proposed | Validated | Canary | Active | Suspended | Retired

definition FEED_LIFECYCLE_STATES :: "feed_state list" where
  "FEED_LIFECYCLE_STATES = [Proposed, Validated, Canary, Active, Suspended, Retired]"

datatype feed_role = Viewer | Operator | Admin

datatype feed_transition = Validate | PromoteToCanary | Activate | Suspend | Resume | Retire | Reject

fun FEED_TRANSITIONS :: "feed_state \<Rightarrow> feed_transition list" where
  "FEED_TRANSITIONS Proposed = [Validate, Reject]"
| "FEED_TRANSITIONS Validated = [PromoteToCanary, Reject]"
| "FEED_TRANSITIONS Canary = [Activate, Suspend, Reject]"
| "FEED_TRANSITIONS Active = [Suspend, Retire]"
| "FEED_TRANSITIONS Suspended = [Resume, Retire]"
| "FEED_TRANSITIONS Retired = []"

fun FEED_TRANSITION_ROLES :: "feed_transition \<Rightarrow> feed_role" where
  "FEED_TRANSITION_ROLES Validate = Operator"
| "FEED_TRANSITION_ROLES PromoteToCanary = Operator"
| "FEED_TRANSITION_ROLES Activate = Admin"
| "FEED_TRANSITION_ROLES Suspend = Operator"
| "FEED_TRANSITION_ROLES Resume = Operator"
| "FEED_TRANSITION_ROLES Retire = Admin"
| "FEED_TRANSITION_ROLES Reject = Operator"

fun ROLE_LEVEL :: "feed_role \<Rightarrow> nat" where
  "ROLE_LEVEL Viewer = 1"
| "ROLE_LEVEL Operator = 2"
| "ROLE_LEVEL Admin = 3"

text \<open>Roles are ordered by their level.\<close>

instantiation feed_role :: linorder
begin

definition less_eq_feed_role :: "feed_role \<Rightarrow> feed_role \<Rightarrow> bool" where
  "less_eq_feed_role r s \<longleftrightarrow> ROLE_LEVEL r \<le> ROLE_LEVEL s"

definition less_feed_role :: "feed_role \<Rightarrow> feed_role \<Rightarrow> bool" where
  "less_feed_role r s \<longleftrightarrow> ROLE_LEVEL r < ROLE_LEVEL s"

instance
proof
  show "r = s" if "r \<le> s" "s \<le> r" for r s :: feed_role
    using that by (cases r; cases s) (auto simp: less_eq_feed_role_def)
qed (auto simp: less_eq_feed_role_def less_feed_role_def)

end

definition roleLevel :: "feed_role \<Rightarrow> nat" where
  "roleLevel r = ROLE_LEVEL r"

fun state_name :: "feed_state \<Rightarrow> string" where
  "state_name Proposed = ''proposed''"
| "state_name Validated = ''validated''"
| "state_name Canary = ''canary''"
| "state_name Active = ''active''"
| "state_name Suspended = ''suspended''"
| "state_name Retired = ''retired''"

definition isFeedLifecycleState :: "js_value \<Rightarrow> bool" where
  "isFeedLifecycleState v = (case v of JString s \<Rightarrow> s \<in> set (map state_name FEED_LIFECYCLE_STATES) | _ \<Rightarrow> False)"

record change_record =
  cg_sequence :: nat
  cg_from :: "feed_state option"
  cg_to :: feed_state
  cg_transition :: "feed_transition option"
  cg_actor :: string
  cg_role :: feed_role
  cg_at :: string
  cg_reason :: string
  cg_metadata :: "js_value option"

record feed_entry =
  fe_feedId :: string
  fe_state :: feed_state
  fe_version :: nat
  fe_createdAt :: string
  fe_updatedAt :: string
  fe_createdBy :: string
  fe_changeLog :: "change_record list"

datatype feed_error = FEED_NOT_FOUND | INVALID_TRANSITION | TRANSITION_NOT_ALLOWED | INSUFFICIENT_ROLE | TERMINAL_STATE

type_synonym feed_result = "feed_error + (feed_entry \<times> change_record)"
type_synonym feed_store = "(string, feed_entry) js_map"

definition fs_get :: "feed_store \<Rightarrow> string \<Rightarrow> feed_entry option" where
  "fs_get store feedId = jm_get store feedId"

definition fs_save :: "feed_store \<Rightarrow> feed_entry \<Rightarrow> feed_store" where
  "fs_save store entry = jm_set store (fe_feedId entry) entry"

definition fs_list :: "feed_store \<Rightarrow> feed_entry list" where
  "fs_list store = jm_values store"

record register_input =
  ri_feedId :: string
  ri_actor :: string
  ri_role :: feed_role
  ri_reason :: "string option"
  ri_metadata :: "js_value option"
  ri_at :: "string option"

definition registerFeed :: "string \<Rightarrow> feed_store \<Rightarrow> register_input \<Rightarrow> feed_store \<times> feed_result" where
  "registerFeed nowIso store input =
     (if js_trim (ri_feedId input) = [] then (store, Inl FEED_NOT_FOUND)
      else if ROLE_LEVEL (ri_role input) < ROLE_LEVEL Operator then (store, Inl INSUFFICIENT_ROLE)
      else if fs_get store (ri_feedId input) \<noteq> None then (store, Inl INVALID_TRANSITION)
      else let at' = nullish (ri_at input) nowIso;
               rec = \<lparr>cg_sequence = 1, cg_from = None, cg_to = Proposed, cg_transition = None,
                  cg_actor = ri_actor input, cg_role = ri_role input, cg_at = at',
                  cg_reason = nullish (ri_reason input) ''feed proposed'', cg_metadata = ri_metadata input\<rparr>;
               entry = \<lparr>fe_feedId = ri_feedId input, fe_state = Proposed, fe_version = 1, fe_createdAt = at',
                  fe_updatedAt = at', fe_createdBy = ri_actor input, fe_changeLog = [rec]\<rparr>
           in (fs_save store entry, Inr (entry, rec)))"

record transition_input =
  ti_feedId :: string
  ti_transition :: feed_transition
  ti_actor :: string
  ti_role :: feed_role
  ti_reason :: "string option"
  ti_metadata :: "js_value option"
  ti_at :: "string option"

fun nextStateFor :: "feed_transition \<Rightarrow> feed_state" where
  "nextStateFor Validate = Validated"
| "nextStateFor PromoteToCanary = Canary"
| "nextStateFor Activate = Active"
| "nextStateFor Suspend = Suspended"
| "nextStateFor Resume = Active"
| "nextStateFor Retire = Retired"
| "nextStateFor Reject = Retired"

definition transitionFeed :: "string \<Rightarrow> feed_store \<Rightarrow> transition_input \<Rightarrow> feed_store \<times> feed_result" where
  "transitionFeed nowIso store input =
     (case fs_get store (ti_feedId input) of
        None \<Rightarrow> (store, Inl FEED_NOT_FOUND)
      | Some entry \<Rightarrow>
          if fe_state entry = Retired then (store, Inl TERMINAL_STATE)
          else if ti_transition input \<notin> set (FEED_TRANSITIONS (fe_state entry)) then (store, Inl INVALID_TRANSITION)
          else if ROLE_LEVEL (ti_role input) < ROLE_LEVEL (FEED_TRANSITION_ROLES (ti_transition input))
          then (store, Inl INSUFFICIENT_ROLE)
          else let reason = js_trim (nullish (ti_reason input) [])
               in if reason = [] then (store, Inl INVALID_TRANSITION)
                  else let at' = nullish (ti_at input) nowIso;
                           to = nextStateFor (ti_transition input);
                           rec = \<lparr>cg_sequence = length (fe_changeLog entry) + 1, cg_from = Some (fe_state entry), cg_to = to,
                              cg_transition = Some (ti_transition input), cg_actor = ti_actor input, cg_role = ti_role input,
                              cg_at = at', cg_reason = reason, cg_metadata = ti_metadata input\<rparr>;
                           updated = entry\<lparr>fe_state := to, fe_version := fe_version entry + 1, fe_updatedAt := at',
                              fe_changeLog := fe_changeLog entry @ [rec]\<rparr>
                       in (fs_save store updated, Inr (updated, rec)))"

definition isPublishableState :: "feed_state \<Rightarrow> bool" where
  "isPublishableState s \<longleftrightarrow> s = Active"

definition isCanaryState :: "feed_state \<Rightarrow> bool" where
  "isCanaryState s \<longleftrightarrow> s = Canary"

subsection \<open>The change log is the audit trail\<close>

datatype feed_call = Register string register_input | Transition string transition_input

fun call_feed :: "feed_call \<Rightarrow> feed_store \<Rightarrow> feed_store \<times> feed_result" where
  "call_feed (Register nowIso input) store = registerFeed nowIso store input"
| "call_feed (Transition nowIso input) store = transitionFeed nowIso store input"

fun feed_calls :: "feed_call list \<Rightarrow> feed_store \<Rightarrow> feed_store" where
  "feed_calls [] store = store"
| "feed_calls (c # cs) store = feed_calls cs (fst (call_feed c store))"

text \<open>The first record, a record that leaves state \<open>s\<close>, and a log whose records continue each other.\<close>

definition is_opening :: "change_record \<Rightarrow> bool" where
  "is_opening r \<longleftrightarrow> cg_sequence r = 1 \<and> cg_from r = None \<and> cg_transition r = None \<and> cg_to r = Proposed \<and> Operator \<le> cg_role r"

definition authorised :: "feed_state \<Rightarrow> change_record \<Rightarrow> bool" where
  "authorised s r \<longleftrightarrow> cg_from r = Some s \<and> cg_reason r \<noteq> []
     \<and> (\<exists>t \<in> set (FEED_TRANSITIONS s). cg_transition r = Some t \<and> cg_to r = nextStateFor t \<and> FEED_TRANSITION_ROLES t \<le> cg_role r)"

definition log_chain :: "change_record list \<Rightarrow> bool" where
  "log_chain l \<longleftrightarrow> l \<noteq> [] \<and> is_opening (hd l)
     \<and> (\<forall>i. Suc i < length l \<longrightarrow> authorised (cg_to (l ! i)) (l ! Suc i) \<and> cg_sequence (l ! Suc i) = i + 2)"

lemma log_chain_snoc:
  assumes "log_chain l" "authorised (cg_to (last l)) r" "cg_sequence r = length l + 1"
  shows "log_chain (l @ [r])"
proof -
  have "authorised (cg_to ((l @ [r]) ! i)) ((l @ [r]) ! Suc i) \<and> cg_sequence ((l @ [r]) ! Suc i) = i + 2"
    if "Suc i < length (l @ [r])" for i
  proof (cases "Suc i < length l")
    case True
    then show ?thesis using assms(1) by (simp add: log_chain_def nth_append)
  next
    case False
    with that have "i = length l - 1" "l \<noteq> []" by auto
    with assms(2,3) show ?thesis by (simp add: nth_append last_conv_nth)
  qed
  with assms(1) show ?thesis by (simp add: log_chain_def)
qed

text \<open>A feed beyond the canary stage has been validated and was in the canary.\<close>

definition feed_entry_ok :: "string \<Rightarrow> feed_entry \<Rightarrow> bool" where
  "feed_entry_ok feedId e \<longleftrightarrow> fe_feedId e = feedId \<and> log_chain (fe_changeLog e) \<and> cg_to (last (fe_changeLog e)) = fe_state e
     \<and> fe_version e = length (fe_changeLog e)
     \<and> (fe_state e \<in> {Validated, Canary, Active, Suspended} \<longrightarrow> Validated \<in> cg_to ` set (fe_changeLog e))
     \<and> (fe_state e \<in> {Canary, Active, Suspended} \<longrightarrow> Canary \<in> cg_to ` set (fe_changeLog e))"

lemma registerFeed_ok:
  assumes "jm.all_stored feed_entry_ok store"
  shows "jm.all_stored feed_entry_ok (fst (registerFeed nowIso store input))"
proof -
  have "Operator \<le> ri_role input" if "\<not> ROLE_LEVEL (ri_role input) < ROLE_LEVEL Operator"
    using that by (simp add: less_eq_feed_role_def)
  then show ?thesis
    using assms
    by (auto simp: registerFeed_def Let_def fs_save_def feed_entry_ok_def log_chain_def is_opening_def intro!: jm.all_stored_put)
qed

text \<open>A transition that goes through appends one authorised record.\<close>

lemma transitionFeed_accepted:
  assumes "transitionFeed nowIso store input = (store', Inr (e', r))"
  obtains e where "fs_get store (ti_feedId input) = Some e" "store' = fs_save store e'"
    "fe_feedId e' = fe_feedId e" "fe_changeLog e' = fe_changeLog e @ [r]" "fe_version e' = fe_version e + 1"
    "fe_state e' = cg_to r" "authorised (fe_state e) r" "cg_sequence r = length (fe_changeLog e) + 1"
  using assms
  by (auto simp: transitionFeed_def Let_def authorised_def less_eq_feed_role_def split: option.splits if_splits)

lemma transitionFeed_refused:
  "transitionFeed nowIso store input = (store', Inl err) \<Longrightarrow> store' = store"
  by (auto simp: transitionFeed_def Let_def split: option.splits if_splits)

lemma next_state_cases:
  assumes "t \<in> set (FEED_TRANSITIONS s)"
  shows "nextStateFor t \<in> {Validated, Canary, Active, Suspended} \<Longrightarrow> nextStateFor t = Validated \<or> s \<in> {Validated, Canary, Active, Suspended}"
    and "nextStateFor t \<in> {Canary, Active, Suspended} \<Longrightarrow> nextStateFor t = Canary \<or> s \<in> {Canary, Active, Suspended}"
  using assms by (cases s; auto)+

lemma feed_entry_ok_append:
  assumes "feed_entry_ok i e" "authorised (fe_state e) r" "cg_sequence r = length (fe_changeLog e) + 1"
    "fe_feedId e' = fe_feedId e" "fe_changeLog e' = fe_changeLog e @ [r]" "fe_version e' = fe_version e + 1" "fe_state e' = cg_to r"
  shows "feed_entry_ok i e'"
proof -
  from assms(2) obtain t where t: "t \<in> set (FEED_TRANSITIONS (fe_state e))" "cg_to r = nextStateFor t"
    by (auto simp: authorised_def)
  have "log_chain (fe_changeLog e')"
    using assms by (auto simp: feed_entry_ok_def intro!: log_chain_snoc)
  moreover have "Validated \<in> cg_to ` set (fe_changeLog e')" if "fe_state e' \<in> {Validated, Canary, Active, Suspended}"
    using next_state_cases(1) [OF t(1)] that assms(1,5,7) t(2) by (fastforce simp: feed_entry_ok_def)
  moreover have "Canary \<in> cg_to ` set (fe_changeLog e')" if "fe_state e' \<in> {Canary, Active, Suspended}"
    using next_state_cases(2) [OF t(1)] that assms(1,5,7) t(2) by (fastforce simp: feed_entry_ok_def)
  ultimately show ?thesis
    using assms by (simp add: feed_entry_ok_def)
qed

lemma transitionFeed_ok:
  assumes ok: "jm.all_stored feed_entry_ok store"
  shows "jm.all_stored feed_entry_ok (fst (transitionFeed nowIso store input))"
proof -
  obtain store' res where res: "transitionFeed nowIso store input = (store', res)" by fastforce
  show ?thesis
  proof (cases res)
    case (Inl err)
    then show ?thesis using res ok transitionFeed_refused [of nowIso store input store' err] by simp
  next
    case (Inr p)
    then obtain e' r where p: "transitionFeed nowIso store input = (store', Inr (e', r))" using res by (cases p) simp
    then obtain e where e: "fs_get store (ti_feedId input) = Some e" "store' = fs_save store e'"
      "fe_feedId e' = fe_feedId e" "fe_changeLog e' = fe_changeLog e @ [r]" "fe_version e' = fe_version e + 1"
      "fe_state e' = cg_to r" "authorised (fe_state e) r" "cg_sequence r = length (fe_changeLog e) + 1"
      by (rule transitionFeed_accepted)
    have old: "feed_entry_ok (ti_feedId input) e"
      using jm.all_storedD [OF ok] e(1) by (simp add: fs_get_def)
    have "feed_entry_ok (ti_feedId input) e'"
      using feed_entry_ok_append [OF old e(7,8,3,4,5,6)] .
    moreover from this have "fe_feedId e' = ti_feedId input" by (simp add: feed_entry_ok_def)
    ultimately show ?thesis
      using p ok e(2) by (simp add: fs_save_def jm.all_stored_put)
  qed
qed

lemma feed_calls_ok: "jm.all_stored feed_entry_ok store \<Longrightarrow> jm.all_stored feed_entry_ok (feed_calls cs store)"
proof (induction cs arbitrary: store)
  case (Cons c cs)
  then show ?case by (cases c) (simp_all add: registerFeed_ok transitionFeed_ok)
qed simp

text \<open>
  (C19) After any calls, the change log of every feed opens with its registration by at least an operator,
  numbers its records consecutively, and every later record leaves the state the previous one
  entered by a transition that state allows, made by a sufficient role and with a reason. The last
  record names the current state, the version counts the records, and a publishable feed has been
  validated and in the canary.
\<close>

theorem feed_change_log_audits:
  assumes "fs_get (feed_calls cs []) feedId = Some e"
  shows "log_chain (fe_changeLog e) \<and> cg_to (last (fe_changeLog e)) = fe_state e
    \<and> fe_version e = length (fe_changeLog e)
    \<and> (isPublishableState (fe_state e) \<longrightarrow> {Validated, Canary} \<subseteq> cg_to ` set (fe_changeLog e))"
  using jm.all_storedD [OF feed_calls_ok [of "[]" cs]] assms
  by (auto simp: fs_get_def feed_entry_ok_def isPublishableState_def)

abbreviation sample_transition :: "feed_transition \<Rightarrow> feed_role \<Rightarrow> feed_call" where
  "sample_transition t r \<equiv> Transition ''t'' \<lparr>ti_feedId = ''XLM'', ti_transition = t, ti_actor = ''op'', ti_role = r,
     ti_reason = Some ''ok'', ti_metadata = None, ti_at = None\<rparr>"

abbreviation sample_registration :: feed_call where
  "sample_registration \<equiv> Register ''t'' \<lparr>ri_feedId = ''XLM'', ri_actor = ''op'', ri_role = Operator, ri_reason = None,
     ri_metadata = None, ri_at = None\<rparr>"

text \<open>The states and roles along the log of a feed.\<close>

definition feed_trail :: "feed_call list \<Rightarrow> (feed_state \<times> feed_role) list option" where
  "feed_trail cs = map_option (\<lambda>e. map (\<lambda>r. (cg_to r, cg_role r)) (fe_changeLog e)) (fs_get (feed_calls cs []) ''XLM'')"

theorem feed_change_log_audits_witness:
  "\<exists>e. fs_get (feed_calls [sample_registration, sample_transition Validate Operator, sample_transition PromoteToCanary Viewer] []) ''XLM'' = Some e
    \<and> fe_state e = Validated \<and> log_chain (fe_changeLog e)"
proof -
  let ?cs = "[sample_registration, sample_transition Validate Operator, sample_transition PromoteToCanary Viewer]"
  have "map_option fe_state (fs_get (feed_calls ?cs []) ''XLM'') = Some Validated"
    by code_simp
  then obtain e where "fs_get (feed_calls ?cs []) ''XLM'' = Some e" "fe_state e = Validated" by auto
  with feed_change_log_audits [OF this(1)] show ?thesis by blast
qed

text \<open>
  Only an admin may activate a feed, but an operator can suspend a canary feed and resume it, which makes
  it active: the change log then names no admin at all.
\<close>

lemma operator_activates_without_admin:
  "feed_trail [sample_registration, sample_transition Validate Operator, sample_transition PromoteToCanary Operator,
     sample_transition Suspend Operator, sample_transition Resume Operator]
   = Some [(Proposed, Operator), (Validated, Operator), (Canary, Operator), (Suspended, Operator), (Active, Operator)]"
  by code_simp

end
