(* ===== verification/Proposals.thy ===== *)
theory Proposals
  imports Js_Prelude
begin

text \<open>
  Governance and multi-signature proposals, \<open>api/src/governance/proposal-service.ts\<close> with the types of
  \<open>api/src/governance/proposal-types.ts\<close>. The module's variables are one record. Times are whole seconds,
  as the code floors them; a function that reads the clock twice takes both readings. Proposals are
  objects that the code mutates in place, so an operation may change the state and still throw.
\<close>

subsection \<open>proposal-types.ts\<close>

record governance_config =
  gc_token :: string
  gc_votingPeriod :: int
  gc_timelockDelay :: int
  gc_quorum :: int
  gc_proposalThreshold :: int
  gc_guardian :: string

datatype proposal_action =
    AddSource string string | RemoveSource string | SetTrustedAsset string int | TransferAdmin string
  | SetDeviationThreshold int | ResetReputation string | AddSigner string | RemoveSigner string
  | SetThreshold int | SetAdmin string | AddOracleSource string string | RemoveOracleSource string
  | UpdateGovernanceConfig governance_config

record multisig_config =
  mc_signers :: "string list"
  mc_threshold :: int

record multisig_proposal =
  mp_id :: nat
  mp_action :: proposal_action
  mp_approvals :: "string list"
  mp_executed :: nat
  mp_createdAt :: int
  mp_proposer :: string

datatype proposal_status = Active | Queued | Ready | Executed | Defeated | Cancelled

record governance_proposal =
  gp_id :: nat
  gp_proposer :: string
  gp_action :: proposal_action
  gp_description :: string
  gp_votesFor :: int
  gp_votesAgainst :: int
  gp_votingStart :: int
  gp_votingEnd :: int
  gp_executionTime :: int
  gp_status :: proposal_status

record list_query =
  lq_status :: "proposal_status option"
  lq_proposer :: "string option"
  lq_page :: "int option"
  lq_limit :: "int option"

record 'a list_response =
  lr_proposals :: "'a list"
  lr_page :: int
  lr_limit :: int
  lr_total :: nat
  lr_totalPages :: int

fun statusLabel :: "proposal_status \<Rightarrow> string" where
  "statusLabel Active = ''Voting''"
| "statusLabel Queued = ''Queued''"
| "statusLabel Ready = ''Ready''"
| "statusLabel Executed = ''Executed''"
| "statusLabel Defeated = ''Defeated''"
| "statusLabel Cancelled = ''Cancelled''"

fun statusColor :: "proposal_status \<Rightarrow> string" where
  "statusColor Active = ''blue''"
| "statusColor Queued = ''yellow''"
| "statusColor Ready = ''green''"
| "statusColor Executed = ''green''"
| "statusColor Defeated = ''red''"
| "statusColor Cancelled = ''gray''"

subsection \<open>proposal-service.ts\<close>

datatype proposal_error =
    MultiSigNotInitialized | NotASigner | ProposalNotFound | ProposalAlreadyExecuted | AlreadyApproved | ThresholdNotMet
  | GovernanceNotInitialized | VotingNotActive | AlreadyVoted | ProposalDefeated | ProposalCancelled
  | TimeLockNotElapsed | GuardianOnly

record proposal_state =
  ps_multiSigProposals :: "(nat, multisig_proposal) js_map"
  ps_msigProposalCount :: nat
  ps_msigConfig :: "multisig_config option"
  ps_governanceProposals :: "(nat, governance_proposal) js_map"
  ps_govProposalCount :: nat
  ps_govConfig :: "governance_config option"
  ps_votes :: "(string, bool) js_map"

definition initialProposals :: proposal_state where
  "initialProposals = \<lparr>ps_multiSigProposals = [], ps_msigProposalCount = 0, ps_msigConfig = None,
     ps_governanceProposals = [], ps_govProposalCount = 0, ps_govConfig = None, ps_votes = []\<rparr>"

definition initMultiSig :: "multisig_config \<Rightarrow> proposal_state \<Rightarrow> proposal_state" where
  "initMultiSig config s = s\<lparr>ps_msigConfig := Some config, ps_msigProposalCount := 0, ps_multiSigProposals := []\<rparr>"

definition getMultiSigConfig :: "proposal_state \<Rightarrow> multisig_config option" where
  "getMultiSigConfig s = ps_msigConfig s"

type_synonym 'a proposal_result = "proposal_state \<times> (proposal_error + 'a)"

definition createMultiSigProposal ::
  "int \<Rightarrow> string \<Rightarrow> proposal_action \<Rightarrow> proposal_state \<Rightarrow> multisig_proposal proposal_result" where
  "createMultiSigProposal now proposer action s =
     (case ps_msigConfig s of
        None \<Rightarrow> (s, Inl MultiSigNotInitialized)
      | Some config \<Rightarrow>
          if proposer \<notin> set (mc_signers config) then (s, Inl NotASigner)
          else let i = ps_msigProposalCount s + 1;
                   p = \<lparr>mp_id = i, mp_action = action, mp_approvals = [proposer], mp_executed = 0, mp_createdAt = now,
                        mp_proposer = proposer\<rparr>
               in (s\<lparr>ps_msigProposalCount := i, ps_multiSigProposals := jm_set (ps_multiSigProposals s) i p\<rparr>, Inr p))"

definition approveProposal :: "string \<Rightarrow> nat \<Rightarrow> proposal_state \<Rightarrow> multisig_proposal proposal_result" where
  "approveProposal signer i s =
     (case ps_msigConfig s of
        None \<Rightarrow> (s, Inl MultiSigNotInitialized)
      | Some config \<Rightarrow>
          if signer \<notin> set (mc_signers config) then (s, Inl NotASigner)
          else case jm_get (ps_multiSigProposals s) i of
              None \<Rightarrow> (s, Inl ProposalNotFound)
            | Some p \<Rightarrow>
                if mp_executed p = 1 then (s, Inl ProposalAlreadyExecuted)
                else if signer \<in> set (mp_approvals p) then (s, Inl AlreadyApproved)
                else let p' = p\<lparr>mp_approvals := mp_approvals p @ [signer]\<rparr>
                     in (s\<lparr>ps_multiSigProposals := jm_set (ps_multiSigProposals s) i p'\<rparr>, Inr p'))"

definition executeMultiSigProposal :: "string \<Rightarrow> nat \<Rightarrow> proposal_state \<Rightarrow> multisig_proposal proposal_result" where
  "executeMultiSigProposal signer i s =
     (case ps_msigConfig s of
        None \<Rightarrow> (s, Inl MultiSigNotInitialized)
      | Some config \<Rightarrow>
          if signer \<notin> set (mc_signers config) then (s, Inl NotASigner)
          else case jm_get (ps_multiSigProposals s) i of
              None \<Rightarrow> (s, Inl ProposalNotFound)
            | Some p \<Rightarrow>
                if mp_executed p = 1 then (s, Inl ProposalAlreadyExecuted)
                else if int (length (mp_approvals p)) < mc_threshold config then (s, Inl ThresholdNotMet)
                else let p' = p\<lparr>mp_executed := 1\<rparr>
                     in (s\<lparr>ps_multiSigProposals := jm_set (ps_multiSigProposals s) i p'\<rparr>, Inr p'))"

definition getMultiSigProposal :: "nat \<Rightarrow> proposal_state \<Rightarrow> multisig_proposal option" where
  "getMultiSigProposal i s = jm_get (ps_multiSigProposals s) i"

text \<open>\<open>x || d\<close> on an optional number, and \<open>Array.prototype.slice\<close>.\<close>

definition or_default :: "int option \<Rightarrow> int \<Rightarrow> int" where
  "or_default x d = (case x of None \<Rightarrow> d | Some v \<Rightarrow> if v = 0 then d else v)"

definition slice_index :: "nat \<Rightarrow> int \<Rightarrow> nat" where
  "slice_index n i = nat (if i < 0 then max (int n + i) 0 else min i (int n))"

definition js_slice :: "'a list \<Rightarrow> int \<Rightarrow> int \<Rightarrow> 'a list" where
  "js_slice xs a b = take (slice_index (length xs) b - slice_index (length xs) a) (drop (slice_index (length xs) a) xs)"

definition paginate :: "list_query \<Rightarrow> 'a list \<Rightarrow> 'a list_response" where
  "paginate query proposals =
     (let page = or_default (lq_page query) 1;
          limit = or_default (lq_limit query) 20;
          total = length proposals;
          totalPages = \<lceil>rat_of_nat total / rat_of_int limit\<rceil>;
          start = (page - 1) * limit
      in \<lparr>lr_proposals = js_slice proposals start (start + limit), lr_page = page, lr_limit = limit, lr_total = total,
          lr_totalPages = totalPages\<rparr>)"

definition by_proposer :: "list_query \<Rightarrow> ('a \<Rightarrow> string) \<Rightarrow> 'a list \<Rightarrow> 'a list" where
  "by_proposer query f ps =
     (case lq_proposer query of None \<Rightarrow> ps | Some a \<Rightarrow> if a = [] then ps else filter (\<lambda>p. f p = a) ps)"

definition listMultiSigProposals :: "list_query \<Rightarrow> proposal_state \<Rightarrow> multisig_proposal list_response" where
  "listMultiSigProposals query s = paginate query (by_proposer query mp_proposer (jm_values (ps_multiSigProposals s)))"

definition initGovernance :: "governance_config \<Rightarrow> proposal_state \<Rightarrow> proposal_state" where
  "initGovernance config s = s\<lparr>ps_govConfig := Some config, ps_govProposalCount := 0, ps_governanceProposals := [], ps_votes := []\<rparr>"

definition getGovernanceConfig :: "proposal_state \<Rightarrow> governance_config option" where
  "getGovernanceConfig s = ps_govConfig s"

definition createGovernanceProposal ::
  "int \<Rightarrow> string \<Rightarrow> proposal_action \<Rightarrow> string \<Rightarrow> proposal_state \<Rightarrow> governance_proposal proposal_result" where
  "createGovernanceProposal now proposer action description s =
     (case ps_govConfig s of
        None \<Rightarrow> (s, Inl GovernanceNotInitialized)
      | Some config \<Rightarrow>
          let i = ps_govProposalCount s + 1;
              p = \<lparr>gp_id = i, gp_proposer = proposer, gp_action = action, gp_description = description,
                   gp_votesFor = 0, gp_votesAgainst = 0, gp_votingStart = now, gp_votingEnd = now + gc_votingPeriod config,
                   gp_executionTime = now + gc_votingPeriod config + gc_timelockDelay config, gp_status = Active\<rparr>
          in (s\<lparr>ps_govProposalCount := i, ps_governanceProposals := jm_set (ps_governanceProposals s) i p\<rparr>, Inr p))"

definition vote_key :: "nat \<Rightarrow> string \<Rightarrow> string" where
  "vote_key i voter = js_digits i @ '':'' @ voter"

definition votingPower :: int where
  "votingPower = 100000"

definition gov_put :: "nat \<Rightarrow> governance_proposal \<Rightarrow> proposal_state \<Rightarrow> proposal_state" where
  "gov_put i p s = s\<lparr>ps_governanceProposals := jm_set (ps_governanceProposals s) i p\<rparr>"

definition castVote :: "int \<Rightarrow> string \<Rightarrow> nat \<Rightarrow> bool \<Rightarrow> proposal_state \<Rightarrow> governance_proposal proposal_result" where
  "castVote now voter i support s =
     (if ps_govConfig s = None then (s, Inl GovernanceNotInitialized)
      else case jm_get (ps_governanceProposals s) i of
          None \<Rightarrow> (s, Inl ProposalNotFound)
        | Some p \<Rightarrow>
            if gp_status p \<noteq> Active then (s, Inl VotingNotActive)
            else if now \<ge> gp_votingEnd p then (s, Inl VotingNotActive)
            else if jm_has (ps_votes s) (vote_key i voter) then (s, Inl AlreadyVoted)
            else let p' = (if support then p\<lparr>gp_votesFor := gp_votesFor p + votingPower\<rparr>
                           else p\<lparr>gp_votesAgainst := gp_votesAgainst p + votingPower\<rparr>)
                 in (gov_put i p' (s\<lparr>ps_votes := jm_set (ps_votes s) (vote_key i voter) support\<rparr>), Inr p'))"

text \<open>The condition that \<open>queueProposal\<close> and \<open>executeGovernanceProposal\<close> both spell out.\<close>

definition carried :: "governance_config \<Rightarrow> governance_proposal \<Rightarrow> bool" where
  "carried config p \<longleftrightarrow> gp_votesFor p + gp_votesAgainst p \<ge> gc_quorum config \<and> gp_votesFor p > gp_votesAgainst p"

definition queueProposal :: "int \<Rightarrow> nat \<Rightarrow> proposal_state \<Rightarrow> governance_proposal proposal_result" where
  "queueProposal now i s =
     (case ps_govConfig s of
        None \<Rightarrow> (s, Inl GovernanceNotInitialized)
      | Some config \<Rightarrow>
          case jm_get (ps_governanceProposals s) i of
            None \<Rightarrow> (s, Inl ProposalNotFound)
          | Some p \<Rightarrow>
              if gp_status p \<noteq> Active then (s, Inl VotingNotActive)
              else if now < gp_votingEnd p then (s, Inl VotingNotActive)
              else if carried config p
              then (let p' = p\<lparr>gp_status := Queued\<rparr> in (gov_put i p' s, Inr p'))
              else (gov_put i (p\<lparr>gp_status := Defeated\<rparr>) s, Inl ProposalDefeated))"

text \<open>The second half of \<open>executeGovernanceProposal\<close>, on the proposal after auto-resolution.\<close>

definition execute_resolved :: "int \<Rightarrow> nat \<Rightarrow> governance_proposal \<Rightarrow> proposal_state \<Rightarrow> governance_proposal proposal_result" where
  "execute_resolved now i p s =
     (if gp_status p \<noteq> Queued \<and> gp_status p \<noteq> Ready then (gov_put i p s, Inl VotingNotActive)
      else if now < gp_executionTime p then (gov_put i p s, Inl TimeLockNotElapsed)
      else let p' = p\<lparr>gp_status := Executed\<rparr> in (gov_put i p' s, Inr p'))"

definition executeGovernanceProposal ::
  "int \<Rightarrow> int \<Rightarrow> nat \<Rightarrow> proposal_state \<Rightarrow> governance_proposal proposal_result" where
  "executeGovernanceProposal now now' i s =
     (case ps_govConfig s of
        None \<Rightarrow> (s, Inl GovernanceNotInitialized)
      | Some config \<Rightarrow>
          case jm_get (ps_governanceProposals s) i of
            None \<Rightarrow> (s, Inl ProposalNotFound)
          | Some p \<Rightarrow>
              if gp_status p = Executed then (s, Inl ProposalAlreadyExecuted)
              else if gp_status p = Cancelled then (s, Inl ProposalCancelled)
              else if gp_status p = Defeated then (s, Inl ProposalDefeated)
              else if gp_status p = Active \<and> now \<ge> gp_votingEnd p
              then (if carried config p
                    then execute_resolved now' i (p\<lparr>gp_status := Queued, gp_executionTime := now\<rparr>) s
                    else (gov_put i (p\<lparr>gp_status := Defeated\<rparr>) s, Inl ProposalDefeated))
              else execute_resolved now' i p s)"

definition cancelProposal :: "string \<Rightarrow> nat \<Rightarrow> proposal_state \<Rightarrow> governance_proposal proposal_result" where
  "cancelProposal caller i s =
     (if ps_govConfig s = None then (s, Inl GovernanceNotInitialized)
      else case jm_get (ps_governanceProposals s) i of
          None \<Rightarrow> (s, Inl ProposalNotFound)
        | Some p \<Rightarrow>
            if gp_status p = Executed then (s, Inl ProposalAlreadyExecuted)
            else if gp_status p = Cancelled then (s, Inl ProposalCancelled)
            else let p' = p\<lparr>gp_status := Cancelled\<rparr> in (gov_put i p' s, Inr p'))"

definition emergencyExecute :: "string \<Rightarrow> nat \<Rightarrow> proposal_state \<Rightarrow> governance_proposal proposal_result" where
  "emergencyExecute guardian i s =
     (case ps_govConfig s of
        None \<Rightarrow> (s, Inl GovernanceNotInitialized)
      | Some config \<Rightarrow>
          if gc_guardian config \<noteq> guardian then (s, Inl GuardianOnly)
          else case jm_get (ps_governanceProposals s) i of
              None \<Rightarrow> (s, Inl ProposalNotFound)
            | Some p \<Rightarrow>
                if gp_status p = Executed then (s, Inl ProposalAlreadyExecuted)
                else if gp_status p = Cancelled then (s, Inl ProposalCancelled)
                else let p' = p\<lparr>gp_status := Executed\<rparr> in (gov_put i p' s, Inr p'))"

definition getGovernanceProposal :: "nat \<Rightarrow> proposal_state \<Rightarrow> governance_proposal option" where
  "getGovernanceProposal i s = jm_get (ps_governanceProposals s) i"

definition listGovernanceProposals :: "list_query \<Rightarrow> proposal_state \<Rightarrow> governance_proposal list_response" where
  "listGovernanceProposals query s =
     (let ps = jm_values (ps_governanceProposals s);
          ps' = (case lq_status query of None \<Rightarrow> ps | Some st \<Rightarrow> filter (\<lambda>p. gp_status p = st) ps)
      in paginate query (by_proposer query gp_proposer ps'))"

definition hasVoted :: "nat \<Rightarrow> string \<Rightarrow> proposal_state \<Rightarrow> bool" where
  "hasVoted i voter s = jm_has (ps_votes s) (vote_key i voter)"

subsection \<open>Call sequences\<close>

datatype proposal_call =
    InitMultiSig multisig_config
  | CreateMultiSig int string proposal_action
  | Approve string nat
  | ExecuteMultiSig string nat
  | InitGovernance governance_config
  | CreateGovernance int string proposal_action string
  | CastVote int string nat bool
  | Queue int nat
  | ExecuteGovernance int int nat
  | Cancel string nat
  | EmergencyExecute string nat

fun proposal_step :: "proposal_call \<Rightarrow> proposal_state \<Rightarrow> proposal_state" where
  "proposal_step (InitMultiSig c) s = initMultiSig c s"
| "proposal_step (CreateMultiSig now a act) s = fst (createMultiSigProposal now a act s)"
| "proposal_step (Approve a i) s = fst (approveProposal a i s)"
| "proposal_step (ExecuteMultiSig a i) s = fst (executeMultiSigProposal a i s)"
| "proposal_step (InitGovernance c) s = initGovernance c s"
| "proposal_step (CreateGovernance now a act d) s = fst (createGovernanceProposal now a act d s)"
| "proposal_step (CastVote now v i b) s = fst (castVote now v i b s)"
| "proposal_step (Queue now i) s = fst (queueProposal now i s)"
| "proposal_step (ExecuteGovernance now now' i) s = fst (executeGovernanceProposal now now' i s)"
| "proposal_step (Cancel a i) s = fst (cancelProposal a i s)"
| "proposal_step (EmergencyExecute a i) s = fst (emergencyExecute a i s)"

definition proposal_calls :: "proposal_call list \<Rightarrow> proposal_state" where
  "proposal_calls cs = fold proposal_step cs initialProposals"

lemma proposal_calls_induct:
  assumes "P initialProposals" "\<And>c s. P s \<Longrightarrow> P (proposal_step c s)"
  shows "P (proposal_calls cs)"
proof -
  have "P s \<Longrightarrow> P (fold proposal_step cs s)" for s
    using assms(2) by (induction cs arbitrary: s) auto
  with assms(1) show ?thesis by (simp add: proposal_calls_def)
qed

subsection \<open>Multi-signature approval\<close>

definition msig_ok :: "multisig_config \<Rightarrow> multisig_proposal \<Rightarrow> bool" where
  "msig_ok c p \<longleftrightarrow> distinct (mp_approvals p) \<and> set (mp_approvals p) \<subseteq> set (mc_signers c)
     \<and> (mp_executed p = 1 \<longrightarrow> mc_threshold c \<le> int (length (mp_approvals p)))"

definition multisigs_ok :: "proposal_state \<Rightarrow> bool" where
  "multisigs_ok s \<longleftrightarrow> (case ps_msigConfig s of
     None \<Rightarrow> ps_multiSigProposals s = []
   | Some c \<Rightarrow> jm.all_stored (\<lambda>i. msig_ok c) (ps_multiSigProposals s))"

lemma gov_put_msig [simp]:
  "ps_msigConfig (gov_put i p s) = ps_msigConfig s" "ps_multiSigProposals (gov_put i p s) = ps_multiSigProposals s"
  by (simp_all add: gov_put_def)

fun on_governance :: "proposal_call \<Rightarrow> bool" where
  "on_governance (InitMultiSig _) = False"
| "on_governance (CreateMultiSig _ _ _) = False"
| "on_governance (Approve _ _) = False"
| "on_governance (ExecuteMultiSig _ _) = False"
| "on_governance _ = True"

text \<open>The two halves of the service do not touch each other's state.\<close>

lemma governance_keeps_multisigs:
  "on_governance c \<Longrightarrow> ps_msigConfig (proposal_step c s) = ps_msigConfig s \<and> ps_multiSigProposals (proposal_step c s) = ps_multiSigProposals s"
  by (cases c) (simp_all add: initGovernance_def createGovernanceProposal_def castVote_def queueProposal_def
      executeGovernanceProposal_def execute_resolved_def cancelProposal_def emergencyExecute_def Let_def split: option.split)

lemma multisig_keeps_governance:
  "\<not> on_governance c \<Longrightarrow> ps_govConfig (proposal_step c s) = ps_govConfig s
     \<and> ps_governanceProposals (proposal_step c s) = ps_governanceProposals s
     \<and> ps_govProposalCount (proposal_step c s) = ps_govProposalCount s \<and> ps_votes (proposal_step c s) = ps_votes s"
  by (cases c) (simp_all add: initMultiSig_def createMultiSigProposal_def approveProposal_def executeMultiSigProposal_def
      Let_def split: option.split)

lemma msig_ok_put:
  assumes "multisigs_ok s" "ps_msigConfig s = Some c" "msig_ok c p"
  shows "multisigs_ok (s\<lparr>ps_multiSigProposals := jm_set (ps_multiSigProposals s) i p\<rparr>)"
  using assms by (simp add: multisigs_ok_def jm.all_stored_put)

lemma msig_ok_get:
  assumes "multisigs_ok s" "ps_msigConfig s = Some c" "jm_get (ps_multiSigProposals s) i = Some p"
  shows "msig_ok c p"
  using assms jm.all_storedD [of "\<lambda>i. msig_ok c" "ps_multiSigProposals s" i p] by (simp add: multisigs_ok_def)

lemma multisigs_ok_create:
  assumes "multisigs_ok s"
  shows "multisigs_ok (fst (createMultiSigProposal now a act s))"
  using assms
  by (auto simp: createMultiSigProposal_def Let_def multisigs_ok_def msig_ok_def split: option.splits intro!: jm.all_stored_put)

lemma multisigs_ok_approve:
  assumes "multisigs_ok s"
  shows "multisigs_ok (fst (approveProposal a i s))"
proof (cases "ps_msigConfig s")
  case (Some c)
  have "msig_ok c (p\<lparr>mp_approvals := mp_approvals p @ [a]\<rparr>)"
    if "jm_get (ps_multiSigProposals s) i = Some p" "a \<in> set (mc_signers c)" "mp_executed p \<noteq> 1" "a \<notin> set (mp_approvals p)" for p
    using msig_ok_get [OF assms Some that(1)] that by (auto simp: msig_ok_def)
  with Some assms show ?thesis
    by (auto simp: approveProposal_def Let_def split: option.split intro!: msig_ok_put)
qed (use assms in \<open>simp add: approveProposal_def\<close>)

lemma multisigs_ok_execute:
  assumes "multisigs_ok s"
  shows "multisigs_ok (fst (executeMultiSigProposal a i s))"
proof (cases "ps_msigConfig s")
  case (Some c)
  have "msig_ok c (p\<lparr>mp_executed := 1\<rparr>)"
    if "jm_get (ps_multiSigProposals s) i = Some p" "\<not> int (length (mp_approvals p)) < mc_threshold c" for p
    using msig_ok_get [OF assms Some that(1)] that by (auto simp: msig_ok_def)
  with Some assms show ?thesis
    by (auto simp: executeMultiSigProposal_def Let_def split: option.split intro!: msig_ok_put)
qed (use assms in \<open>simp add: executeMultiSigProposal_def\<close>)

lemma multisigs_ok_step: "multisigs_ok s \<Longrightarrow> multisigs_ok (proposal_step c s)"
proof (cases "on_governance c")
  case True
  from governance_keeps_multisigs [OF this, of s] show "multisigs_ok s \<Longrightarrow> multisigs_ok (proposal_step c s)"
    by (simp add: multisigs_ok_def split: option.splits)
next
  case False
  moreover have "multisigs_ok (initMultiSig x s)" for x
    by (simp add: initMultiSig_def multisigs_ok_def)
  ultimately show "multisigs_ok s \<Longrightarrow> multisigs_ok (proposal_step c s)"
    by (cases c) (simp_all add: multisigs_ok_create multisigs_ok_approve multisigs_ok_execute)
qed

lemma multisigs_ok_calls: "multisigs_ok (proposal_calls cs)"
  by (rule proposal_calls_induct) (simp_all add: multisigs_ok_step, simp add: multisigs_ok_def initialProposals_def)

text \<open>
  (C20) After any calls, an executed multi-signature proposal carries the approvals of at least
  the threshold of different configured signers.
\<close>

theorem multisig_executed_with_threshold:
  assumes "getMultiSigConfig (proposal_calls cs) = Some c"
    and "getMultiSigProposal i (proposal_calls cs) = Some p" "mp_executed p = 1"
  shows "set (mp_approvals p) \<subseteq> set (mc_signers c) \<and> mc_threshold c \<le> int (card (set (mp_approvals p)))"
proof -
  from msig_ok_get [OF multisigs_ok_calls [of cs]] assms have "msig_ok c p"
    by (auto simp: getMultiSigConfig_def getMultiSigProposal_def)
  with assms(3) show ?thesis by (simp add: msig_ok_def distinct_card)
qed

abbreviation sample_multisig :: "proposal_call list" where
  "sample_multisig \<equiv> [InitMultiSig \<lparr>mc_signers = [''a'', ''b'', ''c''], mc_threshold = 2\<rparr>,
     CreateMultiSig 0 ''a'' (SetThreshold 3), ExecuteMultiSig ''a'' 1, Approve ''b'' 1, ExecuteMultiSig ''c'' 1]"

theorem multisig_executed_with_threshold_witness:
  "\<exists>p. getMultiSigProposal 1 (proposal_calls sample_multisig) = Some p \<and> mp_executed p = 1 \<and> 2 \<le> card (set (mp_approvals p))"
proof -
  have "map_option mp_executed (getMultiSigProposal 1 (proposal_calls sample_multisig)) = Some 1"
    and c: "getMultiSigConfig (proposal_calls sample_multisig) = Some \<lparr>mc_signers = [''a'', ''b'', ''c''], mc_threshold = 2\<rparr>"
    by code_simp+
  then obtain p where p: "getMultiSigProposal 1 (proposal_calls sample_multisig) = Some p" "mp_executed p = 1" by auto
  with multisig_executed_with_threshold [OF c p] show ?thesis by simp
qed

subsection \<open>Votes and execution\<close>

text \<open>The voters of a proposal, by their vote.\<close>

definition voters :: "proposal_state \<Rightarrow> nat \<Rightarrow> bool \<Rightarrow> string set" where
  "voters s i b = {v. jm_get (ps_votes s) (vote_key i v) = Some b}"

lemma vote_key_inj: "vote_key i v = vote_key j w \<longleftrightarrow> i = j \<and> v = w"
  using js_digits_colon_inj [of i v j w] by (auto simp: vote_key_def)

lemma finite_voters [simp]: "finite (voters s i b)"
proof -
  have "vote_key i ` voters s i b \<subseteq> set (jm_keys (ps_votes s))"
    by (force simp: voters_def dest: jm_get_mem)
  then have "finite (vote_key i ` voters s i b)" by (rule finite_subset) simp
  then show ?thesis by (rule finite_imageD) (simp add: inj_on_def vote_key_inj)
qed

lemma voters_cong: "ps_votes s' = ps_votes s \<Longrightarrow> voters s' = voters s"
  by (simp add: voters_def fun_eq_iff)

lemma voters_cast:
  assumes "\<not> jm_has (ps_votes s) (vote_key i v)"
  shows "voters (s\<lparr>ps_votes := jm_set (ps_votes s) (vote_key i v) b\<rparr>) j c = (if i = j \<and> b = c then insert v (voters s j c) else voters s j c)"
    and "v \<notin> voters s i c"
  using assms by (auto simp: voters_def jm_get_set vote_key_inj jm_has_def split: if_splits)

definition tally_ok :: "(nat \<Rightarrow> bool \<Rightarrow> string set) \<Rightarrow> governance_config \<Rightarrow> nat \<Rightarrow> nat \<Rightarrow> governance_proposal \<Rightarrow> bool" where
  "tally_ok V c n i p \<longleftrightarrow> i \<le> n
     \<and> gp_votesFor p = votingPower * int (card (V i True)) \<and> gp_votesAgainst p = votingPower * int (card (V i False))
     \<and> gp_status p \<noteq> Ready
     \<and> (gp_status p = Active \<longrightarrow> gp_executionTime p = gp_votingEnd p + gc_timelockDelay c)
     \<and> (gp_status p = Queued \<longrightarrow> carried c p \<and> (gp_executionTime p = gp_votingEnd p + gc_timelockDelay c \<or> gp_votingEnd p \<le> gp_executionTime p))"

text \<open>Votes exist only for proposals that were created.\<close>

definition governance_ok :: "proposal_state \<Rightarrow> bool" where
  "governance_ok s \<longleftrightarrow> (case ps_govConfig s of
     None \<Rightarrow> ps_governanceProposals s = [] \<and> ps_votes s = [] \<and> ps_govProposalCount s = 0
   | Some c \<Rightarrow> jm.all_stored (tally_ok (voters s) c (ps_govProposalCount s)) (ps_governanceProposals s)
       \<and> (\<forall>i > ps_govProposalCount s. \<forall>b. voters s i b = {}))"

lemma governance_okD:
  assumes "governance_ok s" "ps_govConfig s = Some c" "jm_get (ps_governanceProposals s) i = Some p"
  shows "tally_ok (voters s) c (ps_govProposalCount s) i p"
  using assms jm.all_storedD [of "tally_ok (voters s) c (ps_govProposalCount s)" "ps_governanceProposals s" i p]
  by (simp add: governance_ok_def)

lemma governance_ok_put:
  assumes "governance_ok s" "ps_govConfig s = Some c" "tally_ok (voters s) c (ps_govProposalCount s) i p"
  shows "governance_ok (gov_put i p s)"
proof -
  have "voters (gov_put i p s) = voters s" by (rule voters_cong) (simp add: gov_put_def)
  with assms show ?thesis by (simp add: governance_ok_def gov_put_def jm.all_stored_put)
qed

lemma governance_ok_create:
  assumes "governance_ok s"
  shows "governance_ok (fst (createGovernanceProposal now a act d s))"
proof (cases "ps_govConfig s")
  case (Some c)
  let ?s = "fst (createGovernanceProposal now a act d s)"
  have V: "voters ?s = voters s"
    by (rule voters_cong) (simp add: createGovernanceProposal_def Let_def split: option.split)
  have old: "jm.all_stored (tally_ok (voters s) c (ps_govProposalCount s + 1)) (ps_governanceProposals s)"
    by (rule jm.all_stored_mono [where P = "tally_ok (voters s) c (ps_govProposalCount s)"])
      (use assms Some in \<open>auto simp: governance_ok_def tally_ok_def\<close>)
  have "voters s (Suc (ps_govProposalCount s)) b = {}" for b
    using assms Some by (simp add: governance_ok_def)
  with Some assms old V show ?thesis
    by (auto simp: governance_ok_def createGovernanceProposal_def Let_def tally_ok_def intro!: jm.all_stored_put)
qed (use assms in \<open>simp add: createGovernanceProposal_def\<close>)

lemma governance_ok_vote:
  assumes ok: "governance_ok s"
  shows "governance_ok (fst (castVote now v i b s))"
proof (cases "fst (castVote now v i b s) = s")
  case False
  then obtain c p where c: "ps_govConfig s = Some c" and p: "jm_get (ps_governanceProposals s) i = Some p" "gp_status p = Active"
    and new: "\<not> jm_has (ps_votes s) (vote_key i v)"
    by (auto simp: castVote_def split: if_splits option.splits)
  let ?p = "if b then p\<lparr>gp_votesFor := gp_votesFor p + votingPower\<rparr> else p\<lparr>gp_votesAgainst := gp_votesAgainst p + votingPower\<rparr>"
  let ?s = "s\<lparr>ps_votes := jm_set (ps_votes s) (vote_key i v) b\<rparr>"
  have s': "fst (castVote now v i b s) = gov_put i ?p ?s"
    using False c p new by (auto simp: castVote_def Let_def split: if_splits)
  have V: "voters ?s j d = (if i = j \<and> b = d then insert v (voters s j d) else voters s j d)" for j d
    using voters_cast(1) [OF new] .
  have V': "voters (gov_put i ?p ?s) = voters ?s" by (rule voters_cong) (simp add: gov_put_def)
  note t = governance_okD [OF ok c p(1)]
  have "tally_ok (voters ?s) c (ps_govProposalCount s) i ?p"
    using t p(2) voters_cast(2) [OF new] by (auto simp: tally_ok_def V card_insert_if algebra_simps)
  moreover have "tally_ok (voters ?s) c (ps_govProposalCount s) j q" if "jm_get (ps_governanceProposals s) j = Some q" "j \<noteq> i" for j q
    using governance_okD [OF ok c that(1)] that(2) by (simp add: tally_ok_def V)
  moreover have "jm_wf (ps_governanceProposals s)"
    using ok c by (auto simp: governance_ok_def intro: jm.all_stored_wf)
  ultimately have "jm.all_stored (tally_ok (voters ?s) c (ps_govProposalCount s)) (jm_set (ps_governanceProposals s) i ?p)"
    by (auto simp: jm.all_stored_def jm_get_set split: if_splits)
  moreover have "voters ?s j d = {}" if "ps_govProposalCount s < j" for j d
    using ok c t that by (auto simp: governance_ok_def V tally_ok_def)
  ultimately show ?thesis
    unfolding s' using c V' by (simp add: governance_ok_def gov_put_def)
qed (use ok in simp)

lemma governance_ok_status:
  assumes "governance_ok s" "ps_govConfig s = Some c" "jm_get (ps_governanceProposals s) i = Some p"
    "st \<in> {Executed, Defeated, Cancelled} \<or> st = Queued \<and> gp_status p = Active \<and> carried c p"
  shows "governance_ok (gov_put i (p\<lparr>gp_status := st\<rparr>) s)"
proof (rule governance_ok_put [OF assms(1,2)])
  show "tally_ok (voters s) c (ps_govProposalCount s) i (p\<lparr>gp_status := st\<rparr>)"
    using governance_okD [OF assms(1-3)] assms(4) by (auto simp: tally_ok_def carried_def)
qed

lemma governance_ok_queue: "governance_ok s \<Longrightarrow> governance_ok (fst (queueProposal now i s))"
  by (auto simp: queueProposal_def Let_def governance_ok_status split: option.split)

lemma governance_ok_resolved:
  assumes "governance_ok s" "ps_govConfig s = Some c" "tally_ok (voters s) c (ps_govProposalCount s) i p"
  shows "governance_ok (fst (execute_resolved now i p s))"
proof -
  have "tally_ok (voters s) c (ps_govProposalCount s) i (p\<lparr>gp_status := Executed\<rparr>)"
    using assms(3) by (simp add: tally_ok_def)
  with assms show ?thesis by (auto simp: execute_resolved_def Let_def intro!: governance_ok_put)
qed

lemma governance_ok_execute:
  assumes ok: "governance_ok s"
  shows "governance_ok (fst (executeGovernanceProposal now now' i s))"
proof (cases "ps_govConfig s")
  case (Some c)
  show ?thesis
  proof (cases "jm_get (ps_governanceProposals s) i")
    case p: (Some p)
    note t = governance_okD [OF ok Some p]
    have "tally_ok (voters s) c (ps_govProposalCount s) i (p\<lparr>gp_status := Queued, gp_executionTime := now\<rparr>)"
      if "carried c p" "gp_votingEnd p \<le> now"
      using t that by (simp add: tally_ok_def carried_def)
    with Some p t ok show ?thesis
      by (auto simp: executeGovernanceProposal_def governance_ok_status intro!: governance_ok_resolved)
  qed (use Some ok in \<open>simp add: executeGovernanceProposal_def\<close>)
qed (use ok in \<open>simp add: executeGovernanceProposal_def\<close>)

lemma governance_ok_step: "governance_ok s \<Longrightarrow> governance_ok (proposal_step c s)"
proof (cases "on_governance c")
  case False
  note keep = multisig_keeps_governance [OF this, of s]
  then have "voters (proposal_step c s) = voters s" by (intro voters_cong) simp
  with keep show "governance_ok s \<Longrightarrow> governance_ok (proposal_step c s)"
    by (simp add: governance_ok_def split: option.splits)
next
  case True
  assume ok: "governance_ok s"
  have "governance_ok (initGovernance x s)" for x
    by (simp add: initGovernance_def governance_ok_def voters_def)
  moreover have "governance_ok (fst (cancelProposal a i s))" "governance_ok (fst (emergencyExecute a i s))" for a i
    using ok by (auto simp: cancelProposal_def emergencyExecute_def Let_def governance_ok_status split: option.split)
  ultimately show "governance_ok (proposal_step c s)"
    using True ok by (cases c)
      (simp_all add: governance_ok_create governance_ok_vote governance_ok_queue governance_ok_execute)
qed

lemma execute_succeeds:
  assumes "executeGovernanceProposal now now' i s = (s', Inr p)"
  obtains c q where "ps_govConfig s = Some c" "jm_get (ps_governanceProposals s) i = Some q"
    "gp_votingEnd p = gp_votingEnd q" "gp_status q = Active \<and> carried c q \<and> gp_votingEnd q \<le> now \<and> now \<le> now'
      \<or> gp_status q \<in> {Queued, Ready} \<and> gp_executionTime q \<le> now'"
  using assms by (auto simp: executeGovernanceProposal_def execute_resolved_def Let_def split: option.splits if_splits)

text \<open>
  (C21) A proposal that executes outside the emergency path was carried: after the voting period,
  with every voter counted once at the fixed voting power, the votes reach the quorum and more voters
  are for it than against it.
\<close>

theorem governance_execution_carried:
  assumes "getGovernanceConfig (proposal_calls cs) = Some c" "0 \<le> gc_timelockDelay c"
    and "executeGovernanceProposal now now' i (proposal_calls cs) = (s', Inr p)"
  defines "n \<equiv> card (voters (proposal_calls cs) i True)" and "m \<equiv> card (voters (proposal_calls cs) i False)"
  shows "gp_votingEnd p \<le> now' \<and> gc_quorum c \<le> votingPower * int (n + m) \<and> m < n"
proof -
  have ok: "governance_ok (proposal_calls cs)"
    by (rule proposal_calls_induct) (simp_all add: governance_ok_step, simp add: governance_ok_def initialProposals_def)
  obtain c' q where q: "ps_govConfig (proposal_calls cs) = Some c'" "jm_get (ps_governanceProposals (proposal_calls cs)) i = Some q"
    "gp_votingEnd p = gp_votingEnd q" "gp_status q = Active \<and> carried c' q \<and> gp_votingEnd q \<le> now \<and> now \<le> now'
      \<or> gp_status q \<in> {Queued, Ready} \<and> gp_executionTime q \<le> now'"
    by (rule execute_succeeds [OF assms(3)])
  have c: "c' = c" using assms(1) q(1) by (simp add: getGovernanceConfig_def)
  note t = governance_okD [OF ok q(1,2), unfolded c]
  then have "carried c q \<and> gp_votingEnd q \<le> now'"
    using q(4) assms(2) by (auto simp: tally_ok_def c)
  with t q(3) show ?thesis
    by (auto simp: carried_def tally_ok_def n_def m_def votingPower_def)
qed

abbreviation sample_governance :: "proposal_call list" where
  "sample_governance \<equiv> [InitGovernance \<lparr>gc_token = ''T'', gc_votingPeriod = 10, gc_timelockDelay = 1000, gc_quorum = 150000,
     gc_proposalThreshold = 0, gc_guardian = ''g''\<rparr>, CreateGovernance 0 ''a'' (SetAdmin ''a'') ''d'', CastVote 1 ''a'' 1 True,
     CastVote 1 ''a'' 1 True, CastVote 2 ''b'' 1 True]"

theorem governance_execution_carried_witness:
  "card (voters (proposal_calls (sample_governance @ [Queue 10 1])) 1 False)
     < card (voters (proposal_calls (sample_governance @ [Queue 10 1])) 1 True)"
proof -
  let ?cs = "sample_governance @ [Queue 10 1]"
  have "getGovernanceConfig (proposal_calls ?cs) = Some \<lparr>gc_token = ''T'', gc_votingPeriod = 10, gc_timelockDelay = 1000,
      gc_quorum = 150000, gc_proposalThreshold = 0, gc_guardian = ''g''\<rparr>"
    by code_simp
  moreover have "map_option gp_status (case executeGovernanceProposal 1010 1010 1 (proposal_calls ?cs) of
      (_, Inr p) \<Rightarrow> Some p | _ \<Rightarrow> None) = Some Executed"
    by code_simp
  then obtain s' p where "executeGovernanceProposal 1010 1010 1 (proposal_calls ?cs) = (s', Inr p)"
    by (auto split: prod.splits sum.splits)
  ultimately show ?thesis
    using governance_execution_carried [of ?cs _ 1010 1010 1 s' p] by fastforce
qed

text \<open>
  A queued proposal waits for its timelock, but executing it directly from the voting phase skips the delay:
  the automatic resolution moves the execution time to the present.
\<close>

definition execution_outcome :: "proposal_state \<Rightarrow> int \<Rightarrow> nat \<Rightarrow> proposal_error + proposal_status" where
  "execution_outcome s now i = (case snd (executeGovernanceProposal now now i s) of Inl e \<Rightarrow> Inl e | Inr p \<Rightarrow> Inr (gp_status p))"

lemma auto_resolution_skips_timelock:
  "execution_outcome (proposal_calls (sample_governance @ [Queue 10 1])) 10 1 = Inl TimeLockNotElapsed"
  "execution_outcome (proposal_calls sample_governance) 10 1 = Inr Executed"
  by code_simp+

text \<open>The guardian can execute a proposal that the vote has defeated.\<close>

lemma guardian_executes_defeated:
  "map_option gp_status (getGovernanceProposal 1 (proposal_calls (take 2 sample_governance @ [Queue 10 1]))) = Some Defeated"
  "map_option gp_status (getGovernanceProposal 1 (proposal_calls (take 2 sample_governance @ [Queue 10 1, EmergencyExecute ''g'' 1]))) = Some Executed"
  by code_simp+

subsection \<open>Listing\<close>

lemma js_slice_page: "js_slice xs (int a) (int a + int b) = take b (drop a xs)"
proof (cases "a \<le> length xs")
  case True
  then have "slice_index (length xs) (int a) = a" "slice_index (length xs) (int a + int b) = min (a + b) (length xs)"
    by (auto simp: slice_index_def min_def)
  then show ?thesis by (simp add: js_slice_def min_def)
next
  case False
  then have "slice_index (length xs) (int a) = length xs" by (simp add: slice_index_def)
  with False show ?thesis by (simp add: js_slice_def)
qed

lemma concat_pages: "concat (map (\<lambda>k. take l (drop (k * l) xs)) [0..<n]) = take (n * l) xs"
proof (induction n)
  case (Suc n)
  have "take (n * l) xs @ take l (drop (n * l) xs) = take (n * l + l) xs" by (rule take_add [symmetric])
  with Suc show ?case by (simp add: add.commute)
qed simp

definition matches :: "list_query \<Rightarrow> governance_proposal \<Rightarrow> bool" where
  "matches query p \<longleftrightarrow> lq_status query \<in> {None, Some (gp_status p)} \<and> lq_proposer query \<in> {None, Some [], Some (gp_proposer p)}"

lemma listGovernanceProposals_paginate:
  "listGovernanceProposals query s = paginate query (filter (matches query) (jm_values (ps_governanceProposals s)))"
  by (cases "lq_status query"; cases "lq_proposer query")
    (auto simp: listGovernanceProposals_def by_proposer_def Let_def matches_def intro!: arg_cong [of _ _ "paginate query"] filter_cong)

text \<open>
  For every positive page size, the pages of a proposal listing from the first to the reported
  last one, one after another, are exactly the stored proposals that match the query, in order.
\<close>

theorem proposal_pages_cover:
  fixes query :: list_query and s :: proposal_state
  assumes "0 < l"
  defines "page k \<equiv> listGovernanceProposals (query\<lparr>lq_page := Some (int k), lq_limit := Some (int l)\<rparr>) s"
  shows "concat (map (\<lambda>k. lr_proposals (page k)) [1..<nat (lr_totalPages (page 1)) + 1])
    = filter (matches query) (jm_values (ps_governanceProposals s))"
proof -
  define xs where "xs = filter (matches query) (jm_values (ps_governanceProposals s))"
  define n where "n = nat \<lceil>rat_of_nat (length xs) / rat_of_nat l\<rceil>"
  have m: "matches (query\<lparr>lq_page := a, lq_limit := b\<rparr>) = matches query" for a b
    by (simp add: matches_def fun_eq_iff)
  have page: "lr_proposals (page (Suc k)) = take l (drop (k * l) xs)" for k
    using assms(1) js_slice_page [of xs "k * l" l]
    by (simp add: page_def listGovernanceProposals_paginate m xs_def paginate_def or_default_def Let_def algebra_simps)
  have total: "nat (lr_totalPages (page 1)) = n"
    using assms(1) by (simp add: page_def listGovernanceProposals_paginate m xs_def paginate_def or_default_def Let_def n_def)
  have "map (\<lambda>k. lr_proposals (page k)) [1..<n + 1] = map (\<lambda>k. take l (drop (k * l) xs)) [0..<n]"
  proof -
    have "[1..<n + 1] = map Suc [0..<n]" by (simp add: map_Suc_upt del: upt_Suc)
    then show ?thesis by (simp only: map_map comp_def page)
  qed
  then have "concat (map (\<lambda>k. lr_proposals (page k)) [1..<n + 1]) = take (n * l) xs"
    by (simp add: concat_pages)
  moreover have "length xs \<le> n * l"
  proof -
    have "rat_of_nat (length xs) / rat_of_nat l \<le> rat_of_nat n" unfolding n_def by (rule of_nat_ceiling)
    then have "rat_of_nat (length xs) \<le> rat_of_nat (n * l)" using assms(1) by (simp add: divide_le_eq)
    then show ?thesis using of_nat_le_iff by blast
  qed
  ultimately show ?thesis unfolding total xs_def by simp
qed

theorem proposal_pages_cover_witness:
  "concat (map (\<lambda>k. lr_proposals (listGovernanceProposals \<lparr>lq_status = None, lq_proposer = None, lq_page = Some (int k), lq_limit = Some 2\<rparr>
       (proposal_calls (sample_governance @ replicate 2 (CreateGovernance 5 ''b'' (SetThreshold 1) ''e''))))) [1..<3])
     = jm_values (ps_governanceProposals (proposal_calls (sample_governance @ replicate 2 (CreateGovernance 5 ''b'' (SetThreshold 1) ''e''))))"
proof -
  let ?s = "proposal_calls (sample_governance @ replicate 2 (CreateGovernance 5 ''b'' (SetThreshold 1) ''e''))"
  let ?q = "\<lparr>lq_status = None, lq_proposer = None, lq_page = None, lq_limit = None\<rparr> :: list_query"
  have "nat (lr_totalPages (listGovernanceProposals (?q\<lparr>lq_page := Some (int 1), lq_limit := Some (int 2)\<rparr>) ?s)) = 2"
    by code_simp
  moreover have "filter (matches ?q) xs = xs" for xs by (simp add: matches_def)
  ultimately show ?thesis
    using proposal_pages_cover [of 2 ?q ?s] by (simp add: numeral_3_eq_3 numeral_2_eq_2)
qed

end
