(* ===== verification/Coi_Register.thy ===== *)
theory Coi_Register
  imports Js_Prelude
begin

text \<open>
  The conflict-of-interest register, \<open>api/src/governance/coi-register.ts\<close>: disclosures, attestations, and
  who is recused from a decision. Times are milliseconds. A given expiry is what \<open>new Date\<close> reads from
  its text. The texts of the recusal reasons, and the sorting of those texts, are left out; a reason is
  the disclosure it stems from.
\<close>

datatype coi_relationship = Financial | Employment | ProviderAffiliation | TokenHolding | Family | Other

datatype coi_scope = AssetScope | SourceScope | ProtocolScope

datatype coi_status = CoiActive | CoiWithdrawn | CoiExpired

record coi_disclosure =
  cd_id :: string
  cd_actor :: string
  cd_relationship :: coi_relationship
  cd_counterparty :: string
  cd_scope :: coi_scope
  cd_details :: string
  cd_disclosedAt :: int
  cd_expiresAt :: int
  cd_status :: coi_status
  cd_closedAt :: "int option"

record coi_attestation =
  at_actor :: string
  at_attestedAt :: int
  at_expiresAt :: int
  at_statement :: "string option"

text \<open>The assets and the sources of a decision.\<close>

type_synonym recusal_request = "string list \<times> string list"

definition attestationValiditySeconds :: int where "attestationValiditySeconds = 90 * 24 * 60 * 60"
definition maxDisclosureSeconds :: int where "maxDisclosureSeconds = 365 * 24 * 60 * 60"
definition maxDetailsLength :: nat where "maxDetailsLength = 2000"
definition maxStatementLength :: nat where "maxStatementLength = 500"

definition RELATIONSHIPS :: "(string \<times> coi_relationship) list" where
  "RELATIONSHIPS = [(''financial'', Financial), (''employment'', Employment), (''provider-affiliation'', ProviderAffiliation),
     (''token-holding'', TokenHolding), (''family'', Family), (''other'', Other)]"

definition SCOPES :: "(string \<times> coi_scope) list" where
  "SCOPES = [(''asset'', AssetScope), (''source'', SourceScope), (''protocol'', ProtocolScope)]"

datatype coi_error =
    CoiInvalidRequest | CoiAttestationRequired | INVALID_RELATIONSHIP | INVALID_SCOPE | DETAILS_TOO_LONG | DETAILS_REQUIRED
  | CoiInvalidExpiry | EXPIRY_IN_PAST | CoiExpiryTooFar | DUPLICATE_DISCLOSURE | NOT_DISCLOSURE_OWNER | DISCLOSURE_NOT_ACTIVE
  | STATEMENT_TOO_LONG | DISCLOSURE_NOT_FOUND | CoiConflictOfInterest

record coi_register =
  co_disclosures :: "(string, coi_disclosure) js_map"
  co_attestations :: "(string, coi_attestation) js_map"
  co_disclosureCount :: nat
  co_attestationValidity :: int

definition newCoiRegister :: "int option \<Rightarrow> coi_register" where
  "newCoiRegister validity =
     \<lparr>co_disclosures = [], co_attestations = [], co_disclosureCount = 0,
      co_attestationValidity = nullish validity attestationValiditySeconds\<rparr>"

definition coi_normalize :: "string \<Rightarrow> string" where
  "coi_normalize v = js_toUpperCase (js_trim v)"

definition coi_requireText :: "string \<Rightarrow> coi_error + string" where
  "coi_requireText v = (if js_trim v = [] then Inl CoiInvalidRequest else Inr (js_trim v))"

record declare_input =
  dc_actor :: string
  dc_relationship :: string
  dc_counterparty :: string
  dc_scope :: string
  dc_details :: "string option"
  dc_expiresAt :: "int option option"
  dc_attested :: bool

definition coi_same :: "string \<Rightarrow> coi_relationship \<Rightarrow> coi_scope \<Rightarrow> string \<Rightarrow> coi_disclosure \<Rightarrow> bool" where
  "coi_same actor rel scope counterparty d \<longleftrightarrow> cd_status d = CoiActive \<and> cd_actor d = actor \<and> cd_relationship d = rel
     \<and> cd_scope d = scope \<and> coi_normalize counterparty = coi_normalize (cd_counterparty d)"

definition disclosure_id :: "nat \<Rightarrow> string" where
  "disclosure_id n = ''coi_'' @ js_digits n"

definition declare_checked ::
  "int \<Rightarrow> string \<Rightarrow> coi_relationship \<Rightarrow> string \<Rightarrow> coi_scope \<Rightarrow> string \<Rightarrow> int \<Rightarrow> coi_register \<Rightarrow> coi_register \<times> (coi_error + coi_disclosure)" where
  "declare_checked now actor rel counterparty scope details expiresAt r =
     (if list_ex (coi_same actor rel scope counterparty) (jm_values (co_disclosures r)) then (r, Inl DUPLICATE_DISCLOSURE)
      else let n = co_disclosureCount r + 1;
               d = \<lparr>cd_id = disclosure_id n, cd_actor = actor, cd_relationship = rel, cd_counterparty = counterparty,
                    cd_scope = scope, cd_details = details, cd_disclosedAt = now, cd_expiresAt = expiresAt,
                    cd_status = CoiActive, cd_closedAt = None\<rparr>
           in (r\<lparr>co_disclosureCount := n, co_disclosures := jm_set (co_disclosures r) (disclosure_id n) d\<rparr>, Inr d))"

definition declare_expiry :: "int \<Rightarrow> int option option \<Rightarrow> coi_error + int" where
  "declare_expiry now e =
     (let maxExpiry = now + maxDisclosureSeconds * 1000
      in case (case e of None \<Rightarrow> Some maxExpiry | Some t \<Rightarrow> t) of
          None \<Rightarrow> Inl CoiInvalidExpiry
        | Some t \<Rightarrow> if t \<le> now then Inl EXPIRY_IN_PAST else if t > maxExpiry then Inl CoiExpiryTooFar else Inr t)"

definition coi_declare :: "int \<Rightarrow> declare_input \<Rightarrow> coi_register \<Rightarrow> coi_register \<times> (coi_error + coi_disclosure)" where
  "coi_declare now input r =
     (case coi_requireText (dc_actor input) of
        Inl e \<Rightarrow> (r, Inl e)
      | Inr actor \<Rightarrow>
          if \<not> dc_attested input then (r, Inl CoiAttestationRequired)
          else (case map_of RELATIONSHIPS (dc_relationship input) of
              None \<Rightarrow> (r, Inl INVALID_RELATIONSHIP)
            | Some rel \<Rightarrow>
                (case map_of SCOPES (dc_scope input) of
                   None \<Rightarrow> (r, Inl INVALID_SCOPE)
                 | Some scope \<Rightarrow>
                     (case coi_requireText (dc_counterparty input) of
                        Inl e \<Rightarrow> (r, Inl e)
                      | Inr counterparty \<Rightarrow>
                          let details = js_trim (nullish (dc_details input) [])
                          in if length details > maxDetailsLength then (r, Inl DETAILS_TOO_LONG)
                             else if rel = Other \<and> details = [] then (r, Inl DETAILS_REQUIRED)
                             else case declare_expiry now (dc_expiresAt input) of
                                 Inl e \<Rightarrow> (r, Inl e)
                               | Inr t \<Rightarrow> declare_checked now actor rel counterparty scope details t r))))"

definition coi_withdraw :: "int \<Rightarrow> string \<Rightarrow> string \<Rightarrow> coi_register \<Rightarrow> coi_register \<times> (coi_error + coi_disclosure)" where
  "coi_withdraw now i actor r =
     (case jm_get (co_disclosures r) i of
        None \<Rightarrow> (r, Inl DISCLOSURE_NOT_FOUND)
      | Some d \<Rightarrow>
          (case coi_requireText actor of
             Inl e \<Rightarrow> (r, Inl e)
           | Inr caller \<Rightarrow>
               if cd_actor d \<noteq> caller then (r, Inl NOT_DISCLOSURE_OWNER)
               else if cd_status d \<noteq> CoiActive then (r, Inl DISCLOSURE_NOT_ACTIVE)
               else let d' = d\<lparr>cd_status := CoiWithdrawn, cd_closedAt := Some now\<rparr>
                    in (r\<lparr>co_disclosures := jm_set (co_disclosures r) i d'\<rparr>, Inr d')))"

definition lapse :: "int \<Rightarrow> coi_disclosure \<Rightarrow> coi_disclosure" where
  "lapse now d = (if cd_status d = CoiActive \<and> now \<ge> cd_expiresAt d then d\<lparr>cd_status := CoiExpired\<rparr> else d)"

definition coi_sweep :: "int \<Rightarrow> coi_register \<Rightarrow> coi_register \<times> nat" where
  "coi_sweep now r =
     (r\<lparr>co_disclosures := jm_map_values (lapse now) (co_disclosures r)\<rparr>,
      length (filter (\<lambda>d. cd_status d = CoiActive \<and> now \<ge> cd_expiresAt d) (jm_values (co_disclosures r))))"

definition string_cmp :: "string \<Rightarrow> string \<Rightarrow> int" where
  "string_cmp a b = (if a = b then 0 else if lexordp (\<lambda>c d. (of_char c :: nat) < of_char d) a b then -1 else 1)"

definition coi_list :: "int \<Rightarrow> string option \<Rightarrow> coi_status option \<Rightarrow> coi_register \<Rightarrow> coi_register \<times> coi_disclosure list" where
  "coi_list now actor status r =
     (let r' = fst (coi_sweep now r);
          ds = filter (\<lambda>d. actor \<in> {None, Some []} \<or> actor = Some (cd_actor d)) (jm_values (co_disclosures r'))
      in (r', js_sort (\<lambda>a b. string_cmp (cd_id a) (cd_id b)) (filter (\<lambda>d. status = None \<or> status = Some (cd_status d)) ds)))"

definition coi_attest :: "int \<Rightarrow> string \<Rightarrow> string option \<Rightarrow> coi_register \<Rightarrow> coi_register \<times> (coi_error + coi_attestation)" where
  "coi_attest now actor statement r =
     (case coi_requireText actor of
        Inl e \<Rightarrow> (r, Inl e)
      | Inr identity \<Rightarrow>
          if length (nullish statement []) > maxStatementLength then (r, Inl STATEMENT_TOO_LONG)
          else let a = \<lparr>at_actor = identity, at_attestedAt = now, at_expiresAt = now + co_attestationValidity r * 1000,
                        at_statement = (if js_trim (nullish statement []) = [] then None else Some (js_trim (nullish statement [])))\<rparr>
               in (r\<lparr>co_attestations := jm_set (co_attestations r) identity a\<rparr>, Inr a))"

definition attestationStatus :: "int \<Rightarrow> string \<Rightarrow> coi_register \<Rightarrow> bool \<times> (int \<times> int) option" where
  "attestationStatus now actor r =
     (case jm_get (co_attestations r) actor of
        None \<Rightarrow> (False, None)
      | Some a \<Rightarrow> (\<not> now \<ge> at_expiresAt a, Some (at_attestedAt a, at_expiresAt a)))"

definition coi_matches :: "recusal_request \<Rightarrow> coi_disclosure \<Rightarrow> bool" where
  "coi_matches request d =
     (case cd_scope d of
        ProtocolScope \<Rightarrow> True
      | AssetScope \<Rightarrow> coi_normalize (cd_counterparty d) \<in> set (map coi_normalize (fst request))
      | SourceScope \<Rightarrow> coi_normalize (cd_counterparty d) \<in> set (map coi_normalize (snd request)))"

definition recusalReasons :: "int \<Rightarrow> string \<Rightarrow> recusal_request \<Rightarrow> coi_register \<Rightarrow> coi_register \<times> coi_disclosure list" where
  "recusalReasons now actor request r =
     (let r' = fst (coi_sweep now r)
      in (r', filter (\<lambda>d. cd_actor d = actor \<and> cd_status d \<noteq> CoiWithdrawn \<and> coi_matches request d) (jm_values (co_disclosures r'))))"

definition checkEligibility ::
  "int \<Rightarrow> int \<Rightarrow> string \<Rightarrow> recusal_request \<Rightarrow> coi_register \<Rightarrow> coi_register \<times> (coi_error + unit)" where
  "checkEligibility now now' actor request r =
     (if \<not> fst (attestationStatus now actor r) then (r, Inl CoiAttestationRequired)
      else let (r', reasons) = recusalReasons now' actor request r
           in (r', if reasons \<noteq> [] then Inl CoiConflictOfInterest else Inr ()))"

subsection \<open>Invariant\<close>

text \<open>The last declared disclosure number bounds the keys, and an active relationship is declared once.\<close>

definition coi_key :: "coi_disclosure \<Rightarrow> string \<times> coi_relationship \<times> coi_scope \<times> string" where
  "coi_key d = (cd_actor d, cd_relationship d, cd_scope d, coi_normalize (cd_counterparty d))"

definition active_at :: "coi_register \<Rightarrow> string \<Rightarrow> (string \<times> coi_relationship \<times> coi_scope \<times> string) \<Rightarrow> bool" where
  "active_at r i k \<longleftrightarrow> (\<exists>d. jm_get (co_disclosures r) i = Some d \<and> cd_status d = CoiActive \<and> coi_key d = k)"

definition one_active :: "coi_register \<Rightarrow> bool" where
  "one_active r \<longleftrightarrow> (\<forall>i j k. active_at r i k \<and> active_at r j k \<longrightarrow> i = j)"

lemma one_active_mono: "one_active r \<Longrightarrow> (\<And>i k. active_at r' i k \<Longrightarrow> active_at r i k) \<Longrightarrow> one_active r'"
  unfolding one_active_def by blast

lemma coi_same_key: "coi_same a rel scope cp d \<longleftrightarrow> cd_status d = CoiActive \<and> coi_key d = (a, rel, scope, coi_normalize cp)"
  by (auto simp: coi_same_def coi_key_def)

definition numbered :: "nat \<Rightarrow> string \<Rightarrow> coi_disclosure \<Rightarrow> bool" where
  "numbered n i d \<longleftrightarrow> cd_id d = i \<and> (\<exists>k. 1 \<le> k \<and> k \<le> n \<and> i = disclosure_id k)"

definition coi_ok :: "coi_register \<Rightarrow> bool" where
  "coi_ok r \<longleftrightarrow> jm.all_stored (numbered (co_disclosureCount r)) (co_disclosures r) \<and> one_active r"

lemma disclosure_id_inj: "disclosure_id m = disclosure_id n \<longleftrightarrow> m = n"
  by (auto simp: disclosure_id_def dest: js_digits_inj)

lemma coi_okD:
  assumes "coi_ok r" "jm_get (co_disclosures r) i = Some d"
  shows "numbered (co_disclosureCount r) i d"
  using assms by (auto simp: coi_ok_def dest: jm.all_storedD)

lemma coi_fresh: "coi_ok r \<Longrightarrow> jm_get (co_disclosures r) (disclosure_id (Suc (co_disclosureCount r))) = None"
  using coi_okD [of r "disclosure_id (Suc (co_disclosureCount r))"]
  by (cases "jm_get (co_disclosures r) (disclosure_id (Suc (co_disclosureCount r)))")
    (auto simp: numbered_def disclosure_id_inj)

lemma coi_ok_declare_checked:
  assumes ok: "coi_ok r"
  shows "coi_ok (fst (declare_checked now actor rel cp scope details t r))"
proof (cases "list_ex (coi_same actor rel scope cp) (jm_values (co_disclosures r))")
  case False
  let ?n = "co_disclosureCount r"
  obtain d where new: "fst (declare_checked now actor rel cp scope details t r)
      = r\<lparr>co_disclosureCount := Suc ?n, co_disclosures := jm_set (co_disclosures r) (disclosure_id (Suc ?n)) d\<rparr>"
    and d: "cd_id d = disclosure_id (Suc ?n)" "cd_actor d = actor" "cd_relationship d = rel" "cd_counterparty d = cp"
      "cd_scope d = scope" "cd_status d = CoiActive"
    using False by (simp add: declare_checked_def Let_def)
  let ?k = "(actor, rel, scope, coi_normalize cp)"
  have none: "\<not> active_at r j ?k" for j
    using False by (force simp: list_ex_iff active_at_def coi_same_key dest: jm_get_mem)
  have at': "active_at (fst (declare_checked now actor rel cp scope details t r)) j k \<longleftrightarrow>
      (if j = disclosure_id (Suc ?n) then k = ?k else active_at r j k)" for j k
    unfolding new using d by (auto simp: active_at_def jm_get_set coi_key_def)
  have "jm.all_stored (numbered (Suc ?n)) (co_disclosures r)"
    by (rule jm.all_stored_mono [where P = "numbered ?n"])
      (use ok in \<open>auto simp: coi_ok_def numbered_def intro: le_SucI\<close>)
  moreover have "numbered (Suc ?n) (disclosure_id (Suc ?n)) d"
    using d(1) by (auto simp: numbered_def intro!: exI [of _ "Suc ?n"])
  moreover have "one_active (fst (declare_checked now actor rel cp scope details t r))"
    using ok none unfolding coi_ok_def one_active_def at' by (metis (full_types))
  ultimately show ?thesis
    unfolding new by (simp add: coi_ok_def jm.all_stored_put)
qed (use ok in \<open>simp add: declare_checked_def\<close>)

lemma coi_ok_declare: "coi_ok r \<Longrightarrow> coi_ok (fst (coi_declare now input r))"
  by (simp add: coi_declare_def Let_def coi_ok_declare_checked split: sum.split option.split)

lemma coi_ok_withdraw:
  assumes "coi_ok r"
  shows "coi_ok (fst (coi_withdraw now i actor r))"
proof -
  have "coi_ok (r\<lparr>co_disclosures := jm_set (co_disclosures r) i (d\<lparr>cd_status := CoiWithdrawn, cd_closedAt := x\<rparr>)\<rparr>)"
    if "jm_get (co_disclosures r) i = Some d" for d x
  proof -
    have "numbered (co_disclosureCount r) i (d\<lparr>cd_status := CoiWithdrawn, cd_closedAt := x\<rparr>)"
      using coi_okD [OF assms that] by (simp add: numbered_def)
    moreover have "one_active (r\<lparr>co_disclosures := jm_set (co_disclosures r) i (d\<lparr>cd_status := CoiWithdrawn, cd_closedAt := x\<rparr>)\<rparr>)"
      by (rule one_active_mono [of r]) (use assms in \<open>auto simp: coi_ok_def active_at_def jm_get_set split: if_splits\<close>)
    ultimately show ?thesis using assms by (simp add: coi_ok_def jm.all_stored_put)
  qed
  with assms show ?thesis by (simp add: coi_withdraw_def Let_def split: option.split sum.split)
qed

lemma lapse_keeps:
  "cd_id (lapse now d) = cd_id d" "cd_actor (lapse now d) = cd_actor d" "cd_relationship (lapse now d) = cd_relationship d"
  "cd_scope (lapse now d) = cd_scope d" "cd_counterparty (lapse now d) = cd_counterparty d"
  "cd_status (lapse now d) = CoiActive \<Longrightarrow> cd_status d = CoiActive"
  "cd_status (lapse now d) = CoiWithdrawn \<longleftrightarrow> cd_status d = CoiWithdrawn"
  by (auto simp: lapse_def split: if_splits)

lemma coi_ok_sweep:
  assumes "coi_ok r"
  shows "coi_ok (fst (coi_sweep now r))"
proof -
  have "one_active (fst (coi_sweep now r))"
    by (rule one_active_mono [of r])
      (use assms in \<open>auto simp: coi_ok_def coi_sweep_def active_at_def jm_get_map_values coi_key_def lapse_keeps\<close>)
  moreover have "jm.all_stored (numbered (co_disclosureCount r)) (jm_map_values (lapse now) (co_disclosures r))"
  proof (rule jm_all_stored_map_values)
    show "jm.all_stored (numbered (co_disclosureCount r)) (co_disclosures r)" using assms by (simp add: coi_ok_def)
  qed (simp add: numbered_def lapse_keeps)
  ultimately show ?thesis by (simp add: coi_ok_def coi_sweep_def)
qed

inductive coi_reachable :: "coi_register \<Rightarrow> bool" where
  init: "coi_reachable (newCoiRegister v)"
| declare': "coi_reachable r \<Longrightarrow> coi_reachable (fst (coi_declare now input r))"
| withdraw: "coi_reachable r \<Longrightarrow> coi_reachable (fst (coi_withdraw now i actor r))"
| attest: "coi_reachable r \<Longrightarrow> coi_reachable (fst (coi_attest now actor statement r))"
| sweep: "coi_reachable r \<Longrightarrow> coi_reachable (fst (coi_sweep now r))"

lemma coi_ok_reachable: "coi_reachable r \<Longrightarrow> coi_ok r"
proof (induction rule: coi_reachable.induct)
  case (init v)
  then show ?case by (simp add: newCoiRegister_def coi_ok_def one_active_def active_at_def)
next
  case (attest r now actor statement)
  then show ?case by (simp add: coi_attest_def Let_def coi_ok_def one_active_def active_at_def split: sum.split)
qed (simp_all add: coi_ok_declare coi_ok_withdraw coi_ok_sweep)

subsection \<open>Recusal\<close>

lemma recusalReasons_exact:
  "snd (recusalReasons now actor request r) \<noteq> [] \<longleftrightarrow>
    (\<exists>d \<in> set (jm_values (co_disclosures r)). cd_actor d = actor \<and> cd_status d \<noteq> CoiWithdrawn \<and> coi_matches request d)"
proof -
  have m: "coi_matches request (lapse now d) = coi_matches request d" for d
    by (cases "cd_scope d") (simp_all add: coi_matches_def lapse_keeps)
  show ?thesis
    by (auto simp: recusalReasons_def Let_def coi_sweep_def jm_values_map_values filter_empty_conv lapse_keeps m)
qed

text \<open>An expired disclosure is never closed, so it recuses its author for good, also after it is declared anew.\<close>

definition has_expired :: "string \<Rightarrow> coi_disclosure \<Rightarrow> coi_register \<Rightarrow> bool" where
  "has_expired i d r \<longleftrightarrow> jm_get (co_disclosures r) i = Some d \<and> cd_status d = CoiExpired"

inductive coi_steps :: "coi_register \<Rightarrow> coi_register \<Rightarrow> bool" where
  refl: "coi_steps r r"
| declare': "coi_steps r s \<Longrightarrow> coi_steps r (fst (coi_declare now input s))"
| withdraw: "coi_steps r s \<Longrightarrow> coi_steps r (fst (coi_withdraw now i actor s))"
| attest: "coi_steps r s \<Longrightarrow> coi_steps r (fst (coi_attest now actor statement s))"
| sweep: "coi_steps r s \<Longrightarrow> coi_steps r (fst (coi_sweep now s))"

lemma coi_steps_reachable: "coi_steps r s \<Longrightarrow> coi_reachable r \<Longrightarrow> coi_reachable s"
  by (induction rule: coi_steps.induct) (auto intro: coi_reachable.intros)

lemma has_expired_declare:
  assumes "coi_ok r" "has_expired i d r"
  shows "has_expired i d (fst (coi_declare now input r))"
proof -
  have "i \<noteq> disclosure_id (Suc (co_disclosureCount r))"
    using coi_fresh [OF assms(1)] assms(2) by (auto simp: has_expired_def)
  then have "has_expired i d (fst (declare_checked now actor rel cp scope details t r))" for actor rel cp scope details t
    using assms(2) by (simp add: declare_checked_def Let_def has_expired_def)
  with assms(2) show ?thesis
    by (simp add: coi_declare_def Let_def split: sum.split option.split)
qed

lemma has_expired_withdraw: "has_expired i d r \<Longrightarrow> has_expired i d (fst (coi_withdraw now j actor r))"
  by (auto simp: coi_withdraw_def Let_def has_expired_def jm_get_set split: option.split sum.split)

lemma has_expired_other:
  "has_expired i d r \<Longrightarrow> has_expired i d (fst (coi_attest now actor statement r))"
  "has_expired i d r \<Longrightarrow> has_expired i d (fst (coi_sweep now r))"
  by (auto simp: coi_attest_def coi_sweep_def Let_def has_expired_def jm_get_map_values lapse_def split: sum.split)

lemma expired_disclosure_recuses_forever:
  assumes "coi_reachable r" "has_expired i d r" "coi_steps r s" "coi_matches request d"
  shows "snd (recusalReasons now (cd_actor d) request s) \<noteq> []"
proof -
  from assms(3,1,2) have "has_expired i d s"
  proof (induction rule: coi_steps.induct)
    case (declare' r s now input)
    then show ?case using has_expired_declare coi_ok_reachable coi_steps_reachable by blast
  qed (simp_all add: has_expired_withdraw has_expired_other)
  then have "d \<in> set (jm_values (co_disclosures s))" "cd_status d \<noteq> CoiWithdrawn"
    by (force simp: has_expired_def dest: jm_get_mem)+
  with assms(4) show ?thesis unfolding recusalReasons_exact by blast
qed

text \<open>
  A lapsed disclosure can be withdrawn as long as nothing has swept the register: the author then escapes
  the recusal that the sweep would have made permanent.
\<close>

definition sample_coi :: coi_register where
  "sample_coi = fst (coi_declare 0 \<lparr>dc_actor = ''ann'', dc_relationship = ''financial'', dc_counterparty = ''xlm'', dc_scope = ''asset'',
     dc_details = None, dc_expiresAt = Some (Some 10), dc_attested = True\<rparr> (newCoiRegister None))"

lemma lapsed_disclosure_withdrawn:
  "length (snd (recusalReasons 20 ''ann'' ([''XLM''], []) sample_coi)) = 1"
  "snd (recusalReasons 20 ''ann'' ([''XLM''], []) (fst (coi_withdraw 20 ''coi_1'' ''ann'' sample_coi))) = []"
  "length (snd (recusalReasons 20 ''ann'' ([''XLM''], []) (fst (coi_withdraw 20 ''coi_1'' ''ann'' (fst (coi_sweep 20 sample_coi)))))) = 1"
  by code_simp+

end
