(* ===== verification/Emergency_Actions.thy ===== *)
theory Emergency_Actions
  imports Coi_Register
begin

text \<open>
  Emergency governance powers, \<open>api/src/governance/emergency-actions.ts\<close>: opening, reviewing, renewing,
  revoking and disclosing restrictive actions, and the overlay of restrictions in force.

  Times are milliseconds. An operation that reads the clock again for its sweep takes both readings. The
  conflict-of-interest check and the policy version are the injected functions, as arguments. A given
  expiry text is represented by what \<open>new Date\<close> makes of it. Operations mutate the stored actions in place, so an
  operation may change the registry and still throw.
\<close>

datatype emergency_kind = PauseFeed | FreezeSource | HaltPublishing

datatype emergency_status = Active | Reviewed | Expired | Revoked | ExpiredUnreviewed

datatype review_decision = Confirm | Overturn

record disclosure =
  di_required :: bool
  di_publishedAt :: "int option"
  di_publishedBy :: "string option"
  di_summary :: "string option"
  di_overdue :: "bool option"

record emergency_action =
  ea_id :: nat
  ea_kind :: emergency_kind
  ea_asset :: "string option"
  ea_source :: "string option"
  ea_reason :: string
  ea_actor :: string
  ea_createdAt :: int
  ea_expiresAt :: int
  ea_reviewDeadlineAt :: int
  ea_status :: emergency_status
  ea_reviewer :: "string option"
  ea_reviewedAt :: "int option"
  ea_reviewDecision :: "review_decision option"
  ea_reviewOverdue :: "bool option"
  ea_renewals :: nat
  ea_policyVersionAtCreation :: nat
  ea_revokedBy :: "string option"
  ea_revokedAt :: "int option"
  ea_revocationReason :: "string option"
  ea_disclosure :: disclosure

definition maxDurationSeconds :: int where "maxDurationSeconds = 72 * 60 * 60"
definition reviewWindowSeconds :: int where "reviewWindowSeconds = 24 * 60 * 60"
definition disclosureWindowSeconds :: int where "disclosureWindowSeconds = 24 * 60 * 60"
definition maxRenewals :: nat where "maxRenewals = 2"
definition maxReasonLength :: nat where "maxReasonLength = 500"
definition maxDisclosureLength :: nat where "maxDisclosureLength = 2000"

definition RESTRICTIVE_KINDS :: "(string \<times> emergency_kind) list" where
  "RESTRICTIVE_KINDS = [(''pause-feed'', PauseFeed), (''freeze-source'', FreezeSource), (''halt-publishing'', HaltPublishing)]"

definition PROHIBITED_KINDS :: "string list" where
  "PROHIBITED_KINDS = [''add-feed'', ''remove-feed'', ''loosen-guardrail'', ''add-signer'', ''transfer-admin'', ''set-threshold'']"

datatype emergency_error =
    INVALID_REQUEST | EMERGENCY_KIND_NOT_PERMITTED | REASON_TOO_LONG | SCOPE_REQUIRED | SCOPE_NOT_ALLOWED
  | DUPLICATE_EMERGENCY_ACTION | EMERGENCY_ACTION_NOT_FOUND | ALREADY_REVIEWED | EMERGENCY_ACTION_CLOSED
  | REVIEW_DEADLINE_PASSED | INDEPENDENT_REVIEW_REQUIRED | ATTESTATION_REQUIRED | CONFLICT_OF_INTEREST
  | REVIEW_REQUIRED_BEFORE_RENEWAL | RENEWAL_LIMIT_REACHED | RENEWAL_TOO_LONG | RENEWAL_TOTAL_CAP_EXCEEDED
  | DISCLOSURE_TOO_LONG | DISCLOSURE_BEFORE_CLOSE | DISCLOSURE_ALREADY_PUBLISHED
  | EXPIRY_REQUIRED | INVALID_EXPIRY | EXPIRY_NOT_EXTENDING | EXPIRY_TOO_FAR

record registry =
  er_actions :: "(nat, emergency_action) js_map"
  er_actionCount :: nat

definition newRegistry :: registry where
  "newRegistry = \<lparr>er_actions = [], er_actionCount = 0\<rparr>"

definition isOpen :: "emergency_action \<Rightarrow> bool" where
  "isOpen a \<longleftrightarrow> ea_status a = Active \<or> ea_status a = Reviewed"

definition recusalRequestFor :: "emergency_action \<Rightarrow> recusal_request" where
  "recusalRequestFor a =
     ((case ea_asset a of Some x \<Rightarrow> if x = [] then [] else [x] | None \<Rightarrow> []),
      (case ea_source a of Some x \<Rightarrow> if x = [] then [] else [x] | None \<Rightarrow> []))"

definition requireText :: "string \<Rightarrow> emergency_error + string" where
  "requireText v = (if js_trim v = [] then Inl INVALID_REQUEST else Inr (js_trim v))"

text \<open>The text of a timestamp: blank, or the time \<open>new Date\<close> reads from it, if any; and the time of \<open>new Date(ms)\<close>.\<close>

datatype expiry_text = BlankText | DateText "int option"

fun new_date :: "js_num \<Rightarrow> int option" where
  "new_date (Fin r) = (if \<bar>r\<bar> > 8640000000000000 then None else Some (js_trunc r))"
| "new_date _ = None"

fun plus_seconds :: "int \<Rightarrow> js_num \<Rightarrow> js_num" where
  "plus_seconds now (Fin d) = Fin (of_int now + d * 1000)"
| "plus_seconds now x = x"

definition resolveExpiry ::
  "int \<Rightarrow> expiry_text option \<Rightarrow> js_num option \<Rightarrow> int option \<Rightarrow> emergency_error + int" where
  "resolveExpiry now expiresAt durationSeconds flr =
     (let resolved = (case expiresAt of
            Some (DateText d) \<Rightarrow> Inr d
          | _ \<Rightarrow> (case durationSeconds of None \<Rightarrow> Inl EXPIRY_REQUIRED | Some s \<Rightarrow> Inr (new_date (plus_seconds now s))))
      in case resolved of
          Inl e \<Rightarrow> Inl e
        | Inr None \<Rightarrow> Inl INVALID_EXPIRY
        | Inr (Some t) \<Rightarrow>
            if t \<le> nullish flr now then Inl EXPIRY_NOT_EXTENDING
            else if flr = None \<and> t > now + maxDurationSeconds * 1000 then Inl EXPIRY_TOO_FAR
            else Inr t)"

definition sweep_action :: "int \<Rightarrow> emergency_action \<Rightarrow> emergency_action" where
  "sweep_action now a0 =
     (let a = (if isOpen a0 \<and> now \<ge> ea_expiresAt a0
               then a0\<lparr>ea_status := if ea_status a0 = Reviewed then Expired else ExpiredUnreviewed\<rparr> else a0);
          b = (if ea_reviewedAt a = None \<and> \<not> isOpen a \<and> ea_status a = ExpiredUnreviewed
               then a\<lparr>ea_reviewOverdue := Some True\<rparr> else a)
      in if di_publishedAt (ea_disclosure b) = None \<and> now \<ge> ea_expiresAt b + disclosureWindowSeconds * 1000
         then b\<lparr>ea_disclosure := (ea_disclosure b)\<lparr>di_overdue := Some True\<rparr>\<rparr> else b)"

definition er_sweep :: "int \<Rightarrow> registry \<Rightarrow> registry \<times> nat" where
  "er_sweep now r =
     (r\<lparr>er_actions := jm_map_values (sweep_action now) (er_actions r)\<rparr>,
      length (filter (\<lambda>a. isOpen a \<and> now \<ge> ea_expiresAt a) (jm_values (er_actions r))))"

abbreviation swept :: "int \<Rightarrow> registry \<Rightarrow> registry" where
  "swept now r \<equiv> fst (er_sweep now r)"

definition requireAction :: "nat \<Rightarrow> registry \<Rightarrow> emergency_error + emergency_action" where
  "requireAction i r = (case jm_get (er_actions r) i of None \<Rightarrow> Inl EMERGENCY_ACTION_NOT_FOUND | Some a \<Rightarrow> Inr a)"

definition er_put :: "emergency_action \<Rightarrow> nat \<Rightarrow> registry \<Rightarrow> registry" where
  "er_put a i r = r\<lparr>er_actions := jm_set (er_actions r) i a\<rparr>"

record open_input =
  oi_kind :: string
  oi_reason :: string
  oi_actor :: string
  oi_asset :: "string option"
  oi_source :: "string option"
  oi_expiresAt :: "expiry_text option"
  oi_durationSeconds :: "js_num option"

definition truthy_text :: "string option \<Rightarrow> bool" where
  "truthy_text x \<longleftrightarrow> x \<noteq> None \<and> x \<noteq> Some []"

definition scope_error :: "emergency_kind \<Rightarrow> string option \<Rightarrow> string option \<Rightarrow> emergency_error option" where
  "scope_error kind asset source =
     (if kind = PauseFeed \<and> \<not> truthy_text asset then Some SCOPE_REQUIRED
      else if kind = FreezeSource \<and> \<not> truthy_text source then Some SCOPE_REQUIRED
      else if kind = HaltPublishing \<and> (truthy_text asset \<or> truthy_text source) then Some SCOPE_NOT_ALLOWED
      else None)"

definition same_scope :: "emergency_kind \<Rightarrow> string option \<Rightarrow> string option \<Rightarrow> emergency_action \<Rightarrow> bool" where
  "same_scope kind asset source a \<longleftrightarrow> ea_kind a = kind \<and> ea_asset a = asset \<and> ea_source a = source"

text \<open>The part of \<open>open\<close> after the request has been checked.\<close>

definition open_checked ::
  "nat \<Rightarrow> int \<Rightarrow> int \<Rightarrow> string \<Rightarrow> emergency_kind \<Rightarrow> string \<Rightarrow> int \<Rightarrow> string option \<Rightarrow> string option \<Rightarrow> registry \<Rightarrow>
   registry \<times> (emergency_error + emergency_action)" where
  "open_checked policyVersion now now' actor kind reason expiresAt asset source r0 =
     (let r = swept now' r0
      in if list_ex (\<lambda>a. isOpen a \<and> same_scope kind asset source a) (jm_values (er_actions r))
         then (r, Inl DUPLICATE_EMERGENCY_ACTION)
         else let i = er_actionCount r + 1;
                  a = \<lparr>ea_id = i, ea_kind = kind, ea_asset = asset, ea_source = source, ea_reason = reason, ea_actor = actor,
                       ea_createdAt = now, ea_expiresAt = expiresAt,
                       ea_reviewDeadlineAt = min (now + reviewWindowSeconds * 1000) expiresAt, ea_status = Active,
                       ea_reviewer = None, ea_reviewedAt = None, ea_reviewDecision = None, ea_reviewOverdue = None,
                       ea_renewals = 0, ea_policyVersionAtCreation = policyVersion, ea_revokedBy = None, ea_revokedAt = None,
                       ea_revocationReason = None,
                       ea_disclosure = \<lparr>di_required = True, di_publishedAt = None, di_publishedBy = None, di_summary = None,
                         di_overdue = None\<rparr>\<rparr>
              in (er_put a i (r\<lparr>er_actionCount := i\<rparr>), Inr a))"

definition er_open :: "nat \<Rightarrow> int \<Rightarrow> int \<Rightarrow> open_input \<Rightarrow> registry \<Rightarrow> registry \<times> (emergency_error + emergency_action)" where
  "er_open policyVersion now now' input r =
     (case requireText (oi_actor input) of
        Inl e \<Rightarrow> (r, Inl e)
      | Inr actor \<Rightarrow>
          (case map_of RESTRICTIVE_KINDS (oi_kind input) of
             None \<Rightarrow> (r, Inl EMERGENCY_KIND_NOT_PERMITTED)
           | Some kind \<Rightarrow>
               (case requireText (oi_reason input) of
                  Inl e \<Rightarrow> (r, Inl e)
                | Inr reason \<Rightarrow>
                    if length reason > maxReasonLength then (r, Inl REASON_TOO_LONG)
                    else (case resolveExpiry now (oi_expiresAt input) (oi_durationSeconds input) None of
                            Inl e \<Rightarrow> (r, Inl e)
                          | Inr expiresAt \<Rightarrow>
                              let asset = map_option (\<lambda>x. js_toUpperCase (js_trim x)) (oi_asset input);
                                  source = map_option (\<lambda>x. js_toLowerCase (js_trim x)) (oi_source input)
                              in case scope_error kind asset source of
                                  Some e \<Rightarrow> (r, Inl e)
                                | None \<Rightarrow> open_checked policyVersion now now' actor kind reason expiresAt asset source r))))"

definition er_get :: "int \<Rightarrow> nat \<Rightarrow> registry \<Rightarrow> registry \<times> (emergency_error + emergency_action)" where
  "er_get now i r = (swept now r, requireAction i (swept now r))"

definition er_list :: "int \<Rightarrow> emergency_status option \<Rightarrow> registry \<Rightarrow> registry \<times> emergency_action list" where
  "er_list now flt r =
     (swept now r, js_sort (\<lambda>a b. int (ea_id b) - int (ea_id a))
        (filter (\<lambda>a. flt = None \<or> flt = Some (ea_status a)) (jm_values (er_actions (swept now r)))))"

definition review_accepted :: "int \<Rightarrow> string \<Rightarrow> review_decision \<Rightarrow> emergency_action \<Rightarrow> emergency_action" where
  "review_accepted now actor decision a =
     (let b = a\<lparr>ea_reviewer := Some actor, ea_reviewedAt := Some now, ea_reviewDecision := Some decision,
               ea_reviewOverdue := Some False\<rparr>
      in if decision = Overturn
         then b\<lparr>ea_status := Revoked, ea_revokedBy := Some actor, ea_revokedAt := Some now,
                ea_revocationReason := Some ''overturned on independent review''\<rparr>
         else b\<lparr>ea_status := Reviewed\<rparr>)"

definition er_review ::
  "(string \<Rightarrow> recusal_request \<Rightarrow> string list) \<Rightarrow> int \<Rightarrow> int \<Rightarrow> nat \<Rightarrow> string \<Rightarrow> review_decision \<Rightarrow> bool \<Rightarrow> registry \<Rightarrow>
   registry \<times> (emergency_error + emergency_action)" where
  "er_review isRecused now now' i reviewer decision attested r0 =
     (case requireText reviewer of
        Inl e \<Rightarrow> (r0, Inl e)
      | Inr actor \<Rightarrow>
          let r = swept now r0
          in case requireAction i r of
              Inl e \<Rightarrow> (r, Inl e)
            | Inr a \<Rightarrow>
                if ea_status a = Reviewed then (r, Inl ALREADY_REVIEWED)
                else if ea_status a \<noteq> Active then (r, Inl EMERGENCY_ACTION_CLOSED)
                else if now' > ea_reviewDeadlineAt a
                then (er_put (a\<lparr>ea_reviewOverdue := Some True\<rparr>) i r, Inl REVIEW_DEADLINE_PASSED)
                else if actor = ea_actor a then (r, Inl INDEPENDENT_REVIEW_REQUIRED)
                else if \<not> attested then (r, Inl ATTESTATION_REQUIRED)
                else if isRecused actor (recusalRequestFor a) \<noteq> [] then (r, Inl CONFLICT_OF_INTEREST)
                else let b = review_accepted now' actor decision a in (er_put b i r, Inr b))"

definition er_renew ::
  "int \<Rightarrow> int \<Rightarrow> nat \<Rightarrow> string \<Rightarrow> expiry_text option \<Rightarrow> js_num option \<Rightarrow> registry \<Rightarrow> registry \<times> (emergency_error + emergency_action)" where
  "er_renew now now' i actor expiresAt durationSeconds r0 =
     (case requireText actor of
        Inl e \<Rightarrow> (r0, Inl e)
      | Inr _ \<Rightarrow>
          let r = swept now r0
          in case requireAction i r of
              Inl e \<Rightarrow> (r, Inl e)
            | Inr a \<Rightarrow>
                if ea_status a \<noteq> Reviewed then (r, Inl REVIEW_REQUIRED_BEFORE_RENEWAL)
                else if ea_renewals a \<ge> maxRenewals then (r, Inl RENEWAL_LIMIT_REACHED)
                else case resolveExpiry now' expiresAt durationSeconds (Some (ea_expiresAt a)) of
                    Inl e \<Rightarrow> (r, Inl e)
                  | Inr t \<Rightarrow>
                      if t > ea_expiresAt a + maxDurationSeconds * 1000 then (r, Inl RENEWAL_TOO_LONG)
                      else if t > ea_createdAt a + maxDurationSeconds * 1000 * (int (ea_renewals a) + 2)
                      then (r, Inl RENEWAL_TOTAL_CAP_EXCEEDED)
                      else let b = a\<lparr>ea_expiresAt := t, ea_renewals := ea_renewals a + 1, ea_status := Active,
                                 ea_reviewer := None, ea_reviewedAt := None, ea_reviewDecision := None,
                                 ea_reviewOverdue := Some False,
                                 ea_reviewDeadlineAt := min (now' + reviewWindowSeconds * 1000) t\<rparr>
                           in (er_put b i r, Inr b))"

definition er_revoke ::
  "int \<Rightarrow> int \<Rightarrow> nat \<Rightarrow> string \<Rightarrow> string option \<Rightarrow> registry \<Rightarrow> registry \<times> (emergency_error + emergency_action)" where
  "er_revoke now now' i actor reason r0 =
     (case requireText actor of
        Inl e \<Rightarrow> (r0, Inl e)
      | Inr caller \<Rightarrow>
          let r = swept now r0
          in case requireAction i r of
              Inl e \<Rightarrow> (r, Inl e)
            | Inr a \<Rightarrow>
                if \<not> isOpen a then (r, Inl EMERGENCY_ACTION_CLOSED)
                else if length (nullish reason []) > maxReasonLength then (r, Inl REASON_TOO_LONG)
                else let b = a\<lparr>ea_status := Revoked, ea_revokedBy := Some caller, ea_revokedAt := Some now',
                           ea_revocationReason := (if js_trim (nullish reason []) = [] then None else Some (js_trim (nullish reason [])))\<rparr>
                     in (er_put b i r, Inr b))"

definition er_publishDisclosure ::
  "int \<Rightarrow> int \<Rightarrow> nat \<Rightarrow> string \<Rightarrow> string \<Rightarrow> registry \<Rightarrow> registry \<times> (emergency_error + emergency_action)" where
  "er_publishDisclosure now now' i summary0 actor r0 =
     (case requireText actor of
        Inl e \<Rightarrow> (r0, Inl e)
      | Inr caller \<Rightarrow>
          (case requireText summary0 of
             Inl e \<Rightarrow> (r0, Inl e)
           | Inr summary \<Rightarrow>
               if length summary > maxDisclosureLength then (r0, Inl DISCLOSURE_TOO_LONG)
               else let r = swept now r0
                    in case requireAction i r of
                        Inl e \<Rightarrow> (r, Inl e)
                      | Inr a \<Rightarrow>
                          if isOpen a then (r, Inl DISCLOSURE_BEFORE_CLOSE)
                          else if di_publishedAt (ea_disclosure a) \<noteq> None then (r, Inl DISCLOSURE_ALREADY_PUBLISHED)
                          else let b = a\<lparr>ea_disclosure := \<lparr>di_required = True, di_publishedAt = Some now',
                                     di_publishedBy = Some caller, di_summary = Some summary,
                                     di_overdue = Some (now' > ea_expiresAt a + disclosureWindowSeconds * 1000)\<rparr>\<rparr>
                               in (er_put b i r, Inr b)))"

record overlays =
  ov_assets :: "string list"
  ov_sources :: "string list"
  ov_halted :: bool

definition activeOverlays :: "int \<Rightarrow> registry \<Rightarrow> registry \<times> overlays" where
  "activeOverlays now r =
     (let r' = swept now r; open' = filter isOpen (jm_values (er_actions r'))
      in (r', \<lparr>ov_assets = [the (ea_asset a). a \<leftarrow> open', ea_kind a = PauseFeed \<and> truthy_text (ea_asset a)],
               ov_sources = [the (ea_source a). a \<leftarrow> open', ea_kind a = FreezeSource \<and> truthy_text (ea_source a)],
               ov_halted = list_ex (\<lambda>a. ea_kind a = HaltPublishing) open'\<rparr>))"

definition isFrozen :: "int \<Rightarrow> string \<Rightarrow> registry \<Rightarrow> registry \<times> bool" where
  "isFrozen now asset r =
     (let (r', o') = activeOverlays now r in (r', ov_halted o' \<or> js_toUpperCase (js_trim asset) \<in> set (ov_assets o')))"

definition isSourceFrozen :: "int \<Rightarrow> string \<Rightarrow> registry \<Rightarrow> registry \<times> bool" where
  "isSourceFrozen now source r =
     (let (r', o') = activeOverlays now r in (r', ov_halted o' \<or> js_toLowerCase (js_trim source) \<in> set (ov_sources o')))"

definition overdueReviews :: "int \<Rightarrow> int \<Rightarrow> registry \<Rightarrow> registry \<times> emergency_action list" where
  "overdueReviews now now' r =
     (swept now r, js_sort (\<lambda>a b. int (ea_id a) - int (ea_id b))
        (filter (\<lambda>a. ea_status a = Active \<and> now' > ea_reviewDeadlineAt a) (jm_values (er_actions (swept now r)))))"

definition overdueDisclosures :: "int \<Rightarrow> registry \<Rightarrow> registry \<times> emergency_action list" where
  "overdueDisclosures now r =
     (swept now r, js_sort (\<lambda>a b. int (ea_id a) - int (ea_id b))
        (filter (\<lambda>a. \<not> isOpen a \<and> di_publishedAt (ea_disclosure a) = None \<and> di_overdue (ea_disclosure a) = Some True)
          (jm_values (er_actions (swept now r)))))"

subsection \<open>What the registry keeps\<close>

type_synonym recusal = "string \<Rightarrow> recusal_request \<Rightarrow> string list"

text \<open>An action is bounded by its renewals, and a reviewed one has an independent reviewer who is not recused.\<close>

definition bounded :: "emergency_action \<Rightarrow> bool" where
  "bounded a \<longleftrightarrow> ea_renewals a \<le> maxRenewals \<and> ea_createdAt a < ea_expiresAt a
     \<and> ea_expiresAt a \<le> ea_createdAt a + maxDurationSeconds * 1000 * (int (ea_renewals a) + 1)
     \<and> ea_reviewDeadlineAt a \<le> ea_expiresAt a"

definition independent :: "recusal \<Rightarrow> emergency_action \<Rightarrow> bool" where
  "independent isRecused a \<longleftrightarrow> (ea_status a = Reviewed \<longrightarrow>
     (\<exists>w. ea_reviewer a = Some w \<and> w \<noteq> ea_actor a \<and> isRecused w (recusalRequestFor a) = []))"

definition scope :: "emergency_action \<Rightarrow> emergency_kind \<times> string option \<times> string option" where
  "scope a = (ea_kind a, ea_asset a, ea_source a)"

definition action_ok :: "recusal \<Rightarrow> nat \<Rightarrow> nat \<Rightarrow> emergency_action \<Rightarrow> bool" where
  "action_ok isRecused n i a \<longleftrightarrow> ea_id a = i \<and> i \<le> n \<and> bounded a \<and> independent isRecused a
     \<and> scope_error (ea_kind a) (ea_asset a) (ea_source a) = None"

definition one_per_scope :: "registry \<Rightarrow> bool" where
  "one_per_scope r \<longleftrightarrow> (\<forall>i j a b. jm_get (er_actions r) i = Some a \<and> jm_get (er_actions r) j = Some b
     \<and> isOpen a \<and> isOpen b \<and> scope a = scope b \<longrightarrow> i = j)"

definition registry_ok :: "recusal \<Rightarrow> registry \<Rightarrow> bool" where
  "registry_ok isRecused r \<longleftrightarrow> jm.all_stored (action_ok isRecused (er_actionCount r)) (er_actions r) \<and> one_per_scope r"

lemma registry_okD:
  "registry_ok isRecused r \<Longrightarrow> jm_get (er_actions r) i = Some a \<Longrightarrow> action_ok isRecused (er_actionCount r) i a"
  by (auto simp: registry_ok_def dest: jm.all_storedD)

lemma sweep_action_keeps:
  "ea_id (sweep_action now a) = ea_id a" "scope (sweep_action now a) = scope a" "ea_actor (sweep_action now a) = ea_actor a"
  "ea_createdAt (sweep_action now a) = ea_createdAt a" "ea_expiresAt (sweep_action now a) = ea_expiresAt a"
  "ea_reviewDeadlineAt (sweep_action now a) = ea_reviewDeadlineAt a" "ea_renewals (sweep_action now a) = ea_renewals a"
  "ea_reviewer (sweep_action now a) = ea_reviewer a"
  by (simp_all add: sweep_action_def Let_def scope_def)

lemma sweep_action_open: "isOpen (sweep_action now a) \<longleftrightarrow> isOpen a \<and> now < ea_expiresAt a"
  by (auto simp: sweep_action_def Let_def isOpen_def)

lemma sweep_action_reviewed: "ea_status (sweep_action now a) = Reviewed \<Longrightarrow> ea_status a = Reviewed"
  by (auto simp: sweep_action_def Let_def isOpen_def split: if_splits)

lemma recusalRequestFor_scope: "scope a = scope b \<Longrightarrow> recusalRequestFor a = recusalRequestFor b"
  by (simp add: recusalRequestFor_def scope_def)

lemma action_ok_sweep: "action_ok isRecused n i a \<Longrightarrow> action_ok isRecused n i (sweep_action now a)"
  using sweep_action_keeps [of now a] recusalRequestFor_scope [OF sweep_action_keeps(2) [of now a]] sweep_action_reviewed [of now a]
  by (auto simp: action_ok_def bounded_def independent_def scope_def)

lemma jm_get_swept: "jm_get (er_actions (swept now r)) i = map_option (sweep_action now) (jm_get (er_actions r) i)"
  by (simp add: er_sweep_def jm_get_map_values)

lemma registry_ok_sweep:
  assumes "registry_ok isRecused r"
  shows "registry_ok isRecused (swept now r)"
proof -
  have "one_per_scope (swept now r)"
    using assms unfolding registry_ok_def one_per_scope_def jm_get_swept
    by (auto simp: sweep_action_open sweep_action_keeps(2))
  moreover have "jm.all_stored (action_ok isRecused (er_actionCount (swept now r))) (er_actions (swept now r))"
    using assms by (auto simp: registry_ok_def er_sweep_def intro!: jm_all_stored_map_values action_ok_sweep)
  ultimately show ?thesis by (simp add: registry_ok_def)
qed

lemma registry_ok_put:
  assumes "registry_ok isRecused r" "jm_get (er_actions r) i = Some a"
    "action_ok isRecused (er_actionCount r) i b" "scope b = scope a" "isOpen b \<Longrightarrow> isOpen a"
  shows "registry_ok isRecused (er_put b i r)"
proof -
  have "one_per_scope (er_put b i r)"
    using assms unfolding registry_ok_def one_per_scope_def er_put_def
    by (auto simp: jm_get_set split: if_splits)
  then show ?thesis
    using assms by (simp add: registry_ok_def er_put_def jm.all_stored_put)
qed

subsection \<open>Every operation keeps it\<close>

lemma resolveExpiry_bounds:
  assumes "resolveExpiry now e d flr = Inr t"
  shows "nullish flr now < t" "flr = None \<Longrightarrow> t \<le> now + maxDurationSeconds * 1000"
  using assms by (auto simp: resolveExpiry_def Let_def split: sum.splits option.splits if_splits)

lemma registry_ok_open_checked:
  assumes ok: "registry_ok isRecused r0" and t: "now < t" "t \<le> now + maxDurationSeconds * 1000"
    and scope': "scope_error kind asset source = None"
  shows "registry_ok isRecused (fst (open_checked v now now' actor kind reason t asset source r0))"
proof -
  define r where "r = swept now' r0"
  define n where "n = er_actionCount r"
  have ok': "registry_ok isRecused r" unfolding r_def by (rule registry_ok_sweep [OF ok])
  show ?thesis
  proof (cases "list_ex (\<lambda>a. isOpen a \<and> same_scope kind asset source a) (jm_values (er_actions r))")
    case True
    then show ?thesis using ok' by (simp add: open_checked_def Let_def r_def [symmetric])
  next
    case False
    then obtain a where new: "fst (open_checked v now now' actor kind reason t asset source r0) = er_put a (n + 1) (r\<lparr>er_actionCount := n + 1\<rparr>)"
      and a: "ea_id a = n + 1" "scope a = (kind, asset, source)" "ea_createdAt a = now" "ea_expiresAt a = t"
      "ea_renewals a = 0" "ea_status a = Active" "ea_reviewDeadlineAt a \<le> t"
      by (simp add: open_checked_def Let_def r_def [symmetric] n_def [symmetric] scope_def)
    have fresh: "jm_get (er_actions r) (n + 1) = None"
    proof (cases "jm_get (er_actions r) (n + 1)")
      case (Some b)
      from registry_okD [OF ok' this] show ?thesis by (simp add: action_ok_def n_def)
    qed
    have none: "scope b \<noteq> (kind, asset, source)" if "jm_get (er_actions r) j = Some b" "isOpen b" for j b
      using False that by (force simp: list_ex_iff same_scope_def scope_def dest: jm_get_mem)
    have "action_ok isRecused (n + 1) (n + 1) a"
      using a t scope' by (simp add: action_ok_def bounded_def independent_def scope_def maxDurationSeconds_def)
    moreover have "jm.all_stored (action_ok isRecused (n + 1)) (er_actions r)"
      by (rule jm.all_stored_mono [where P = "action_ok isRecused n"])
        (use ok' in \<open>auto simp: registry_ok_def n_def action_ok_def\<close>)
    moreover have "one_per_scope (er_put a (n + 1) (r\<lparr>er_actionCount := n + 1\<rparr>))"
      using ok' none a(2) unfolding one_per_scope_def er_put_def registry_ok_def
      by (auto simp: jm_get_set split: if_splits) (metis none)+
    ultimately show ?thesis
      unfolding new by (simp add: registry_ok_def er_put_def jm.all_stored_put)
  qed
qed

lemma registry_ok_open:
  assumes "registry_ok isRecused r"
  shows "registry_ok isRecused (fst (er_open v now now' input r))"
  using assms resolveExpiry_bounds [where flr = None]
  by (auto simp: er_open_def Let_def split: sum.split option.split intro!: registry_ok_open_checked)

text \<open>The four operations on a stored action sweep, look the action up and possibly replace it.\<close>

lemma registry_ok_update:
  assumes "registry_ok isRecused r0" "requireAction i (swept now r0) = Inr a"
    "action_ok isRecused (er_actionCount (swept now r0)) i a \<Longrightarrow> action_ok isRecused (er_actionCount (swept now r0)) i b"
    "scope b = scope a" "isOpen b \<Longrightarrow> isOpen a"
  shows "registry_ok isRecused (er_put b i (swept now r0))"
proof -
  note ok = registry_ok_sweep [OF assms(1), of now]
  have get: "jm_get (er_actions (swept now r0)) i = Some a"
    using assms(2) by (simp add: requireAction_def split: option.splits)
  from registry_ok_put [OF ok get assms(3) [OF registry_okD [OF ok get]] assms(4,5)] show ?thesis .
qed

lemma registry_ok_review:
  assumes ok: "registry_ok isRecused r0"
  shows "registry_ok isRecused (fst (er_review isRecused now now' i reviewer decision attested r0))"
proof -
  have late: "registry_ok isRecused (er_put (a\<lparr>ea_reviewOverdue := Some True\<rparr>) i (swept now r0))"
    if "requireAction i (swept now r0) = Inr a" for a
    by (rule registry_ok_update [OF ok that])
      (auto simp: action_ok_def bounded_def independent_def scope_def isOpen_def recusalRequestFor_def)
  have acc: "registry_ok isRecused (er_put (review_accepted now' w decision a) i (swept now r0))"
    if a: "requireAction i (swept now r0) = Inr a" and "ea_status a = Active" "w \<noteq> ea_actor a" "isRecused w (recusalRequestFor a) = []" for a w
  proof (rule registry_ok_update [OF ok a])
    have "recusalRequestFor (review_accepted now' w decision a) = recusalRequestFor a"
      by (rule recusalRequestFor_scope) (simp add: review_accepted_def Let_def scope_def)
    then show "action_ok isRecused n i a \<Longrightarrow> action_ok isRecused n i (review_accepted now' w decision a)" for n
      using that by (auto simp: action_ok_def bounded_def independent_def review_accepted_def Let_def)
  qed (use that in \<open>auto simp: review_accepted_def Let_def scope_def isOpen_def\<close>)
  show ?thesis
    using registry_ok_sweep [OF ok, of now] ok late acc
    by (auto simp: er_review_def Let_def split: sum.split)
qed

lemma registry_ok_renew:
  assumes ok: "registry_ok isRecused r0"
  shows "registry_ok isRecused (fst (er_renew now now' i actor e d r0))"
proof -
  have ren: "registry_ok isRecused (er_put (a\<lparr>ea_expiresAt := t, ea_renewals := Suc (ea_renewals a), ea_status := Active,
       ea_reviewer := None, ea_reviewedAt := None, ea_reviewDecision := None, ea_reviewOverdue := Some False,
       ea_reviewDeadlineAt := min (now' + reviewWindowSeconds * 1000) t\<rparr>) i (swept now r0))"
    if a: "requireAction i (swept now r0) = Inr a" and st: "ea_status a = Reviewed" and n: "ea_renewals a < maxRenewals"
      and t: "ea_expiresAt a < t" "\<not> ea_createdAt a + maxDurationSeconds * 1000 * (int (ea_renewals a) + 2) < t" for a t
    by (rule registry_ok_update [OF ok a])
      (use st n t in \<open>auto simp: action_ok_def bounded_def independent_def scope_def isOpen_def algebra_simps\<close>)
  show ?thesis
    using registry_ok_sweep [OF ok, of now] ok
    by (auto simp: er_renew_def Let_def not_le split: sum.split intro!: ren dest: resolveExpiry_bounds(1))
qed

lemma registry_ok_revoke:
  assumes ok: "registry_ok isRecused r0"
  shows "registry_ok isRecused (fst (er_revoke now now' i actor reason r0))"
proof -
  have "registry_ok isRecused (er_put (a\<lparr>ea_status := Revoked, ea_revokedBy := x, ea_revokedAt := y, ea_revocationReason := z\<rparr>) i (swept now r0))"
    if "requireAction i (swept now r0) = Inr a" for a x y z
    by (rule registry_ok_update [OF ok that]) (auto simp: action_ok_def bounded_def independent_def scope_def isOpen_def)
  then show ?thesis
    using registry_ok_sweep [OF ok, of now] ok by (auto simp: er_revoke_def Let_def split: sum.split)
qed

lemma registry_ok_disclose:
  assumes ok: "registry_ok isRecused r0"
  shows "registry_ok isRecused (fst (er_publishDisclosure now now' i summary actor r0))"
proof -
  have "registry_ok isRecused (er_put (a\<lparr>ea_disclosure := x\<rparr>) i (swept now r0))" if "requireAction i (swept now r0) = Inr a" for a x
    by (rule registry_ok_update [OF ok that])
      (auto simp: action_ok_def bounded_def independent_def scope_def isOpen_def recusalRequestFor_def)
  then show ?thesis
    using registry_ok_sweep [OF ok, of now] ok by (auto simp: er_publishDisclosure_def Let_def split: sum.split)
qed

text \<open>Registries that calls at arbitrary times lead to. The queries only sweep.\<close>

inductive er_reachable :: "recusal \<Rightarrow> registry \<Rightarrow> bool" for isRecused where
  init: "er_reachable isRecused newRegistry"
| open': "er_reachable isRecused r \<Longrightarrow> er_reachable isRecused (fst (er_open v now now' input r))"
| review: "er_reachable isRecused r \<Longrightarrow> er_reachable isRecused (fst (er_review isRecused now now' i reviewer decision attested r))"
| renew: "er_reachable isRecused r \<Longrightarrow> er_reachable isRecused (fst (er_renew now now' i actor e d r))"
| revoke: "er_reachable isRecused r \<Longrightarrow> er_reachable isRecused (fst (er_revoke now now' i actor reason r))"
| disclose: "er_reachable isRecused r \<Longrightarrow> er_reachable isRecused (fst (er_publishDisclosure now now' i summary actor r))"
| sweep: "er_reachable isRecused r \<Longrightarrow> er_reachable isRecused (swept now r)"

lemma registry_ok_reachable: "er_reachable isRecused r \<Longrightarrow> registry_ok isRecused r"
proof (induction rule: er_reachable.induct)
  case init
  then show ?case by (simp add: newRegistry_def registry_ok_def one_per_scope_def)
qed (simp_all add: registry_ok_open registry_ok_review registry_ok_renew registry_ok_revoke registry_ok_disclose registry_ok_sweep)


abbreviation sample_open :: open_input where
  "sample_open \<equiv> \<lparr>oi_kind = ''pause-feed'', oi_reason = ''bad feed'', oi_actor = ''ops'', oi_asset = Some '' xlm'', oi_source = None,
     oi_expiresAt = None, oi_durationSeconds = Some (Fin 7200)\<rparr>"

abbreviation sample_recusal :: recusal where
  "sample_recusal \<equiv> \<lambda>w req. if w = ''mallory'' then [''stake''] else []"

abbreviation sample_registry :: registry where
  "sample_registry \<equiv> fst (er_renew 2000 2000 1 ''ops'' None (Some (Fin 90000))
     (fst (er_review sample_recusal 1000 1000 1 ''rev'' Confirm True (fst (er_open 1 0 0 sample_open newRegistry)))))"

lemma sample_registry_reachable: "er_reachable sample_recusal sample_registry"
  by (intro er_reachable.intros)

definition action_summary :: "registry \<Rightarrow> nat \<Rightarrow> (emergency_status \<times> nat \<times> int) option" where
  "action_summary r i = map_option (\<lambda>a. (ea_status a, ea_renewals a, ea_expiresAt a)) (jm_get (er_actions r) i)"


subsection \<open>Restrictions in force\<close>

lemma activeOverlays_exact:
  fixes now :: int
  assumes "registry_ok isRecused r"
  defines "in_force a \<equiv> a \<in> set (jm_values (er_actions r)) \<and> isOpen a \<and> now < ea_expiresAt a"
  shows "ov_halted (snd (activeOverlays now r)) \<longleftrightarrow> (\<exists>a. in_force a \<and> ea_kind a = HaltPublishing)"
    and "x \<in> set (ov_assets (snd (activeOverlays now r))) \<longleftrightarrow> (\<exists>a. in_force a \<and> ea_kind a = PauseFeed \<and> ea_asset a = Some x)"
    and "x \<in> set (ov_sources (snd (activeOverlays now r))) \<longleftrightarrow> (\<exists>a. in_force a \<and> ea_kind a = FreezeSource \<and> ea_source a = Some x)"
proof -
  have open': "set (filter isOpen (jm_values (er_actions (swept now r)))) = sweep_action now ` {a. in_force a}"
    unfolding er_sweep_def in_force_def by (auto simp: jm_values_map_values sweep_action_open)
  have keep: "ea_kind (sweep_action now a) = ea_kind a" "ea_asset (sweep_action now a) = ea_asset a"
    "ea_source (sweep_action now a) = ea_source a" for a
    using sweep_action_keeps(2) [of now a] by (simp_all add: scope_def)
  have ok: "scope_error (ea_kind a) (ea_asset a) (ea_source a) = None" if "in_force a" for a
    using that assms(1) jm_all_stored_values [of "action_ok isRecused (er_actionCount r)" "er_actions r"]
    by (auto simp: in_force_def registry_ok_def action_ok_def)
  have asset: "truthy_text (ea_asset a)" if "in_force a" "ea_kind a = PauseFeed" for a
    using ok [OF that(1)] that(2) by (simp add: scope_error_def split: if_splits)
  have source: "truthy_text (ea_source a)" if "in_force a" "ea_kind a = FreezeSource" for a
    using ok [OF that(1)] that(2) by (simp add: scope_error_def split: if_splits)
  show "ov_halted (snd (activeOverlays now r)) \<longleftrightarrow> (\<exists>a. in_force a \<and> ea_kind a = HaltPublishing)"
    by (auto simp: activeOverlays_def Let_def list_ex_iff open' keep simp del: set_filter)
  show "x \<in> set (ov_assets (snd (activeOverlays now r))) \<longleftrightarrow> (\<exists>a. in_force a \<and> ea_kind a = PauseFeed \<and> ea_asset a = Some x)"
  proof -
    have "x \<in> set (ov_assets (snd (activeOverlays now r))) \<longleftrightarrow>
      (\<exists>b \<in> set (filter isOpen (jm_values (er_actions (swept now r)))). ea_kind b = PauseFeed \<and> truthy_text (ea_asset b) \<and> the (ea_asset b) = x)"
      by (auto simp: activeOverlays_def Let_def)
    also have "\<dots> \<longleftrightarrow> (\<exists>a. in_force a \<and> ea_kind a = PauseFeed \<and> truthy_text (ea_asset a) \<and> the (ea_asset a) = x)"
      unfolding open' by (auto simp: keep)
    also have "\<dots> \<longleftrightarrow> (\<exists>a. in_force a \<and> ea_kind a = PauseFeed \<and> ea_asset a = Some x)"
      using asset by (auto simp: truthy_text_def)
    finally show ?thesis .
  qed
  show "x \<in> set (ov_sources (snd (activeOverlays now r))) \<longleftrightarrow> (\<exists>a. in_force a \<and> ea_kind a = FreezeSource \<and> ea_source a = Some x)"
  proof -
    have "x \<in> set (ov_sources (snd (activeOverlays now r))) \<longleftrightarrow>
      (\<exists>b \<in> set (filter isOpen (jm_values (er_actions (swept now r)))). ea_kind b = FreezeSource \<and> truthy_text (ea_source b) \<and> the (ea_source b) = x)"
      by (auto simp: activeOverlays_def Let_def)
    also have "\<dots> \<longleftrightarrow> (\<exists>a. in_force a \<and> ea_kind a = FreezeSource \<and> truthy_text (ea_source a) \<and> the (ea_source a) = x)"
      unfolding open' by (auto simp: keep)
    also have "\<dots> \<longleftrightarrow> (\<exists>a. in_force a \<and> ea_kind a = FreezeSource \<and> ea_source a = Some x)"
      using source by (auto simp: truthy_text_def)
    finally show ?thesis .
  qed
qed

text \<open>
  A feed is frozen at a time exactly if an open, unexpired action halts publishing or pauses that feed;
  so an action opened 216 hours ago or earlier never freezes anything.
\<close>

theorem emergency_freeze_exact:
  assumes "er_reachable isRecused r"
  shows "snd (isFrozen now asset r) \<longleftrightarrow>
    (\<exists>a \<in> set (jm_values (er_actions r)). isOpen a \<and> now < ea_expiresAt a \<and> now < ea_createdAt a + 216 * 3600000
      \<and> (ea_kind a = HaltPublishing \<or> ea_kind a = PauseFeed \<and> ea_asset a = Some (js_toUpperCase (js_trim asset))))"
proof -
  note ok = registry_ok_reachable [OF assms]
  have "now < ea_createdAt a + 216 * 3600000" if "a \<in> set (jm_values (er_actions r))" "now < ea_expiresAt a" for a
  proof -
    from that(1) ok obtain i where "action_ok isRecused (er_actionCount r) i a"
      by (auto simp: registry_ok_def dest: jm_all_stored_values)
    then have "int (ea_renewals a) \<le> 2" "ea_expiresAt a \<le> ea_createdAt a + 259200000 * (int (ea_renewals a) + 1)"
      by (simp_all add: action_ok_def bounded_def maxRenewals_def maxDurationSeconds_def)
    then have "ea_expiresAt a \<le> ea_createdAt a + 777600000" by simp
    with that(2) show ?thesis by simp
  qed
  then show ?thesis
    by (auto simp: isFrozen_def case_prod_unfold activeOverlays_exact [OF ok])
qed

theorem emergency_freeze_exact_witness:
  "snd (isFrozen 90001999 ''xlm'' sample_registry) \<and> \<not> snd (isFrozen 90002000 ''xlm'' sample_registry)
    \<and> (\<exists>a \<in> set (jm_values (er_actions sample_registry)). isOpen a \<and> 90001999 < ea_expiresAt a)"
proof -
  have "snd (isFrozen 90001999 ''xlm'' sample_registry)" "\<not> snd (isFrozen 90002000 ''xlm'' sample_registry)"
    by code_simp+
  with emergency_freeze_exact [OF sample_registry_reachable, of 90001999 "''xlm''"] show ?thesis by blast
qed

end
