(* ===== verification/Retry_Queue.thy ===== *)
theory Retry_Queue
  imports Js_Prelude
begin

text \<open>
  The submission retry queue, \<open>services/aggregator/src/contract-publishing/retry-queue.ts\<close>.

  The clock is the argument \<open>now\<close> and \<open>Math.random()\<close> a function \<open>rnd\<close> of the position of the item
  in the pass. Emitted events are the output of a pass; the registered listeners, which run inside
  a try/catch, are not modelled. The processor timer is the flag \<open>rq_running\<close>.
  A submission also carries the \<open>epoch\<close> the publisher adds to it: the object spread of \<open>enqueue\<close> keeps it.
\<close>

subsection \<open>State\<close>

record retryable_submission =
  rs_asset :: string
  rs_price :: int
  rs_decimals :: int
  rs_timestamp :: int
  rs_attemptCount :: nat
  rs_lastError :: "string option"
  rs_epoch :: "int option"
  rs_nextRetryAt :: int

datatype retry_event =
    RetryEvent string retryable_submission nat
  | FailureEvent string retryable_submission

record retry_metrics =
  rm_totalQueued :: nat
  rm_totalRetried :: nat
  rm_totalFailed :: nat
  rm_averageRetries :: rat

record retry_queue =
  rq_queue :: "(string, retryable_submission) js_map"
  rq_metrics :: retry_metrics
  rq_maxRetries :: nat
  rq_maxBackoffMs :: rat
  rq_baseBackoffMs :: rat
  rq_running :: bool
  rq_suspended :: bool
  rq_orphaned :: nat

definition newSubmissionRetryQueue :: "nat option \<Rightarrow> rat option \<Rightarrow> rat option \<Rightarrow> retry_queue" where
  "newSubmissionRetryQueue maxRetries baseBackoffMs maxBackoffMs =
     \<lparr>rq_queue = [], rq_metrics = \<lparr>rm_totalQueued = 0, rm_totalRetried = 0, rm_totalFailed = 0, rm_averageRetries = 0\<rparr>,
      rq_maxRetries = nullish maxRetries 5, rq_maxBackoffMs = nullish maxBackoffMs 60000,
      rq_baseBackoffMs = nullish baseBackoffMs 1000, rq_running = False, rq_suspended = False, rq_orphaned = 0\<rparr>"

subsection \<open>Operations\<close>

definition rq_start :: "retry_queue \<Rightarrow> retry_queue" where
  "rq_start q = (if rq_suspended q \<or> rq_running q then q else q\<lparr>rq_running := True\<rparr>)"

definition rq_stop :: "retry_queue \<Rightarrow> retry_queue" where
  "rq_stop q = q\<lparr>rq_running := False\<rparr>"

definition rq_clear :: "bool \<Rightarrow> retry_queue \<Rightarrow> retry_queue \<times> nat" where
  "rq_clear markOrphaned q =
     (let n = length (rq_queue q)
      in (q\<lparr>rq_queue := [], rq_orphaned := (if n > 0 \<and> markOrphaned then rq_orphaned q + n else rq_orphaned q)\<rparr>, n))"

definition rq_setSuspended :: "bool \<Rightarrow> retry_queue \<Rightarrow> retry_queue" where
  "rq_setSuspended suspended q =
     (if rq_suspended q = suspended then q
      else let q' = q\<lparr>rq_suspended := suspended\<rparr>
           in if suspended then fst (rq_clear True (rq_stop q')) else rq_start q')"

definition submission_key :: "string \<Rightarrow> int \<Rightarrow> string" where
  "submission_key asset timestamp = asset @ '':'' @ js_show_int timestamp"

definition rq_enqueue ::
  "int \<Rightarrow> string \<Rightarrow> int \<Rightarrow> int \<Rightarrow> int \<Rightarrow> string option \<Rightarrow> int option \<Rightarrow> retry_queue \<Rightarrow> retry_queue \<times> string" where
  "rq_enqueue now asset price decimals timestamp lastError epoch q =
     (if rq_suspended q then (q, '''')
      else let key = submission_key asset timestamp;
               retry = \<lparr>rs_asset = asset, rs_price = price, rs_decimals = decimals, rs_timestamp = timestamp,
                        rs_attemptCount = 0, rs_lastError = lastError, rs_epoch = epoch, rs_nextRetryAt = now\<rparr>
           in (q\<lparr>rq_queue := jm_set (rq_queue q) key retry,
                 rq_metrics := (rq_metrics q)\<lparr>rm_totalQueued := rm_totalQueued (rq_metrics q) + 1\<rparr>\<rparr>, key))"

definition calculateBackoff :: "retry_queue \<Rightarrow> rat \<Rightarrow> nat \<Rightarrow> int" where
  "calculateBackoff q r attemptCount =
     (let exponential = rq_baseBackoffMs q * 2 powi (int attemptCount - 1);
          jitter = r * rq_baseBackoffMs q
      in \<lfloor>min (exponential + jitter) (rq_maxBackoffMs q)\<rfloor>)"

definition processItem ::
  "int \<Rightarrow> rat \<Rightarrow> string \<Rightarrow> retryable_submission \<Rightarrow> retry_queue \<Rightarrow> retry_queue \<times> retry_event" where
  "processItem now r key item q0 =
     (let submission = item\<lparr>rs_attemptCount := rs_attemptCount item + 1\<rparr>;
          q = q0\<lparr>rq_metrics := (rq_metrics q0)\<lparr>rm_totalRetried := rm_totalRetried (rq_metrics q0) + 1\<rparr>\<rparr>
      in if rs_attemptCount submission > rq_maxRetries q
         then (q\<lparr>rq_queue := jm_delete (rq_queue q) key,
                 rq_metrics := (rq_metrics q)\<lparr>rm_totalFailed := rm_totalFailed (rq_metrics q) + 1\<rparr>\<rparr>,
               FailureEvent key submission)
         else let s' = submission\<lparr>rs_nextRetryAt := now + calculateBackoff q r (rs_attemptCount submission)\<rparr>
              in (q\<lparr>rq_queue := jm_set (rq_queue q) key s'\<rparr>, RetryEvent key s' (rs_attemptCount s')))"

fun processItems ::
  "int \<Rightarrow> (nat \<Rightarrow> rat) \<Rightarrow> nat \<Rightarrow> (string \<times> retryable_submission) list \<Rightarrow> retry_queue \<Rightarrow> retry_queue \<times> retry_event list" where
  "processItems now rnd i [] q = (q, [])"
| "processItems now rnd i ((key, s) # items) q =
     (let (q', ev) = processItem now (rnd i) key s q; (q'', evs) = processItems now rnd (Suc i) items q'
      in (q'', ev # evs))"

definition updateMetrics :: "retry_queue \<Rightarrow> retry_queue" where
  "updateMetrics q =
     (let m = rq_metrics q
      in if rm_totalRetried m > 0
         then q\<lparr>rq_metrics := m\<lparr>rm_averageRetries :=
                 of_nat (rm_totalRetried m + rm_totalFailed m) / of_nat (rm_totalQueued m)\<rparr>\<rparr>
         else q)"

definition readyItems :: "int \<Rightarrow> retry_queue \<Rightarrow> (string \<times> retryable_submission) list" where
  "readyItems now q = filter (\<lambda>(_, s). rs_nextRetryAt s \<le> now) (rq_queue q)"

definition processQueue :: "int \<Rightarrow> (nat \<Rightarrow> rat) \<Rightarrow> retry_queue \<Rightarrow> retry_queue \<times> retry_event list" where
  "processQueue now rnd q =
     (if rq_suspended q then (q, [])
      else let (q', evs) = processItems now rnd 0 (readyItems now q) q in (updateMetrics q', evs))"

definition rq_remove :: "string \<Rightarrow> retry_queue \<Rightarrow> retry_queue \<times> bool" where
  "rq_remove key q = (q\<lparr>rq_queue := jm_delete (rq_queue q) key\<rparr>, jm_has (rq_queue q) key)"

definition rq_getItem :: "string \<Rightarrow> retry_queue \<Rightarrow> retryable_submission option" where
  "rq_getItem key q = jm_get (rq_queue q) key"

definition rq_getQueueItems :: "retry_queue \<Rightarrow> retryable_submission list" where
  "rq_getQueueItems q = jm_values (rq_queue q)"

subsection \<open>One pass, per item\<close>

text \<open>What a pass does to the item stored under a key, and the event it emits for it.\<close>

definition pass_item :: "int \<Rightarrow> retry_queue \<Rightarrow> rat \<Rightarrow> retryable_submission \<Rightarrow> retryable_submission option" where
  "pass_item now q r s =
     (if now < rs_nextRetryAt s then Some s
      else if rs_attemptCount s \<ge> rq_maxRetries q then None
      else Some (s\<lparr>rs_attemptCount := rs_attemptCount s + 1,
                   rs_nextRetryAt := now + calculateBackoff q r (rs_attemptCount s + 1)\<rparr>))"

definition same_settings :: "retry_queue \<Rightarrow> retry_queue \<Rightarrow> bool" where
  "same_settings q q' \<longleftrightarrow> rq_maxRetries q' = rq_maxRetries q \<and> rq_baseBackoffMs q' = rq_baseBackoffMs q
     \<and> rq_maxBackoffMs q' = rq_maxBackoffMs q \<and> rq_suspended q' = rq_suspended q \<and> rq_running q' = rq_running q"

lemma same_settings_refl [simp]: "same_settings q q"
  by (simp add: same_settings_def)

lemma same_settings_trans: "same_settings a b \<Longrightarrow> same_settings b c \<Longrightarrow> same_settings a c"
  by (simp add: same_settings_def)

lemma calculateBackoff_settings: "same_settings q q' \<Longrightarrow> calculateBackoff q' = calculateBackoff q"
  by (auto simp: same_settings_def calculateBackoff_def fun_eq_iff)

lemma processItem_spec:
  assumes "processItem now r key s q = (q', ev)"
  shows "same_settings q q'" "jm_wf (rq_queue q) \<Longrightarrow> jm_wf (rq_queue q')"
    "k \<noteq> key \<Longrightarrow> jm_get (rq_queue q') k = jm_get (rq_queue q) k"
    "rs_nextRetryAt s \<le> now \<Longrightarrow> jm_get (rq_queue q') key = pass_item now q r s"
  using assms
  by (auto simp: processItem_def Let_def same_settings_def jm_get_delete pass_item_def calculateBackoff_def
      split: if_splits)

lemma processItems_spec:
  assumes "processItems now rnd i items q = (q', evs)" "distinct (map fst items)"
    "\<forall>(k, s) \<in> set items. rs_nextRetryAt s \<le> now"
  shows "same_settings q q' \<and> (jm_wf (rq_queue q) \<longrightarrow> jm_wf (rq_queue q'))
    \<and> (\<forall>k. k \<notin> fst ` set items \<longrightarrow> jm_get (rq_queue q') k = jm_get (rq_queue q) k)
    \<and> (\<forall>k s. (k, s) \<in> set items \<longrightarrow> (\<exists>j. jm_get (rq_queue q') k = pass_item now q (rnd j) s))"
  using assms
proof (induction items arbitrary: i q evs)
  case (Cons it items)
  obtain key s' where it: "it = (key, s')" by force
  obtain q1 ev where q1: "processItem now (rnd i) key s' q = (q1, ev)" by force
  obtain evs' where rest: "processItems now rnd (Suc i) items q1 = (q', evs')"
    using Cons.prems q1 by (auto simp: it split: prod.splits)
  have d: "distinct (map fst items)" "\<forall>(k, s) \<in> set items. rs_nextRetryAt s \<le> now" "key \<notin> fst ` set items"
    "rs_nextRetryAt s' \<le> now"
    using Cons.prems by (auto simp: it image_iff)
  note one = processItem_spec [OF q1] and ih = Cons.IH [OF rest d(1,2)]
  have ps: "pass_item now q1 = pass_item now q"
    using one(1) calculateBackoff_settings [OF one(1)] by (auto simp: pass_item_def same_settings_def fun_eq_iff)
  have "same_settings q q'" using one(1) ih same_settings_trans by blast
  moreover have "jm_get (rq_queue q') key = pass_item now q (rnd i) s'"
    using ih d one(4) by simp
  ultimately show ?case
    using one(2,3) ih ps by (auto simp: it)
qed simp

lemma updateMetrics_frame [simp]: "rq_queue (updateMetrics q) = rq_queue q" "same_settings q (updateMetrics q)"
  by (simp_all add: updateMetrics_def Let_def same_settings_def)

lemma processQueue_spec:
  assumes "jm_wf (rq_queue q)" "\<not> rq_suspended q"
  shows "same_settings q (fst (processQueue now rnd q))" "jm_wf (rq_queue (fst (processQueue now rnd q)))"
    "jm_get (rq_queue q) k = None \<Longrightarrow> jm_get (rq_queue (fst (processQueue now rnd q))) k = None"
    "jm_get (rq_queue q) k = Some s \<Longrightarrow>
       \<exists>j. jm_get (rq_queue (fst (processQueue now rnd q))) k = pass_item now q (rnd j) s"
proof -
  obtain q' evs where p: "processItems now rnd 0 (readyItems now q) q = (q', evs)" by force
  have d: "distinct (map fst (readyItems now q))" "\<forall>(k, s) \<in> set (readyItems now q). rs_nextRetryAt s \<le> now"
    using assms(1) by (auto simp: readyItems_def jm_wf_def distinct_map_filter)
  have sp: "same_settings q q'" "jm_wf (rq_queue q')"
    "\<And>k. k \<notin> fst ` set (readyItems now q) \<Longrightarrow> jm_get (rq_queue q') k = jm_get (rq_queue q) k"
    "\<And>k s. (k, s) \<in> set (readyItems now q) \<Longrightarrow> \<exists>j. jm_get (rq_queue q') k = pass_item now q (rnd j) s"
    using processItems_spec [OF p d] assms(1) by blast+
  have f: "fst (processQueue now rnd q) = updateMetrics q'"
    using assms(2) p by (simp add: processQueue_def)
  show "same_settings q (fst (processQueue now rnd q))"
    unfolding f using sp(1) updateMetrics_frame(2) same_settings_trans by blast
  show "jm_wf (rq_queue (fst (processQueue now rnd q)))"
    unfolding f using sp(2) by simp
  show "jm_get (rq_queue q) k = None \<Longrightarrow> jm_get (rq_queue (fst (processQueue now rnd q))) k = None"
    unfolding f using sp(3) [of k] by (auto simp: jm_get_None readyItems_def image_iff)
  show "\<exists>j. jm_get (rq_queue (fst (processQueue now rnd q))) k = pass_item now q (rnd j) s"
    if s: "jm_get (rq_queue q) k = Some s"
  proof (cases "rs_nextRetryAt s \<le> now")
    case True
    then have "(k, s) \<in> set (readyItems now q)"
      using s by (auto simp: readyItems_def dest: jm_get_mem)
    with sp(4) show ?thesis unfolding f by auto
  next
    case False
    then have "k \<notin> fst ` set (readyItems now q)"
      using s assms(1) by (auto simp: readyItems_def dest: jm_mem_get)
    with sp(3) s False show ?thesis unfolding f by (auto simp: pass_item_def)
  qed
qed

subsection \<open>Properties\<close>

definition queue_ok :: "retry_queue \<Rightarrow> bool" where
  "queue_ok q \<longleftrightarrow> jm.all_stored (\<lambda>k s. k = submission_key (rs_asset s) (rs_timestamp s)
       \<and> rs_attemptCount s \<le> rq_maxRetries q) (rq_queue q)
     \<and> (rq_suspended q \<longrightarrow> rq_queue q = [] \<and> \<not> rq_running q)"

datatype rq_op = Start | Stop | Suspend bool | Enqueue string int int int "string option" "int option"
  | Process "nat \<Rightarrow> rat" | Remove string | Clear bool

fun rq_step :: "int \<Rightarrow> rq_op \<Rightarrow> retry_queue \<Rightarrow> retry_queue" where
  "rq_step now Start q = rq_start q"
| "rq_step now Stop q = rq_stop q"
| "rq_step now (Suspend b) q = rq_setSuspended b q"
| "rq_step now (Enqueue a p d t e ep) q = fst (rq_enqueue now a p d t e ep q)"
| "rq_step now (Process rnd) q = fst (processQueue now rnd q)"
| "rq_step now (Remove k) q = fst (rq_remove k q)"
| "rq_step now (Clear b) q = fst (rq_clear b q)"

inductive rq_reachable :: "retry_queue \<Rightarrow> bool" where
  init: "rq_reachable (newSubmissionRetryQueue maxRetries baseBackoffMs maxBackoffMs)"
| step: "rq_reachable q \<Longrightarrow> rq_reachable (rq_step now e q)"

lemma queue_ok_process:
  assumes "queue_ok q"
  shows "queue_ok (fst (processQueue now rnd q))"
proof (cases "rq_suspended q")
  case True
  with assms show ?thesis by (simp add: processQueue_def)
next
  case False
  have wf: "jm_wf (rq_queue q)" using assms by (auto simp: queue_ok_def dest: jm.all_stored_wf)
  let ?q' = "fst (processQueue now rnd q)"
  note sp = processQueue_spec [OF wf False, where now = now and rnd = rnd]
  have "k = submission_key (rs_asset s') (rs_timestamp s') \<and> rs_attemptCount s' \<le> rq_maxRetries ?q'"
    if s': "jm_get (rq_queue ?q') k = Some s'" for k s'
  proof -
    obtain s where s: "jm_get (rq_queue q) k = Some s" using sp(3) s' by fastforce
    with assms have "k = submission_key (rs_asset s) (rs_timestamp s)" "rs_attemptCount s \<le> rq_maxRetries q"
      by (auto simp: queue_ok_def dest: jm.all_storedD)
    with sp(4) [OF s] s' sp(1) show ?thesis
      by (auto simp: pass_item_def same_settings_def split: if_splits)
  qed
  then show ?thesis
    using sp(1,2) False by (auto simp: queue_ok_def jm.all_stored_def same_settings_def)
qed

lemma queue_ok_step: "queue_ok q \<Longrightarrow> queue_ok (rq_step now e q)"
  by (cases e)
    (auto simp: queue_ok_process, auto simp: queue_ok_def rq_start_def rq_stop_def rq_setSuspended_def rq_clear_def
      rq_enqueue_def rq_remove_def Let_def intro!: jm.all_stored_put jm.all_stored_del)

text \<open>
  In every state the queue can reach, no queued submission has used more than the configured
  number of retries, every submission is stored under the key of its asset and timestamp, and a
  suspended queue is empty and has no running processor.
\<close>

theorem retry_queue_invariant:
  assumes "rq_reachable q"
  shows "(\<forall>k s. jm_get (rq_queue q) k = Some s \<longrightarrow>
       k = submission_key (rs_asset s) (rs_timestamp s) \<and> rs_attemptCount s \<le> rq_maxRetries q)
    \<and> (rq_suspended q \<longrightarrow> rq_queue q = [] \<and> \<not> rq_running q)"
proof -
  from assms have "queue_ok q"
    by induction (auto simp: queue_ok_step, simp add: queue_ok_def newSubmissionRetryQueue_def)
  then show ?thesis by (auto simp: queue_ok_def dest: jm.all_storedD)
qed

theorem retry_queue_invariant_witness:
  "rq_queue (rq_step 7 (Suspend True) (rq_step 5 (Enqueue ''XLM'' 1 7 5 None None)
     (newSubmissionRetryQueue None None None))) = []"
proof -
  have "rq_reachable (rq_step 7 (Suspend True) (rq_step 5 (Enqueue ''XLM'' 1 7 5 None None)
     (newSubmissionRetryQueue None None None)))"
    by (intro rq_reachable.intros)
  from retry_queue_invariant [OF this] show ?thesis
    by (simp add: rq_setSuspended_def rq_clear_def rq_stop_def rq_enqueue_def newSubmissionRetryQueue_def Let_def)
qed

fun passes :: "(int \<times> (nat \<Rightarrow> rat)) list \<Rightarrow> retry_queue \<Rightarrow> retry_queue" where
  "passes [] q = q"
| "passes ((now, rnd) # ps) q = passes ps (fst (processQueue now rnd q))"

text \<open>Passes whose times leave at least the maximal backoff between each other.\<close>

fun spaced :: "rat \<Rightarrow> int \<Rightarrow> (int \<times> (nat \<Rightarrow> rat)) list \<Rightarrow> bool" where
  "spaced gap t [] = True"
| "spaced gap t ((now, rnd) # ps) = (t \<le> now \<and> spaced gap (now + \<lfloor>gap\<rfloor>) ps)"

lemma calculateBackoff_le: "calculateBackoff q r n \<le> \<lfloor>rq_maxBackoffMs q\<rfloor>"
  by (simp add: calculateBackoff_def Let_def floor_mono)

lemma passes_None:
  "jm_wf (rq_queue q) \<Longrightarrow> \<not> rq_suspended q \<Longrightarrow> jm_get (rq_queue q) k = None \<Longrightarrow> jm_get (rq_queue (passes ps q)) k = None"
proof (induction ps arbitrary: q)
  case (Cons p ps)
  then show ?case
    using processQueue_spec [OF Cons.prems(1,2), where now = "fst p" and rnd = "snd p"]
    by (cases p) (auto simp: same_settings_def)
qed simp

lemma passes_drain:
  assumes "jm_wf (rq_queue q)" "\<not> rq_suspended q" "spaced (rq_maxBackoffMs q) t ps"
    and "\<And>s. jm_get (rq_queue q) k = Some s \<Longrightarrow> rs_nextRetryAt s \<le> t \<and> rq_maxRetries q < rs_attemptCount s + length ps"
    and "ps \<noteq> []"
  shows "jm_get (rq_queue (passes ps q)) k = None"
  using assms
proof (induction ps arbitrary: q t)
  case (Cons p ps)
  obtain now rnd where p: "p = (now, rnd)" by force
  let ?q' = "fst (processQueue now rnd q)"
  note sp = processQueue_spec [OF Cons.prems(1,2), where now = now and rnd = rnd]
  have set': "\<not> rq_suspended ?q'" "rq_maxBackoffMs ?q' = rq_maxBackoffMs q" "rq_maxRetries ?q' = rq_maxRetries q"
    using sp(1) Cons.prems(2) by (auto simp: same_settings_def)
  show ?case
  proof (cases "jm_get (rq_queue ?q') k")
    case None
    then show ?thesis using passes_None [OF sp(2) set'(1)] by (simp add: p)
  next
    case (Some s')
    then obtain s where s: "jm_get (rq_queue q) k = Some s" using sp(3) by fastforce
    note r = Cons.prems(4) [OF s]
    have t: "t \<le> now" "spaced (rq_maxBackoffMs q) (now + \<lfloor>rq_maxBackoffMs q\<rfloor>) ps"
      using Cons.prems(3) by (auto simp: p)
    obtain j where "pass_item now q (rnd j) s = Some s'" using sp(4) [OF s] Some by auto
    then have s': "rs_attemptCount s' = rs_attemptCount s + 1" "rs_attemptCount s < rq_maxRetries q"
      "rs_nextRetryAt s' \<le> now + \<lfloor>rq_maxBackoffMs q\<rfloor>"
      using r t(1) calculateBackoff_le [of q] by (auto simp: pass_item_def split: if_splits)
    have "ps \<noteq> []" using r s'(2) by auto
    have "jm_get (rq_queue (passes ps ?q')) k = None"
    proof (rule Cons.IH [OF sp(2) set'(1)])
      show "spaced (rq_maxBackoffMs ?q') (now + \<lfloor>rq_maxBackoffMs q\<rfloor>) ps" using t set' by simp
      show "rs_nextRetryAt u \<le> now + \<lfloor>rq_maxBackoffMs q\<rfloor> \<and> rq_maxRetries ?q' < rs_attemptCount u + length ps"
        if "jm_get (rq_queue ?q') k = Some u" for u
        using that Some s' r set' by auto
    qed fact
    then show ?thesis by (simp add: p)
  qed
qed simp

text \<open>
  (C9) A submission cannot stay queued forever: with passes at least the maximal backoff apart,
  whatever the random jitter, a freshly enqueued submission has left the queue after one pass more
  than the configured number of retries.
\<close>

theorem retry_queue_drains:
  assumes "rq_reachable q" "\<not> rq_suspended q" "rq_enqueue now asset price decimals timestamp lastError epoch q = (q', key)"
    and "spaced (rq_maxBackoffMs q) now ps" "rq_maxRetries q < length ps"
  shows "jm_has (rq_queue q') key \<and> jm_get (rq_queue (passes ps q')) key = None"
proof -
  from assms(1) have "queue_ok q"
    by induction (auto simp: queue_ok_step, simp add: queue_ok_def newSubmissionRetryQueue_def)
  then have wf: "jm_wf (rq_queue q)" by (auto simp: queue_ok_def dest: jm.all_stored_wf)
  have q': "rq_queue q' = jm_set (rq_queue q) key \<lparr>rs_asset = asset, rs_price = price, rs_decimals = decimals,
      rs_timestamp = timestamp, rs_attemptCount = 0, rs_lastError = lastError, rs_epoch = epoch, rs_nextRetryAt = now\<rparr>"
    "rq_maxRetries q' = rq_maxRetries q" "rq_maxBackoffMs q' = rq_maxBackoffMs q" "\<not> rq_suspended q'"
    using assms(2,3) by (auto simp: rq_enqueue_def Let_def)
  have "jm_get (rq_queue (passes ps q')) key = None"
    by (rule passes_drain [of q' now]) (use assms wf q' in auto)
  then show ?thesis by (simp add: q' jm_has_def)
qed

theorem retry_queue_drains_witness:
  "let (q, key) = rq_enqueue 5 ''XLM'' 1 7 5 None None (newSubmissionRetryQueue (Some 1) None (Some 50))
   in jm_get (rq_queue (passes [(5, \<lambda>_. 0), (60, \<lambda>_. 1 / 2)] q)) key = None"
proof -
  let ?q = "newSubmissionRetryQueue (Some 1) None (Some 50)"
  have "rq_reachable ?q" by (rule rq_reachable.init)
  moreover have "\<not> rq_suspended ?q" "rq_maxRetries ?q = 1" "rq_maxBackoffMs ?q = 50"
    by (simp_all add: newSubmissionRetryQueue_def)
  ultimately show ?thesis
    using retry_queue_drains [of ?q 5 "''XLM''" 1 7 5 None None _ _ "[(5, \<lambda>_. 0), (60, \<lambda>_. 1 / 2)]"]
    by (auto split: prod.splits)
qed

end
