(* ===== verification/Canary.thy ===== *)
theory Canary
  imports Js_Prelude
begin

text \<open>
  Canary routing and the rollback guard, \<open>services/aggregator/src/contract-publishing/canary.ts\<close>.
\<close>

definition BPS_DENOMINATOR :: int where "BPS_DENOMINATOR = 10000"

text \<open>\<open>Math.max(0, Math.min(BPS_DENOMINATOR, Math.trunc(bps) || 0))\<close>: \<open>NaN\<close> counts as 0.\<close>

definition canaryShare :: "js_num \<Rightarrow> int" where
  "canaryShare bps = max 0 (case bps of
       Fin r \<Rightarrow> min BPS_DENOMINATOR (js_trunc r)
     | NaN \<Rightarrow> min BPS_DENOMINATOR 0
     | PosInf \<Rightarrow> BPS_DENOMINATOR
     | NegInf \<Rightarrow> 0)"

definition shouldRouteToCanary :: "nat \<Rightarrow> js_num \<Rightarrow> bool" where
  "shouldRouteToCanary sequence canaryShareBps =
     (let share = canaryShare canaryShareBps
      in if share = 0 then False
         else if share \<ge> BPS_DENOMINATOR then True
         else int sequence mod BPS_DENOMINATOR < share)"

record canary_guard =
  cg_failures :: nat
  cg_successes :: nat
  cg_threshold :: int

datatype guard_error = InvalidThreshold

definition newCanaryRollbackGuard :: "js_num \<Rightarrow> guard_error + canary_guard" where
  "newCanaryRollbackGuard threshold =
     (case threshold of
        Fin r \<Rightarrow> (if \<not> jn_isInteger (Fin r) \<or> r \<le> 0 then Inl InvalidThreshold
                  else Inr \<lparr>cg_failures = 0, cg_successes = 0, cg_threshold = \<lfloor>r\<rfloor>\<rparr>)
      | _ \<Rightarrow> Inl InvalidThreshold)"

definition cg_shouldRollback :: "canary_guard \<Rightarrow> bool" where
  "cg_shouldRollback g \<longleftrightarrow> cg_threshold g \<le> int (cg_failures g)"

definition cg_recordFailure :: "canary_guard \<Rightarrow> canary_guard \<times> bool" where
  "cg_recordFailure g =
     (let g' = g\<lparr>cg_failures := cg_failures g + 1\<rparr> in (g', cg_threshold g' \<le> int (cg_failures g')))"

definition cg_recordSuccess :: "canary_guard \<Rightarrow> canary_guard" where
  "cg_recordSuccess g = g\<lparr>cg_successes := cg_successes g + 1, cg_failures := 0\<rparr>"

text \<open>A stream of submission outcomes, \<open>True\<close> for a success.\<close>

definition cg_step :: "bool \<Rightarrow> canary_guard \<Rightarrow> canary_guard" where
  "cg_step ok g = (if ok then cg_recordSuccess g else fst (cg_recordFailure g))"

lemma canaryShare_range: "0 \<le> canaryShare b \<and> canaryShare b \<le> BPS_DENOMINATOR"
  by (cases b) (auto simp: canaryShare_def BPS_DENOMINATOR_def)

lemma shouldRoute_iff: "shouldRouteToCanary k b \<longleftrightarrow> int k mod BPS_DENOMINATOR < canaryShare b"
proof -
  have "0 \<le> int k mod BPS_DENOMINATOR" "int k mod BPS_DENOMINATOR < BPS_DENOMINATOR"
    by (auto simp: BPS_DENOMINATOR_def)
  with canaryShare_range [of b] show ?thesis
    by (auto simp: shouldRouteToCanary_def Let_def)
qed

lemma card_window_mod:
  assumes "0 < m" "s \<le> m"
  shows "card {k \<in> {n..<n + m}. k mod m < s} = (s::nat)"
proof -
  have aux: "x = y" if "x \<le> y" "y < x + m" "x mod m = y mod m" for x y :: nat
  proof -
    have "m dvd y - x" using that mod_eq_dvd_iff_nat [of x y m] by simp
    with that show ?thesis using nat_dvd_not_less [of "y - x" m] by fastforce
  qed
  have inj: "inj_on (\<lambda>k. k mod m) {n..<n + m}"
  proof (rule inj_onI)
    fix x y assume "x \<in> {n..<n + m}" "y \<in> {n..<n + m}" "x mod m = y mod m"
    then show "x = y" using aux [of x y] aux [of y x] by fastforce
  qed
  have "(\<lambda>k. k mod m) ` {n..<n + m} = {0..<m}"
    by (rule card_subset_eq) (auto simp: card_image [OF inj] assms)
  moreover have "(\<lambda>k. k mod m) ` {k \<in> {n..<n + m}. k mod m < s} = (\<lambda>k. k mod m) ` {n..<n + m} \<inter> {..<s}"
    by auto
  ultimately have img: "(\<lambda>k. k mod m) ` {k \<in> {n..<n + m}. k mod m < s} = {0..<s}"
    using assms(2) by auto
  have "inj_on (\<lambda>k. k mod m) {k \<in> {n..<n + m}. k mod m < s}"
    by (rule inj_on_subset [OF inj]) auto
  from card_image [OF this] img show ?thesis by simp
qed

text \<open>
  (C4) Traffic split. In every window of 10000 consecutive submissions, wherever it starts, exactly
  the configured share in basis points (clamped to 0..10000, with a fractional part cut and \<open>NaN\<close>
  read as 0) is routed to the canary.
\<close>

theorem canary_exact_share:
  "int (card {k \<in> {n..<n + 10000}. shouldRouteToCanary k bps}) = canaryShare bps"
proof -
  let ?s = "nat (canaryShare bps)"
  have "shouldRouteToCanary k bps \<longleftrightarrow> k mod 10000 < ?s" for k
    by (simp add: shouldRoute_iff BPS_DENOMINATOR_def zless_nat_eq_int_zless zmod_int)
  moreover have "?s \<le> 10000"
    using canaryShare_range [of bps] unfolding BPS_DENOMINATOR_def by linarith
  ultimately show ?thesis
    using card_window_mod [of 10000 ?s n] canaryShare_range [of bps] by simp
qed

lemma cg_fold_threshold [simp]: "cg_threshold (fold cg_step os g) = cg_threshold g"
  by (induction os arbitrary: g) (auto simp: cg_step_def cg_recordSuccess_def cg_recordFailure_def Let_def)

lemma cg_fold_failures:
  "cg_failures (fold cg_step os g) =
     (if True \<in> set os then length (takeWhile Not (rev os)) else cg_failures g + length os)"
proof (induction os rule: rev_induct)
  case (snoc ok os)
  then show ?case
    by (auto simp: cg_step_def cg_recordSuccess_def cg_recordFailure_def Let_def takeWhile_append
        split: if_splits)
qed simp

text \<open>
  The rollback guard counts consecutive failures only: a fresh guard with threshold \<open>t\<close> asks
  for a rollback after a stream of outcomes exactly when the stream ends in at least \<open>t\<close> failures
  with no success after them. A non-integral or non-positive threshold gives no guard.
\<close>

theorem canary_rollback_iff_streak:
  "newCanaryRollbackGuard (Fin (of_int t)) = Inr g \<Longrightarrow>
     cg_shouldRollback (fold cg_step os g) \<longleftrightarrow> t \<le> int (length (takeWhile Not (rev os)))"
proof -
  assume "newCanaryRollbackGuard (Fin (of_int t)) = Inr g"
  then have g: "cg_failures g = 0" "cg_threshold g = t"
    by (auto simp: newCanaryRollbackGuard_def split: if_splits)
  have "length (takeWhile Not (rev os)) = length os" if "True \<notin> set os"
    using that takeWhile_eq_all_conv [of Not "rev os"] by (metis length_rev set_rev)
  then show ?thesis
    by (auto simp: cg_shouldRollback_def cg_fold_failures g)
qed

theorem canary_rollback_iff_streak_witness:
  "newCanaryRollbackGuard (Fin 2) = Inr \<lparr>cg_failures = 0, cg_successes = 0, cg_threshold = 2\<rparr>
   \<and> cg_shouldRollback (fold cg_step [False, True, False, False]
        \<lparr>cg_failures = 0, cg_successes = 0, cg_threshold = 2\<rparr>)
   \<and> \<not> cg_shouldRollback (fold cg_step [False, False, True, False]
        \<lparr>cg_failures = 0, cg_successes = 0, cg_threshold = 2\<rparr>)"
proof -
  have g: "newCanaryRollbackGuard (Fin (of_int 2)) = Inr \<lparr>cg_failures = 0, cg_successes = 0, cg_threshold = 2\<rparr>"
    by (simp add: newCanaryRollbackGuard_def)
  show ?thesis
    using g canary_rollback_iff_streak [OF g, of "[False, True, False, False]"]
      canary_rollback_iff_streak [OF g, of "[False, False, True, False]"]
    by simp
qed

end
