(* ===== verification/Publisher.thy ===== *)
theory Publisher
  imports Retry_Queue Canary
begin

text \<open>
  The contract publisher, \<open>services/aggregator/src/contract-publishing/publisher.ts\<close>, as far as it runs.

  The Soroban RPC server and the SDK are outside the repository: what they answer during one attempt is a
  \<open>rpc_run\<close>. A thrown value is its message and its JSON text, the two things the code looks at. The
  module \<open>fencing-epoch\<close> is missing from the repository; its stored epoch is a field. Logs and metrics are
  left out, except the counters the class keeps. Several fields the class uses are never declared or
  assigned (\<open>brownout\<close>, \<open>lastSnapshots\<close>), and \<open>discardAll\<close> is not a method of the retry queue: using
  them throws a \<open>TypeError\<close>, and the model does what the code then does.
\<close>

subsection \<open>Text tests\<close>

fun js_includes :: "string \<Rightarrow> string \<Rightarrow> bool" where
  "js_includes [] p = (p = [])"
| "js_includes (c # cs) p = (take (length p) (c # cs) = p \<or> js_includes cs p)"

text \<open>\<open>/tx_bad_seq|bad.?seq|txBadSeq/i\<close>: the middle alternative, read without case, subsumes the other two.\<close>

definition bad_seq_here :: "string \<Rightarrow> bool" where
  "bad_seq_here s \<longleftrightarrow> take 3 s = ''bad'' \<and>
     (take 3 (drop 3 s) = ''seq'' \<or> (length s > 3 \<and> s ! 3 \<noteq> CHR 0x0A \<and> s ! 3 \<noteq> CHR 0x0D \<and> take 3 (drop 4 s) = ''seq''))"

fun matches_bad_seq :: "string \<Rightarrow> bool" where
  "matches_bad_seq [] = False"
| "matches_bad_seq (c # cs) = (bad_seq_here (c # cs) \<or> matches_bad_seq cs)"

record thrown =
  th_message :: string
  th_json :: string

definition isBadSeqError :: "string \<Rightarrow> bool" where
  "isBadSeqError json = matches_bad_seq (js_toLowerCase json)"

definition plain_error :: "string \<Rightarrow> thrown" where
  "plain_error message = \<lparr>th_message = message, th_json = ''{}''\<rparr>"

definition NON_RETRYABLE_CONTRACT_ERRORS :: "string list" where
  "NON_RETRYABLE_CONTRACT_ERRORS = [''UnauthorizedSource'', ''ContractPaused'', ''PriceDeviationTooLarge'', ''InvalidPrice'',
     ''InvalidDecimals'', ''NotWhitelisted'']"

subsection \<open>State\<close>

record fee_policy =
  fp_baseInclusionFee :: int
  fp_surgeMultiplier :: rat
  fp_maxInclusionFee :: int
  fp_maxResourceFee :: int

record rpc_counts =
  rpc_getAccount :: nat
  rpc_simulate :: nat
  rpc_send :: nat
  rpc_getTransaction :: nat

record publisher =
  pb_retryQueue :: retry_queue
  pb_feePolicy :: fee_policy
  pb_publishingEnabled :: bool
  pb_cachedAccount :: "int option"
  pb_roundRpcCounts :: rpc_counts
  pb_canaryContractId :: "string option"
  pb_canaryShareBps :: js_num
  pb_submissionSequence :: nat
  pb_canaryRollbackGuard :: canary_guard
  pb_storedEpoch :: int
  pb_fencingEpoch :: int
  pb_outcomeWindow :: "(string, nat \<times> nat) js_map"

definition no_rpc :: rpc_counts where
  "no_rpc = \<lparr>rpc_getAccount = 0, rpc_simulate = 0, rpc_send = 0, rpc_getTransaction = 0\<rparr>"

definition newContractPublisher :: "fee_policy \<Rightarrow> canary_guard \<Rightarrow> int \<Rightarrow> publisher" where
  "newContractPublisher policy guard storedEpoch =
     \<lparr>pb_retryQueue = rq_start (newSubmissionRetryQueue (Some 5) (Some 1000) (Some 60000)), pb_feePolicy = policy,
      pb_publishingEnabled = True, pb_cachedAccount = None, pb_roundRpcCounts = no_rpc, pb_canaryContractId = None,
      pb_canaryShareBps = Fin 0, pb_submissionSequence = 0, pb_canaryRollbackGuard = guard, pb_storedEpoch = storedEpoch,
      pb_fencingEpoch = storedEpoch, pb_outcomeWindow = []\<rparr>"

datatype rpc_call = GetAccount | Simulate | Send | GetTransaction

fun recordRpcCall :: "rpc_call \<Rightarrow> publisher \<Rightarrow> publisher" where
  "recordRpcCall GetAccount p = p\<lparr>pb_roundRpcCounts := (pb_roundRpcCounts p)\<lparr>rpc_getAccount := rpc_getAccount (pb_roundRpcCounts p) + 1\<rparr>\<rparr>"
| "recordRpcCall Simulate p = p\<lparr>pb_roundRpcCounts := (pb_roundRpcCounts p)\<lparr>rpc_simulate := rpc_simulate (pb_roundRpcCounts p) + 1\<rparr>\<rparr>"
| "recordRpcCall Send p = p\<lparr>pb_roundRpcCounts := (pb_roundRpcCounts p)\<lparr>rpc_send := rpc_send (pb_roundRpcCounts p) + 1\<rparr>\<rparr>"
| "recordRpcCall GetTransaction p = p\<lparr>pb_roundRpcCounts := (pb_roundRpcCounts p)\<lparr>rpc_getTransaction := rpc_getTransaction (pb_roundRpcCounts p) + 1\<rparr>\<rparr>"

definition resetRoundRpcMetrics :: "publisher \<Rightarrow> publisher" where
  "resetRoundRpcMetrics p = p\<lparr>pb_roundRpcCounts := no_rpc\<rparr>"

definition recordOutcome :: "string \<Rightarrow> bool \<Rightarrow> publisher \<Rightarrow> publisher" where
  "recordOutcome fnName success p =
     (let (total, failed) = nullish (jm_get (pb_outcomeWindow p) fnName) (0, 0)
      in p\<lparr>pb_outcomeWindow := jm_set (pb_outcomeWindow p) fnName (total + 1, if success then failed else failed + 1)\<rparr>)"

definition calculateInclusionFee :: "fee_policy \<Rightarrow> int" where
  "calculateInclusionFee f =
     (let multiplier = max 1 (min (fp_surgeMultiplier f) 3);
          calculated = \<lfloor>of_int (fp_baseInclusionFee f) * multiplier\<rfloor>
      in min calculated (fp_maxInclusionFee f))"

subsection \<open>The RPC side of one attempt\<close>

datatype tx_status = SUCCESS | FAILED | NOT_FOUND

datatype poll_answer = PollStatus "tx_status option" | PollThrew

fun poll_loop :: "poll_answer list \<Rightarrow> tx_status" where
  "poll_loop [] = NOT_FOUND"
| "poll_loop (a # as) =
     (case a of
        PollStatus (Some SUCCESS) \<Rightarrow> SUCCESS
      | PollStatus (Some FAILED) \<Rightarrow> FAILED
      | _ \<Rightarrow> poll_loop as)"

definition pollForOutcome :: "nat \<Rightarrow> (nat \<Rightarrow> poll_answer) \<Rightarrow> tx_status" where
  "pollForOutcome retries answers = poll_loop (map answers [0..<retries])"

record sim_response =
  sr_error :: "string option"
  sr_fee :: "int option"

record send_response =
  sd_error :: bool
  sd_json :: string

record rpc_run =
  rr_account :: "thrown + int"
  rr_build :: "thrown option"
  rr_simulate :: "thrown + sim_response"
  rr_send :: "thrown + send_response"
  rr_resync :: "thrown + int"
  rr_poll :: "nat \<Rightarrow> poll_answer"
  rr_errorName :: "string option"
  rr_resyncAfterThrow :: "thrown + int"

record submission =
  sm_asset :: string
  sm_price :: int
  sm_decimals :: int
  sm_timestamp :: int
  sm_epoch :: "int option"

datatype attempt = Returned "string option" | Resubmit

subsection \<open>Submission\<close>

definition admitEpoch :: "int option \<Rightarrow> publisher \<Rightarrow> bool" where
  "admitEpoch epoch p \<longleftrightarrow> nullish epoch (pb_fencingEpoch p) = pb_fencingEpoch p"

definition pb_getAccount :: "bool \<Rightarrow> thrown + int \<Rightarrow> publisher \<Rightarrow> publisher \<times> (thrown + int)" where
  "pb_getAccount forceRefresh answer p =
     (case (forceRefresh, pb_cachedAccount p) of
        (False, Some a) \<Rightarrow> (p, Inr a)
      | _ \<Rightarrow>
          let p' = recordRpcCall GetAccount p
          in case answer of Inl e \<Rightarrow> (p', Inl e) | Inr a \<Rightarrow> (p'\<lparr>pb_cachedAccount := Some a\<rparr>, Inr a))"

definition enqueue_retry :: "int \<Rightarrow> submission \<Rightarrow> publisher \<Rightarrow> publisher" where
  "enqueue_retry now s p = p\<lparr>pb_retryQueue := fst (rq_enqueue now (sm_asset s) (sm_price s) (sm_decimals s) (sm_timestamp s) None
     (Some (pb_fencingEpoch p)) (pb_retryQueue p))\<rparr>"

text \<open>The handler of the outer \<open>catch\<close>.\<close>

definition non_retryable_message :: "string \<Rightarrow> bool" where
  "non_retryable_message m \<longleftrightarrow> js_includes m ''InvalidDecimals'' \<or> js_includes m ''Error(Contract, #5)''
     \<or> js_includes m ''ContractPaused'' \<or> js_includes m ''Error(Contract, #33)''"

definition give_up :: "int \<Rightarrow> submission \<Rightarrow> thrown \<Rightarrow> publisher \<Rightarrow> publisher \<times> attempt" where
  "give_up now s err p = (if non_retryable_message (th_message err) then p else enqueue_retry now s p, Returned None)"

definition catch_submission ::
  "int \<Rightarrow> bool \<Rightarrow> submission \<Rightarrow> rpc_run \<Rightarrow> thrown \<Rightarrow> publisher \<Rightarrow> publisher \<times> attempt" where
  "catch_submission now isRetry s run err p =
     (if \<not> isRetry \<and> isBadSeqError (th_json err)
      then (case pb_getAccount True (rr_resyncAfterThrow run) p of
              (p', Inr _) \<Rightarrow> (p', Resubmit)
            | (p', Inl _) \<Rightarrow> give_up now s err p')
      else give_up now s err p)"

text \<open>
  What follows the polling. After a confirmed transaction, \<open>buildPriceEvidence\<close> reads the undeclared
  \<open>lastSnapshots\<close> and throws inside the \<open>try\<close>.
\<close>

definition lastSnapshots_error :: thrown where
  "lastSnapshots_error = plain_error ''Cannot read properties of undefined (reading 'get')''"

definition finish_submission ::
  "int \<Rightarrow> bool \<Rightarrow> submission \<Rightarrow> rpc_run \<Rightarrow> tx_status \<Rightarrow> publisher \<Rightarrow> publisher \<times> attempt" where
  "finish_submission now isRetry s run status p =
     (if status = SUCCESS
      then catch_submission now isRetry s run lastSnapshots_error
             (recordRpcCall GetTransaction (recordOutcome ''submit_price'' True p))
      else let p' = recordOutcome ''submit_price'' False p;
               contractErrorName = (if status = FAILED then rr_errorName run else None)
           in case contractErrorName of
               Some e \<Rightarrow> if e \<in> set NON_RETRYABLE_CONTRACT_ERRORS then (p', Returned None) else (enqueue_retry now s p', Returned None)
             | None \<Rightarrow> (enqueue_retry now s p', Returned None))"

definition send_submission ::
  "int \<Rightarrow> nat \<Rightarrow> bool \<Rightarrow> submission \<Rightarrow> rpc_run \<Rightarrow> publisher \<Rightarrow> publisher \<times> attempt" where
  "send_submission now polls isRetry s run p0 =
     (let p = recordRpcCall Send p0
      in case rr_send run of
          Inl e \<Rightarrow> catch_submission now isRetry s run e p
        | Inr r \<Rightarrow>
            if sd_error r \<and> isBadSeqError (sd_json r) \<and> \<not> isRetry
            then (case pb_getAccount True (rr_resync run) p of
                    (p', Inl e) \<Rightarrow> catch_submission now isRetry s run e p'
                  | (p', Inr _) \<Rightarrow> (p', Resubmit))
            else finish_submission now isRetry s run (pollForOutcome polls (rr_poll run)) p)"

definition simulate_submission ::
  "int \<Rightarrow> nat \<Rightarrow> bool \<Rightarrow> submission \<Rightarrow> rpc_run \<Rightarrow> publisher \<Rightarrow> publisher \<times> attempt" where
  "simulate_submission now polls isRetry s run p0 =
     (let p = recordRpcCall Simulate p0
      in case rr_simulate run of
          Inl e \<Rightarrow> catch_submission now isRetry s run e p
        | Inr r \<Rightarrow>
            if sr_error r \<noteq> None then (p, Returned None)
            else if (case sr_fee r of None \<Rightarrow> False | Some fee \<Rightarrow> fee > fp_maxResourceFee (pb_feePolicy p)) then (p, Returned None)
            else send_submission now polls isRetry s run p)"

definition submit_attempt ::
  "int \<Rightarrow> nat \<Rightarrow> bool \<Rightarrow> submission \<Rightarrow> rpc_run \<Rightarrow> publisher \<Rightarrow> publisher \<times> attempt" where
  "submit_attempt now polls isRetry s run p =
     (if \<not> admitEpoch (sm_epoch s) p then (p, Returned None)
      else case pb_getAccount False (rr_account run) p of
          (p', Inl e) \<Rightarrow> catch_submission now isRetry s run e p'
        | (p', Inr _) \<Rightarrow>
            (case rr_build run of
               Some e \<Rightarrow> catch_submission now isRetry s run e p'
             | None \<Rightarrow> simulate_submission now polls isRetry s run p'))"

definition submitPriceTo ::
  "int \<Rightarrow> nat \<Rightarrow> submission \<Rightarrow> rpc_run \<Rightarrow> rpc_run \<Rightarrow> publisher \<Rightarrow> publisher \<times> string option" where
  "submitPriceTo now polls s run again p =
     (case submit_attempt now polls False s run p of
        (p', Returned r) \<Rightarrow> (p', r)
      | (p', Resubmit) \<Rightarrow>
          (case submit_attempt now polls True s again p' of
             (p'', Returned r) \<Rightarrow> (p'', r)
           | (p'', Resubmit) \<Rightarrow> (p'', None)))"

subsection \<open>Fencing, suspension and draining\<close>

definition advanceFencingEpoch :: "publisher \<Rightarrow> publisher \<times> (thrown + int)" where
  "advanceFencingEpoch p =
     (let next' = pb_fencingEpoch p + 1; p' = p\<lparr>pb_storedEpoch := next', pb_fencingEpoch := next'\<rparr>
      in if rq_queue (pb_retryQueue p') \<noteq> [] then (p', Inl (plain_error ''this.retryQueue.discardAll is not a function''))
         else (p', Inr next'))"

definition setPublishingEnabled :: "bool \<Rightarrow> publisher \<Rightarrow> publisher" where
  "setPublishingEnabled enabled p =
     (if pb_publishingEnabled p = enabled then p
      else p\<lparr>pb_publishingEnabled := enabled, pb_retryQueue := rq_setSuspended (\<not> enabled) (pb_retryQueue p)\<rparr>)"

definition publishAggregated :: "publisher \<Rightarrow> publisher \<times> (thrown + unit)" where
  "publishAggregated p =
     (if \<not> pb_publishingEnabled p then (p, Inr ())
      else (resetRoundRpcMetrics p, Inl (plain_error ''Cannot read properties of undefined (reading 'isAllowed')'')))"

definition processRetryQueue :: "publisher \<Rightarrow> thrown + unit" where
  "processRetryQueue p =
     (if \<not> pb_publishingEnabled p then Inr ()
      else Inl (plain_error ''Cannot read properties of undefined (reading 'isAllowed')''))"

definition item_submission :: "retryable_submission \<Rightarrow> submission" where
  "item_submission item = \<lparr>sm_asset = rs_asset item, sm_price = rs_price item, sm_decimals = rs_decimals item,
     sm_timestamp = rs_timestamp item, sm_epoch = rs_epoch item\<rparr>"

fun drain_items ::
  "int \<Rightarrow> nat \<Rightarrow> (nat \<Rightarrow> rpc_run \<times> rpc_run) \<Rightarrow> nat \<Rightarrow> retryable_submission list \<Rightarrow> publisher \<Rightarrow> publisher" where
  "drain_items now polls runs i [] p = p"
| "drain_items now polls runs i (item # items) p =
     (if \<not> pb_publishingEnabled p then p
      else let (p', r) = submitPriceTo now polls (item_submission item) (fst (runs i)) (snd (runs i)) p;
               p'' = (if r = None then p'
                      else p'\<lparr>pb_retryQueue := fst (rq_remove (submission_key (rs_asset item) (rs_timestamp item)) (pb_retryQueue p'))\<rparr>)
           in drain_items now polls runs (Suc i) items p'')"

definition drainRetryQueue :: "int \<Rightarrow> nat \<Rightarrow> (nat \<Rightarrow> rpc_run \<times> rpc_run) \<Rightarrow> publisher \<Rightarrow> publisher" where
  "drainRetryQueue now polls runs p = drain_items now polls runs 0 (rq_getQueueItems (pb_retryQueue p)) p"

definition pb_shutdown :: "int \<Rightarrow> nat \<Rightarrow> (nat \<Rightarrow> rpc_run \<times> rpc_run) \<Rightarrow> publisher \<Rightarrow> publisher" where
  "pb_shutdown now polls runs p = drainRetryQueue now polls runs (p\<lparr>pb_retryQueue := rq_stop (pb_retryQueue p)\<rparr>)"

subsection \<open>What a submission leaves alone\<close>

lemmas submission_defs = submit_attempt_def simulate_submission_def send_submission_def finish_submission_def
  catch_submission_def give_up_def

declare recordRpcCall.simps [simp del]

text \<open>The fields a submission does not change, and the one it may: the retry queue gains the submission itself.\<close>

definition requeued :: "int \<Rightarrow> submission \<Rightarrow> publisher \<Rightarrow> publisher \<Rightarrow> bool" where
  "requeued now s p p' \<longleftrightarrow> pb_fencingEpoch p' = pb_fencingEpoch p \<and> pb_storedEpoch p' = pb_storedEpoch p
     \<and> pb_publishingEnabled p' = pb_publishingEnabled p
     \<and> (pb_retryQueue p' = pb_retryQueue p \<or> pb_retryQueue p' = pb_retryQueue (enqueue_retry now s p))"

definition untouched :: "publisher \<Rightarrow> publisher \<Rightarrow> bool" where
  "untouched p p' \<longleftrightarrow> pb_fencingEpoch p' = pb_fencingEpoch p \<and> pb_storedEpoch p' = pb_storedEpoch p
     \<and> pb_publishingEnabled p' = pb_publishingEnabled p \<and> pb_retryQueue p' = pb_retryQueue p"

lemma untouched_refl [simp]: "untouched p p"
  by (simp add: untouched_def)

lemma untouched_rpc: "untouched p (recordRpcCall c q) \<longleftrightarrow> untouched p q"
  by (cases c) (simp_all add: untouched_def recordRpcCall.simps)

lemma untouched_outcome: "untouched p (recordOutcome f b q) \<longleftrightarrow> untouched p q"
  by (simp add: untouched_def recordOutcome_def split: prod.split)

lemma untouched_account: "untouched p q \<Longrightarrow> pb_getAccount b a q = (q', r) \<Longrightarrow> untouched p q'"
  by (auto simp: pb_getAccount_def Let_def untouched_def recordRpcCall.simps split: prod.splits option.splits bool.splits sum.splits)

text \<open>How an attempt ends: it returns nothing and may have queued the submission, or it asks to be resubmitted.\<close>

definition ends_well :: "int \<Rightarrow> bool \<Rightarrow> submission \<Rightarrow> publisher \<Rightarrow> publisher \<times> attempt \<Rightarrow> bool" where
  "ends_well now isRetry s p res \<longleftrightarrow> requeued now s p (fst res)
     \<and> (snd res = Returned None \<or> snd res = Resubmit \<and> \<not> isRetry \<and> untouched p (fst res))"

lemma ends_well_none: "untouched p q \<Longrightarrow> ends_well now isRetry s p (q, Returned None)"
  by (simp add: ends_well_def untouched_def requeued_def)

lemma ends_well_queue: "untouched p q \<Longrightarrow> ends_well now isRetry s p (enqueue_retry now s q, Returned None)"
  by (simp add: ends_well_def untouched_def requeued_def enqueue_retry_def)

lemma ends_well_resubmit: "untouched p q \<Longrightarrow> \<not> isRetry \<Longrightarrow> ends_well now isRetry s p (q, Resubmit)"
  by (simp add: ends_well_def untouched_def requeued_def)

lemma ends_well_catch:
  assumes "untouched p q"
  shows "ends_well now isRetry s p (catch_submission now isRetry s run e q)"
proof -
  obtain q' r where "pb_getAccount True (rr_resyncAfterThrow run) q = (q', r)" by fastforce
  moreover from this have "untouched p q'" using untouched_account assms by blast
  ultimately show ?thesis
    using assms by (simp add: catch_submission_def give_up_def ends_well_none ends_well_queue ends_well_resubmit split: sum.split)
qed

lemma ends_well_finish:
  assumes "untouched p q"
  shows "ends_well now isRetry s p (finish_submission now isRetry s run st q)"
  using assms
  by (simp add: finish_submission_def Let_def untouched_rpc untouched_outcome ends_well_none ends_well_queue ends_well_catch
      split: option.split)

lemma ends_well_send:
  assumes "untouched p q"
  shows "ends_well now isRetry s p (send_submission now polls isRetry s run q)"
proof -
  have q: "untouched p (recordRpcCall Send q)" using assms by (simp add: untouched_rpc)
  obtain q' r where "pb_getAccount True (rr_resync run) (recordRpcCall Send q) = (q', r)" by fastforce
  moreover from this have "untouched p q'" using untouched_account q by blast
  ultimately show ?thesis
    using q by (simp add: send_submission_def Let_def ends_well_resubmit ends_well_catch ends_well_finish split: sum.split)
qed

lemma ends_well_simulate:
  assumes "untouched p q"
  shows "ends_well now isRetry s p (simulate_submission now polls isRetry s run q)"
  using assms
  by (simp add: simulate_submission_def Let_def untouched_rpc ends_well_none ends_well_catch ends_well_send
      split: sum.split option.split)

lemma ends_well_attempt: "ends_well now isRetry s p (submit_attempt now polls isRetry s run p)"
proof -
  obtain q r where q: "pb_getAccount False (rr_account run) p = (q, r)" by fastforce
  then have "untouched p q" using untouched_account untouched_refl by blast
  with q show ?thesis
    by (simp add: submit_attempt_def ends_well_none ends_well_catch ends_well_simulate split: sum.split option.split)
qed

lemma submitPriceTo_requeues:
  assumes "submitPriceTo now polls s run again p = (p', r)"
  shows "r = None" "requeued now s p p'"
proof -
  obtain q out where q: "submit_attempt now polls False s run p = (q, out)" by fastforce
  obtain q' out' where q': "submit_attempt now polls True s again q = (q', out')" by fastforce
  have e: "ends_well now False s p (q, out)" "ends_well now True s q (q', out')"
    using ends_well_attempt q q' by metis+
  have trans: "requeued now s p q'" if "untouched p q" "requeued now s q q'"
    using that by (auto simp: untouched_def requeued_def enqueue_retry_def)
  show "r = None" "requeued now s p p'"
    using assms q q' e trans by (auto simp: submitPriceTo_def ends_well_def split: attempt.splits)
qed

subsection \<open>Confirmed submissions\<close>

text \<open>The run of an attempt whose transaction is confirmed.\<close>

definition confirmed_run :: "nat \<Rightarrow> publisher \<Rightarrow> rpc_run \<Rightarrow> bool" where
  "confirmed_run polls p run \<longleftrightarrow> (\<exists>a sim send. rr_account run = Inr a \<and> rr_build run = None
     \<and> rr_simulate run = Inr sim \<and> sr_error sim = None
     \<and> (\<forall>fee. sr_fee sim = Some fee \<longrightarrow> fee \<le> fp_maxResourceFee (pb_feePolicy p))
     \<and> rr_send run = Inr send \<and> \<not> sd_error send \<and> pollForOutcome polls (rr_poll run) = SUCCESS)"

lemma pb_feePolicy_keeps [simp]: "pb_feePolicy (recordRpcCall c p) = pb_feePolicy p"
  by (cases c) (simp_all add: recordRpcCall.simps)

lemma lastSnapshots_error_facts:
  "\<not> isBadSeqError (th_json lastSnapshots_error)" "\<not> non_retryable_message (th_message lastSnapshots_error)"
  by code_simp+

text \<open>
  (C24) A submission whose transaction the ledger confirms is reported as failed and queued for another
  attempt: no submission ever returns a transaction hash.
\<close>

theorem confirmed_submission_requeued:
  assumes "admitEpoch (sm_epoch s) p" "confirmed_run polls p run" "\<not> rq_suspended (pb_retryQueue p)"
  shows "\<exists>p' item. submitPriceTo now polls s run again p = (p', None)
    \<and> rq_getItem (submission_key (sm_asset s) (sm_timestamp s)) (pb_retryQueue p') = Some item
    \<and> rs_price item = sm_price s \<and> rs_attemptCount item = 0 \<and> rs_epoch item = Some (pb_fencingEpoch p)"
proof -
  from assms(2) obtain a sim send where run: "rr_account run = Inr a" "rr_build run = None"
    "rr_simulate run = Inr sim" "sr_error sim = None" "\<forall>fee. sr_fee sim = Some fee \<longrightarrow> fee \<le> fp_maxResourceFee (pb_feePolicy p)"
    "rr_send run = Inr send" "\<not> sd_error send" "pollForOutcome polls (rr_poll run) = SUCCESS"
    by (auto simp: confirmed_run_def)
  obtain q x where q: "pb_getAccount False (rr_account run) p = (q, Inr x)" "untouched p q" "pb_feePolicy q = pb_feePolicy p"
  proof -
    obtain q r where q: "pb_getAccount False (rr_account run) p = (q, r)" by fastforce
    moreover from q have "untouched p q" using untouched_account untouched_refl by blast
    moreover have "r \<noteq> Inl e" for e using q run(1) by (auto simp: pb_getAccount_def Let_def split: option.splits)
    moreover have "pb_feePolicy q = pb_feePolicy p" using q run(1) by (auto simp: pb_getAccount_def Let_def split: option.splits)
    ultimately show thesis using that by (cases r) auto
  qed
  define q' where "q' = recordRpcCall GetTransaction (recordOutcome ''submit_price'' True (recordRpcCall Send (recordRpcCall Simulate q)))"
  have u: "untouched p q'" unfolding q'_def using q(2) by (simp add: untouched_rpc untouched_outcome)
  have "submit_attempt now polls False s run p = (enqueue_retry now s q', Returned None)"
    using assms(1) run q lastSnapshots_error_facts
    by (auto simp: submission_defs Let_def q'_def split: option.split)
  then have "submitPriceTo now polls s run again p = (enqueue_retry now s q', None)"
    by (simp add: submitPriceTo_def)
  then show ?thesis
    using assms(3) u by (auto simp: untouched_def enqueue_retry_def rq_enqueue_def Let_def rq_getItem_def)
qed

abbreviation sample_rpc_run :: rpc_run where
  "sample_rpc_run \<equiv> \<lparr>rr_account = Inr 7, rr_build = None, rr_simulate = Inr \<lparr>sr_error = None, sr_fee = Some 100\<rparr>,
     rr_send = Inr \<lparr>sd_error = False, sd_json = ''{}''\<rparr>, rr_resync = Inr 7,
     rr_poll = (\<lambda>i. if i = 0 then PollThrew else PollStatus (Some SUCCESS)), rr_errorName = None, rr_resyncAfterThrow = Inr 7\<rparr>"

abbreviation sample_publisher :: publisher where
  "sample_publisher \<equiv> newContractPublisher \<lparr>fp_baseInclusionFee = 100, fp_surgeMultiplier = 2, fp_maxInclusionFee = 500,
     fp_maxResourceFee = 1000\<rparr> \<lparr>cg_failures = 0, cg_successes = 0, cg_threshold = 3\<rparr> 4"

abbreviation sample_submission :: submission where
  "sample_submission \<equiv> \<lparr>sm_asset = ''XLM'', sm_price = 12, sm_decimals = 7, sm_timestamp = 50, sm_epoch = None\<rparr>"

theorem confirmed_submission_requeued_witness:
  "\<exists>p' item. submitPriceTo 9 3 sample_submission sample_rpc_run sample_rpc_run sample_publisher = (p', None)
    \<and> rq_getItem ''XLM:50'' (pb_retryQueue p') = Some item \<and> rs_price item = 12"
proof -
  have "admitEpoch None sample_publisher" "\<not> rq_suspended (pb_retryQueue sample_publisher)" "submission_key ''XLM'' 50 = ''XLM:50''"
    by code_simp+
  moreover have "confirmed_run 3 sample_publisher sample_rpc_run"
    by (simp add: confirmed_run_def newContractPublisher_def pollForOutcome_def numeral_3_eq_3)
  ultimately show ?thesis
    using confirmed_submission_requeued [of sample_submission sample_publisher 3 sample_rpc_run 9 sample_rpc_run] by auto
qed

subsection \<open>Fencing\<close>

datatype publisher_op =
    Submit int nat submission rpc_run rpc_run
  | AdvanceEpoch
  | SetPublishing bool
  | PublishRound
  | RetryPass int "nat \<Rightarrow> rat"
  | Drain int nat "nat \<Rightarrow> rpc_run \<times> rpc_run"

fun publisher_step :: "publisher_op \<Rightarrow> publisher \<Rightarrow> publisher" where
  "publisher_step (Submit now polls s run again) p = fst (submitPriceTo now polls s run again p)"
| "publisher_step AdvanceEpoch p = fst (advanceFencingEpoch p)"
| "publisher_step (SetPublishing b) p = setPublishingEnabled b p"
| "publisher_step PublishRound p = fst (publishAggregated p)"
| "publisher_step (RetryPass now rnd) p = p\<lparr>pb_retryQueue := fst (processQueue now rnd (pb_retryQueue p))\<rparr>"
| "publisher_step (Drain now polls runs) p = drainRetryQueue now polls runs p"

inductive publisher_reachable :: "publisher \<Rightarrow> bool" where
  init: "publisher_reachable (newContractPublisher policy guard e)"
| step: "publisher_reachable p \<Longrightarrow> publisher_reachable (publisher_step op p)"

text \<open>Every queued submission carries an epoch no later than the publisher's.\<close>

definition epoch_upto :: "int \<Rightarrow> string \<Rightarrow> retryable_submission \<Rightarrow> bool" where
  "epoch_upto n k s \<longleftrightarrow> (\<exists>e. rs_epoch s = Some e \<and> e \<le> n)"

definition epochs_ok :: "publisher \<Rightarrow> bool" where
  "epochs_ok p \<longleftrightarrow> jm.all_stored (epoch_upto (pb_fencingEpoch p)) (rq_queue (pb_retryQueue p))"

lemma processItems_epochs:
  "jm.all_stored (epoch_upto n) (rq_queue q) \<Longrightarrow> \<forall>(k, s) \<in> set items. epoch_upto n k s
    \<Longrightarrow> jm.all_stored (epoch_upto n) (rq_queue (fst (processItems now rnd i items q)))"
proof (induction items arbitrary: i q)
  case (Cons it items)
  obtain k s where it: "it = (k, s)" by force
  have "epoch_upto n k (s\<lparr>rs_attemptCount := a, rs_nextRetryAt := b\<rparr>)" for a b
    using Cons.prems(2) it by (simp add: epoch_upto_def)
  then have "jm.all_stored (epoch_upto n) (rq_queue (fst (processItem now (rnd i) k s q)))"
    using Cons.prems(1)
    by (simp add: processItem_def Let_def jm.all_stored_put jm.all_stored_del)
  with Cons it show ?case by (auto simp: case_prod_unfold Let_def)
qed simp

lemma epochs_ok_pass:
  assumes "epochs_ok p"
  shows "epochs_ok (p\<lparr>pb_retryQueue := fst (processQueue now rnd (pb_retryQueue p))\<rparr>)"
proof -
  let ?q = "pb_retryQueue p"
  have "\<forall>(k, s) \<in> set (readyItems now ?q). epoch_upto (pb_fencingEpoch p) k s"
    using assms jm_all_stored_values [of "epoch_upto (pb_fencingEpoch p)" "rq_queue ?q"]
    by (auto simp: epochs_ok_def readyItems_def)
  from processItems_epochs [OF _ this] assms have "jm.all_stored (epoch_upto (pb_fencingEpoch p))
      (rq_queue (fst (processItems now rnd 0 (readyItems now ?q) ?q)))"
    by (simp add: epochs_ok_def)
  with assms show ?thesis
    by (simp add: epochs_ok_def processQueue_def case_prod_unfold Let_def updateMetrics_def)
qed

lemma epochs_ok_enqueue: "epochs_ok p \<Longrightarrow> epochs_ok (enqueue_retry now s p)"
  by (auto simp: epochs_ok_def enqueue_retry_def rq_enqueue_def Let_def epoch_upto_def intro!: jm.all_stored_put)

lemma epochs_ok_requeued: "epochs_ok p \<Longrightarrow> requeued now s p p' \<Longrightarrow> epochs_ok p'"
  using epochs_ok_enqueue [of p now s] by (auto simp: requeued_def epochs_ok_def enqueue_retry_def)

lemma epochs_ok_submit: "epochs_ok p \<Longrightarrow> epochs_ok (fst (submitPriceTo now polls s run again p))"
  using submitPriceTo_requeues(2) [of now polls s run again p] epochs_ok_requeued
  by (cases "submitPriceTo now polls s run again p") auto

lemma epochs_ok_drain_items: "epochs_ok p \<Longrightarrow> epochs_ok (drain_items now polls runs i items p)"
proof (induction items arbitrary: i p)
  case (Cons item items)
  obtain p' r where s: "submitPriceTo now polls (item_submission item) (fst (runs i)) (snd (runs i)) p = (p', r)" by fastforce
  then have "epochs_ok p'" "r = None"
    using epochs_ok_submit [OF Cons.prems] submitPriceTo_requeues(1) [OF s] by (metis fst_conv)+
  with Cons s show ?case by simp
qed simp

lemma epochs_ok_step: "epochs_ok p \<Longrightarrow> epochs_ok (publisher_step op p)"
proof (cases op)
  case AdvanceEpoch
  have "jm.all_stored (epoch_upto (pb_fencingEpoch p + 1)) (rq_queue (pb_retryQueue p))" if "epochs_ok p"
    by (rule jm.all_stored_mono [where P = "epoch_upto (pb_fencingEpoch p)"])
      (use that in \<open>auto simp: epochs_ok_def epoch_upto_def\<close>)
  then show "epochs_ok p \<Longrightarrow> epochs_ok (publisher_step op p)"
    using AdvanceEpoch by (simp add: advanceFencingEpoch_def Let_def epochs_ok_def)
next
  case (SetPublishing b)
  then show "epochs_ok p \<Longrightarrow> epochs_ok (publisher_step op p)"
    by (simp add: setPublishingEnabled_def rq_setSuspended_def rq_clear_def rq_stop_def rq_start_def Let_def epochs_ok_def)
next
  case PublishRound
  then show "epochs_ok p \<Longrightarrow> epochs_ok (publisher_step op p)"
    by (simp add: publishAggregated_def resetRoundRpcMetrics_def epochs_ok_def)
qed (simp_all add: epochs_ok_submit epochs_ok_pass drainRetryQueue_def epochs_ok_drain_items)

lemma stale_submission_refused:
  "sm_epoch s = Some e \<Longrightarrow> e \<noteq> pb_fencingEpoch p \<Longrightarrow> submitPriceTo now polls s run again p = (p, None)"
  by (simp add: submitPriceTo_def submit_attempt_def admitEpoch_def)

lemma stale_items_refused:
  "\<forall>item \<in> set items. \<exists>e. rs_epoch item = Some e \<and> e < pb_fencingEpoch p \<Longrightarrow> drain_items now polls runs i items p = p"
proof (induction items arbitrary: i)
  case (Cons item items)
  then obtain e where "rs_epoch item = Some e" "e < pb_fencingEpoch p" by auto
  then have "submitPriceTo now polls (item_submission item) (fst (runs i)) (snd (runs i)) p = (p, None)"
    using stale_submission_refused [of "item_submission item" e p] by (simp add: item_submission_def)
  with Cons show ?case by simp
qed simp



text \<open>
  A submission still under way when the epoch advances escapes the fence: if it then fails, it is queued
  under the new epoch. The advance itself throws when the queue is not empty, after the new epoch is in force.
\<close>

lemma inflight_submission_escapes_fence:
  assumes "\<not> rq_suspended (pb_retryQueue p)"
  shows "\<exists>item. rq_getItem (submission_key (sm_asset s) (sm_timestamp s))
      (pb_retryQueue (fst (finish_submission now isRetry s run NOT_FOUND (fst (advanceFencingEpoch p))))) = Some item
    \<and> rs_epoch item = Some (pb_fencingEpoch p + 1)"
  using assms
  by (simp add: finish_submission_def enqueue_retry_def rq_enqueue_def rq_getItem_def advanceFencingEpoch_def recordOutcome_def
      Let_def case_prod_unfold)

lemma advance_throws_with_queue:
  "rq_queue (pb_retryQueue p) \<noteq> [] \<Longrightarrow> \<exists>e. snd (advanceFencingEpoch p) = Inl e \<and> pb_fencingEpoch (fst (advanceFencingEpoch p)) = pb_fencingEpoch p + 1"
  by (simp add: advanceFencingEpoch_def Let_def)

text \<open>The exception text is not looked at, only the JSON of the thrown value, so an \<open>Error\<close> never counts as a bad sequence.\<close>

lemma bad_sequence_error_not_recognised: "\<not> isBadSeqError (th_json (plain_error ''tx_bad_seq''))"
  by code_simp

lemma inclusion_fee_bounds:
  assumes "0 \<le> fp_baseInclusionFee f" "fp_baseInclusionFee f \<le> fp_maxInclusionFee f"
  shows "fp_baseInclusionFee f \<le> calculateInclusionFee f" "calculateInclusionFee f \<le> fp_maxInclusionFee f"
    "calculateInclusionFee f \<le> 3 * fp_baseInclusionFee f"
proof -
  define m where "m = max 1 (min (fp_surgeMultiplier f) 3)"
  have m: "1 \<le> m" "m \<le> 3" by (simp_all add: m_def)
  have "rat_of_int (fp_baseInclusionFee f) * 1 \<le> of_int (fp_baseInclusionFee f) * m"
    using assms(1) m(1) by (intro mult_left_mono) simp_all
  moreover have "of_int (fp_baseInclusionFee f) * m \<le> rat_of_int (fp_baseInclusionFee f) * 3"
    using assms(1) m(2) by (intro mult_left_mono) simp_all
  ultimately have "fp_baseInclusionFee f \<le> \<lfloor>of_int (fp_baseInclusionFee f) * m\<rfloor>"
    "\<lfloor>of_int (fp_baseInclusionFee f) * m\<rfloor> \<le> 3 * fp_baseInclusionFee f"
    by (simp_all add: le_floor_iff floor_le_iff)
  with assms(2) show "fp_baseInclusionFee f \<le> calculateInclusionFee f" "calculateInclusionFee f \<le> fp_maxInclusionFee f"
    "calculateInclusionFee f \<le> 3 * fp_baseInclusionFee f"
    by (simp_all add: calculateInclusionFee_def Let_def m_def)
qed

end
