(* ===== verification/Catalog_Policy.thy ===== *)
theory Catalog_Policy
  imports Coi_Register
begin

text \<open>
  The feed catalog policy, first half of \<open>api/src/governance/catalog-policy.ts\<close> with the constants of
  \<open>packages/types/src/feed-metadata.ts\<close>: normalisation, guard rails, differences between versions and
  the on-chain plan of a change.

  Numbers are rationals, since they come from JSON. The collation of \<open>localeCompare\<close> and the SHA-256 digest
  of the canonical JSON text are arguments. Values have the types the source declares: a freshness profile is one of
  the three names, a quote unit has all its fields, and a version is a natural number. Two feeds are compared by their canonical JSON text in the
  code and by equality here; the text of a finding is left out, its code is kept.
\<close>

subsection \<open>feed-metadata.ts\<close>

datatype freshness_profile = Realtime | Standard | Delayed

fun FRESHNESS_PROFILES :: "freshness_profile \<Rightarrow> int \<times> int" where
  "FRESHNESS_PROFILES Realtime = (10, 30)"
| "FRESHNESS_PROFILES Standard = (60, 120)"
| "FRESHNESS_PROFILES Delayed = (300, 600)"

definition QUOTE_CURRENCIES :: "string list" where
  "QUOTE_CURRENCIES = [''USD'', ''EUR'', ''GBP'', ''JPY'', ''CHF'', ''CAD'', ''AUD'']"

record quote_unit =
  qu_currency :: string
  qu_denomination :: string
  qu_scaleDecimals :: rat
  qu_displayDecimals :: rat
  qu_rounding :: string

definition DEFAULT_QUOTE_UNIT :: quote_unit where
  "DEFAULT_QUOTE_UNIT = \<lparr>qu_currency = ''USD'', qu_denomination = ''USD_PER_ASSET_UNIT'', qu_scaleDecimals = 8,
     qu_displayDecimals = 4, qu_rounding = ''half-even''\<rparr>"

definition isInteger :: "rat \<Rightarrow> bool" where
  "isInteger q \<longleftrightarrow> of_int \<lfloor>q\<rfloor> = q"

datatype quote_error = CurrencyUnsupported | DenominationMismatch | ScaleOutOfRange | DisplayOutOfRange | RoundingUnsupported

definition validateQuoteUnit :: "quote_unit \<Rightarrow> quote_error list" where
  "validateQuoteUnit u =
     (if qu_currency u \<notin> set QUOTE_CURRENCIES then [CurrencyUnsupported] else [])
     @ (if qu_denomination u \<noteq> qu_currency u @ ''_PER_ASSET_UNIT'' then [DenominationMismatch] else [])
     @ (if \<not> isInteger (qu_scaleDecimals u) \<or> qu_scaleDecimals u < 0 \<or> qu_scaleDecimals u > 18 then [ScaleOutOfRange] else [])
     @ (if \<not> isInteger (qu_displayDecimals u) \<or> qu_displayDecimals u < 0 \<or> qu_displayDecimals u > 12
           \<or> qu_displayDecimals u > qu_scaleDecimals u then [DisplayOutOfRange] else [])
     @ (if qu_rounding u \<notin> {''half-up'', ''half-even'', ''down''} then [RoundingUnsupported] else [])"

definition FEED_FRESHNESS_ASSIGNMENTS :: "(string \<times> freshness_profile) list" where
  "FEED_FRESHNESS_ASSIGNMENTS = [(''XLM'', Standard), (''USDC'', Standard), (''BTC'', Standard), (''ETH'', Standard), (''USDT'', Standard)]"

definition freshnessThresholdSeconds :: "string \<Rightarrow> rat \<Rightarrow> rat" where
  "freshnessThresholdSeconds asset fallback =
     (case map_of FEED_FRESHNESS_ASSIGNMENTS (js_toUpperCase (js_trim asset)) of
        None \<Rightarrow> fallback | Some p \<Rightarrow> of_int (snd (FRESHNESS_PROFILES p)))"

definition freshnessWarningSeconds :: "string \<Rightarrow> rat \<Rightarrow> rat" where
  "freshnessWarningSeconds asset fallback =
     (case map_of FEED_FRESHNESS_ASSIGNMENTS (js_toUpperCase (js_trim asset)) of
        None \<Rightarrow> fallback | Some p \<Rightarrow> of_int (fst (FRESHNESS_PROFILES p)))"

definition isFeedStale :: "string \<Rightarrow> rat \<Rightarrow> rat \<Rightarrow> bool" where
  "isFeedStale asset age fallback \<longleftrightarrow> age > freshnessThresholdSeconds asset fallback"

subsection \<open>Policies and changes\<close>

definition CATALOG_SOURCES :: "string list" where
  "CATALOG_SOURCES = [''chainlink'', ''redstone'', ''band'', ''reflector'']"

record feed_policy =
  cf_asset :: string
  cf_sources :: "string list"
  cf_minSources :: rat
  cf_maxDeviationBps :: rat
  cf_stalenessSeconds :: rat
  cf_freshnessProfile :: "freshness_profile option"
  cf_freshnessWarnSeconds :: "rat option"
  cf_quoteUnit :: "quote_unit option"
  cf_enabled :: bool

record catalog_policy =
  cp_version :: nat
  cp_activatedAt :: int
  cp_proposalId :: "nat option"
  cp_feeds :: "feed_policy list"

datatype change_kind = StandardChange | RollbackChange

record policy_change =
  ch_baseVersion :: nat
  ch_kind :: change_kind
  ch_upserts :: "feed_policy list"
  ch_removals :: "string list"

definition minSourceCount :: nat where "minSourceCount = 2"
definition minDeviationBps :: rat where "minDeviationBps = 10"
definition maxDeviationBps :: rat where "maxDeviationBps = 2000"
definition minStalenessSeconds :: rat where "minStalenessSeconds = 10"
definition maxStalenessSeconds :: rat where "maxStalenessSeconds = 3600"
definition maxFeedsPerChange :: nat where "maxFeedsPerChange = 100"
definition requiredApprovals :: nat where "requiredApprovals = 2"
definition highImpactApprovals :: nat where "highImpactApprovals = 3"
definition maxReviewers :: nat where "maxReviewers = 7"
definition catalogReviewWindowSeconds :: int where "catalogReviewWindowSeconds = 48 * 60 * 60"
definition timelockSeconds :: int where "timelockSeconds = 24 * 60 * 60"
definition highImpactTimelockSeconds :: int where "highImpactTimelockSeconds = 48 * 60 * 60"

definition normalizeAsset :: "string \<Rightarrow> string" where
  "normalizeAsset asset = js_toUpperCase (js_trim asset)"

definition normalizeFeed :: "feed_policy \<Rightarrow> feed_policy" where
  "normalizeFeed feed =
     (let profile = nullish (cf_freshnessProfile feed)
            (nullish (map_of FEED_FRESHNESS_ASSIGNMENTS (normalizeAsset (cf_asset feed))) Standard)
      in \<lparr>cf_asset = normalizeAsset (cf_asset feed),
          cf_sources = js_sort string_cmp (remdups (map (\<lambda>s. js_toLowerCase (js_trim s)) (cf_sources feed))),
          cf_minSources = cf_minSources feed, cf_maxDeviationBps = cf_maxDeviationBps feed,
          cf_stalenessSeconds = cf_stalenessSeconds feed, cf_freshnessProfile = Some profile,
          cf_freshnessWarnSeconds = Some (nullish (cf_freshnessWarnSeconds feed)
            (min (of_int (fst (FRESHNESS_PROFILES profile))) (cf_stalenessSeconds feed - 1))),
          cf_quoteUnit = Some (nullish (cf_quoteUnit feed) DEFAULT_QUOTE_UNIT), cf_enabled = cf_enabled feed\<rparr>)"

type_synonym collation = "string \<Rightarrow> string \<Rightarrow> int"

definition sort_feeds :: "collation \<Rightarrow> feed_policy list \<Rightarrow> feed_policy list" where
  "sort_feeds collate feeds = js_sort (\<lambda>a b. collate (cf_asset a) (cf_asset b)) feeds"

definition normalizeChange :: "collation \<Rightarrow> policy_change \<Rightarrow> policy_change" where
  "normalizeChange collate change =
     \<lparr>ch_baseVersion = ch_baseVersion change, ch_kind = ch_kind change,
      ch_upserts = sort_feeds collate (map normalizeFeed (ch_upserts change)),
      ch_removals = js_sort string_cmp (remdups (map normalizeAsset (ch_removals change)))\<rparr>"

subsection \<open>Guard rails\<close>

datatype finding_code =
    STALE_BASE_VERSION | EMPTY_CHANGE | TOO_MANY_CHANGES | DUPLICATE_ASSET | CONFLICTING_CHANGE | UNKNOWN_FEED
  | EMPTY_CATALOG | NO_ENABLED_FEEDS | NO_OP_CHANGE | INVALID_ASSET | UNKNOWN_SOURCE | INSUFFICIENT_SOURCES
  | MIN_SOURCES_BELOW_FLOOR | MIN_SOURCES_EXCEEDS_SOURCES | DEVIATION_OUT_OF_BOUNDS | STALENESS_OUT_OF_BOUNDS
  | UNKNOWN_FRESHNESS_PROFILE | FRESHNESS_WARNING_OUT_OF_BOUNDS | INVALID_QUOTE_SCALE | INVALID_QUOTE_UNIT
  | FEED_DISABLED | FEED_ENABLED | DEVIATION_LOOSENED | STALENESS_LOOSENED | FRESHNESS_PROFILE_CHANGED
  | MIN_SOURCES_REDUCED | SOURCE_SET_REDUCED | QUOTE_SCALE_CHANGED

datatype severity = ErrorFinding | WarningFinding

record finding =
  gf_code :: finding_code
  gf_severity :: severity
  gf_asset :: "string option"

definition err :: "finding_code \<Rightarrow> string option \<Rightarrow> bool \<Rightarrow> finding list" where
  "err code asset b = (if b then [\<lparr>gf_code = code, gf_severity = ErrorFinding, gf_asset = asset\<rparr>] else [])"

definition warn :: "finding_code \<Rightarrow> string \<Rightarrow> bool \<Rightarrow> finding list" where
  "warn code asset b = (if b then [\<lparr>gf_code = code, gf_severity = WarningFinding, gf_asset = Some asset\<rparr>] else [])"

text \<open>\<open>/^[A-Z0-9]{2,12}$/\<close>\<close>

definition valid_ticker :: "string \<Rightarrow> bool" where
  "valid_ticker s \<longleftrightarrow> 2 \<le> length s \<and> length s \<le> 12 \<and>
     list_all (\<lambda>c. (65 \<le> (of_char c :: nat) \<and> (of_char c :: nat) \<le> 90) \<or> (48 \<le> (of_char c :: nat) \<and> (of_char c :: nat) \<le> 57)) s"

fun quote_code :: "quote_error \<Rightarrow> finding_code" where
  "quote_code ScaleOutOfRange = INVALID_QUOTE_SCALE"
| "quote_code DisplayOutOfRange = INVALID_QUOTE_SCALE"
| "quote_code _ = INVALID_QUOTE_UNIT"

definition validateFeed :: "feed_policy \<Rightarrow> finding list" where
  "validateFeed feed =
     (let a = Some (cf_asset feed); n = rat_of_nat (length (cf_sources feed))
      in err INVALID_ASSET a (\<not> valid_ticker (cf_asset feed))
       @ concat (map (\<lambda>s. err UNKNOWN_SOURCE a (s \<notin> set CATALOG_SOURCES)) (cf_sources feed))
       @ err INSUFFICIENT_SOURCES a (length (cf_sources feed) < minSourceCount)
       @ err MIN_SOURCES_BELOW_FLOOR a (\<not> isInteger (cf_minSources feed) \<or> cf_minSources feed < rat_of_nat minSourceCount)
       @ err MIN_SOURCES_EXCEEDS_SOURCES a (cf_minSources feed > n)
       @ err DEVIATION_OUT_OF_BOUNDS a (\<not> isInteger (cf_maxDeviationBps feed) \<or> cf_maxDeviationBps feed < minDeviationBps
           \<or> cf_maxDeviationBps feed > maxDeviationBps)
       @ err STALENESS_OUT_OF_BOUNDS a (\<not> isInteger (cf_stalenessSeconds feed) \<or> cf_stalenessSeconds feed < minStalenessSeconds
           \<or> cf_stalenessSeconds feed > maxStalenessSeconds)
       @ err UNKNOWN_FRESHNESS_PROFILE a (cf_freshnessProfile feed = None)
       @ err FRESHNESS_WARNING_OUT_OF_BOUNDS a (case cf_freshnessWarnSeconds feed of
             None \<Rightarrow> True | Some w \<Rightarrow> \<not> isInteger w \<or> w < 1 \<or> w \<ge> cf_stalenessSeconds feed)
       @ map (\<lambda>e. \<lparr>gf_code = quote_code e, gf_severity = ErrorFinding, gf_asset = a\<rparr>)
           (validateQuoteUnit (nullish (cf_quoteUnit feed) DEFAULT_QUOTE_UNIT)))"

record catalog_diff =
  df_added :: "string list"
  df_removed :: "string list"
  df_modified :: "string list"
  df_unchanged :: "string list"

definition feeds_map :: "feed_policy list \<Rightarrow> (string, feed_policy) js_map" where
  "feeds_map feeds = fold (\<lambda>f m. jm_set m (cf_asset f) f) feeds []"

definition diffPolicies :: "feed_policy list \<Rightarrow> feed_policy list \<Rightarrow> catalog_diff" where
  "diffPolicies before after =
     (let b = feeds_map before; a = feeds_map after
      in \<lparr>df_added = js_sort string_cmp (filter (\<lambda>x. jm_get b x = None) (jm_keys a)),
          df_removed = js_sort string_cmp (filter (\<lambda>x. \<not> jm_has a x) (jm_keys b)),
          df_modified = js_sort string_cmp (filter (\<lambda>x. jm_get b x \<noteq> None \<and> jm_get b x \<noteq> jm_get a x) (jm_keys a)),
          df_unchanged = js_sort string_cmp (filter (\<lambda>x. jm_get b x \<noteq> None \<and> jm_get b x = jm_get a x) (jm_keys a))\<rparr>)"

definition projectFeeds :: "collation \<Rightarrow> catalog_policy \<Rightarrow> policy_change \<Rightarrow> feed_policy list" where
  "projectFeeds collate current change =
     sort_feeds collate (jm_values
       (fold (\<lambda>f m. jm_set m (cf_asset f) f) (ch_upserts change)
         (fold (\<lambda>a m. jm_delete m a) (ch_removals change) (feeds_map (cp_feeds current)))))"

fun upsert_findings :: "policy_change \<Rightarrow> string list \<Rightarrow> feed_policy list \<Rightarrow> finding list" where
  "upsert_findings change seen [] = []"
| "upsert_findings change seen (feed # feeds) =
     err DUPLICATE_ASSET (Some (cf_asset feed)) (cf_asset feed \<in> set seen)
     @ err CONFLICTING_CHANGE (Some (cf_asset feed)) (cf_asset feed \<in> set (ch_removals change))
     @ validateFeed feed
     @ upsert_findings change (cf_asset feed # seen) feeds"

definition quote_changed :: "feed_policy \<Rightarrow> feed_policy \<Rightarrow> bool" where
  "quote_changed before after =
     (let b = nullish (cf_quoteUnit before) DEFAULT_QUOTE_UNIT; a = nullish (cf_quoteUnit after) DEFAULT_QUOTE_UNIT
      in qu_currency b \<noteq> qu_currency a \<or> qu_denomination b \<noteq> qu_denomination a \<or> qu_scaleDecimals b \<noteq> qu_scaleDecimals a)"

definition loosening :: "string \<Rightarrow> feed_policy \<Rightarrow> feed_policy \<Rightarrow> finding list" where
  "loosening asset before after =
     warn FEED_DISABLED asset (cf_enabled before \<and> \<not> cf_enabled after)
     @ warn FEED_ENABLED asset (\<not> cf_enabled before \<and> cf_enabled after)
     @ warn DEVIATION_LOOSENED asset (cf_maxDeviationBps after > cf_maxDeviationBps before)
     @ warn STALENESS_LOOSENED asset (cf_stalenessSeconds after > cf_stalenessSeconds before)
     @ warn FRESHNESS_PROFILE_CHANGED asset (cf_freshnessProfile after \<noteq> cf_freshnessProfile before
         \<or> nullish (cf_freshnessWarnSeconds after) 0 > nullish (cf_freshnessWarnSeconds before) 0)
     @ warn MIN_SOURCES_REDUCED asset (cf_minSources after < cf_minSources before)
     @ warn SOURCE_SET_REDUCED asset (filter (\<lambda>s. s \<notin> set (cf_sources after)) (cf_sources before) \<noteq> [] \<and> cf_enabled after)
     @ warn QUOTE_SCALE_CHANGED asset (quote_changed before after)"

definition modified_findings :: "feed_policy list \<Rightarrow> feed_policy list \<Rightarrow> string list \<Rightarrow> finding list" where
  "modified_findings before after assets =
     concat (map (\<lambda>asset. case (jm_get (feeds_map before) asset, find (\<lambda>f. cf_asset f = asset) after) of
         (Some b, Some a) \<Rightarrow> loosening asset b a | _ \<Rightarrow> []) assets)"

record catalog_validation =
  va_findings :: "finding list"
  va_errors :: "finding list"
  va_warnings :: "finding list"
  va_diff :: catalog_diff
  va_highImpact :: bool
  va_nextFeeds :: "feed_policy list"

definition validateCatalogChange :: "collation \<Rightarrow> catalog_policy \<Rightarrow> policy_change \<Rightarrow> catalog_validation" where
  "validateCatalogChange collate current rawChange =
     (let change = normalizeChange collate rawChange;
          size' = length (ch_upserts change) + length (ch_removals change);
          nextFeeds = projectFeeds collate current change;
          diff = diffPolicies (cp_feeds current) nextFeeds;
          loosened = modified_findings (cp_feeds current) nextFeeds (df_modified diff);
          findings =
            err STALE_BASE_VERSION None (ch_baseVersion change \<noteq> cp_version current)
            @ err EMPTY_CHANGE None (size' = 0)
            @ err TOO_MANY_CHANGES None (size' > maxFeedsPerChange)
            @ upsert_findings change [] (ch_upserts change)
            @ concat (map (\<lambda>a. err UNKNOWN_FEED (Some a) (a \<notin> cf_asset ` set (cp_feeds current))) (ch_removals change))
            @ err EMPTY_CATALOG None (nextFeeds = [])
            @ err NO_ENABLED_FEEDS None (\<not> list_ex cf_enabled nextFeeds)
            @ err NO_OP_CHANGE None (df_added diff = [] \<and> df_removed diff = [] \<and> df_modified diff = [])
            @ loosened
      in \<lparr>va_findings = findings,
          va_errors = filter (\<lambda>f. gf_severity f = ErrorFinding) findings,
          va_warnings = filter (\<lambda>f. gf_severity f = WarningFinding) findings,
          va_diff = diff,
          va_highImpact = (ch_kind change = RollbackChange \<or> df_added diff \<noteq> [] \<or> df_removed diff \<noteq> [] \<or> loosened \<noteq> []),
          va_nextFeeds = nextFeeds\<rparr>)"

definition applyCatalogChange :: "collation \<Rightarrow> int \<Rightarrow> nat \<Rightarrow> catalog_policy \<Rightarrow> policy_change \<Rightarrow> catalog_policy" where
  "applyCatalogChange collate activatedAt proposalId current change =
     \<lparr>cp_version = cp_version current + 1, cp_activatedAt = activatedAt, cp_proposalId = Some proposalId,
      cp_feeds = projectFeeds collate current change\<rparr>"

subsection \<open>On-chain plan\<close>

datatype on_chain_action =
    PlanSetTrustedAsset string bool | PlanAddSource string string | PlanRemoveSource string | PlanSetDeviationThreshold rat

record on_chain_plan =
  pl_actions :: "on_chain_action list"
  pl_offChainParameters :: "string list"
  pl_missingSourceAddresses :: "string list"
  pl_digest :: string

type_synonym plan_order = "on_chain_action \<Rightarrow> on_chain_action \<Rightarrow> int"
type_synonym plan_digest = "on_chain_action list \<times> string list \<Rightarrow> string"

definition enabledSources :: "feed_policy list \<Rightarrow> string list" where
  "enabledSources feeds = remdups (concat (map cf_sources (filter cf_enabled feeds)))"

definition trust_actions :: "feed_policy list \<Rightarrow> feed_policy list \<Rightarrow> on_chain_action list" where
  "trust_actions before after =
     (let b = feeds_map before; a = feeds_map after
      in concat (map (\<lambda>(asset, feed). case jm_get b asset of
             None \<Rightarrow> if cf_enabled feed then [PlanSetTrustedAsset asset True] else []
           | Some previous \<Rightarrow> if cf_enabled previous \<noteq> cf_enabled feed then [PlanSetTrustedAsset asset (cf_enabled feed)] else []) a)
         @ concat (map (\<lambda>(asset, feed). if \<not> jm_has a asset \<and> cf_enabled feed then [PlanSetTrustedAsset asset False] else []) b))"

definition address_of :: "(string, string) js_map \<Rightarrow> string \<Rightarrow> string option" where
  "address_of addresses source = (case jm_get addresses source of Some a \<Rightarrow> if a = [] then None else Some a | None \<Rightarrow> None)"

definition thresholds_of :: "feed_policy list \<Rightarrow> rat list" where
  "thresholds_of feeds = remdups (map cf_maxDeviationBps (filter cf_enabled feeds))"

definition parametersChanged :: "(feed_policy \<Rightarrow> rat) \<Rightarrow> feed_policy list \<Rightarrow> feed_policy list \<Rightarrow> bool" where
  "parametersChanged key before after =
     list_ex (\<lambda>f. map_option key (jm_get (feeds_map before) (cf_asset f)) \<noteq> Some (key f)) after"

definition buildOnChainPlan ::
  "plan_order \<Rightarrow> plan_digest \<Rightarrow> catalog_policy \<Rightarrow> feed_policy list \<Rightarrow> (string, string) js_map \<Rightarrow> on_chain_plan" where
  "buildOnChainPlan order digest current nextFeeds addresses =
     (let before = enabledSources (cp_feeds current);
          after = enabledSources nextFeeds;
          added = filter (\<lambda>s. s \<notin> set before) (js_sort string_cmp after);
          dropped = filter (\<lambda>s. s \<notin> set after) (js_sort string_cmp before);
          missing = filter (\<lambda>s. address_of addresses s = None) (added @ dropped);
          sourceActions =
            concat (map (\<lambda>s. case address_of addresses s of None \<Rightarrow> [] | Some a \<Rightarrow> [PlanAddSource a s]) added)
            @ concat (map (\<lambda>s. case address_of addresses s of None \<Rightarrow> [] | Some a \<Rightarrow> [PlanRemoveSource a]) dropped);
          thresholds = thresholds_of nextFeeds;
          previous = thresholds_of (cp_feeds current);
          thresholdActions = (case thresholds of
              [t] \<Rightarrow> if length previous \<noteq> 1 \<or> t \<notin> set previous then [PlanSetDeviationThreshold t] else []
            | _ \<Rightarrow> []);
          actions = js_sort order (trust_actions (cp_feeds current) nextFeeds @ sourceActions @ thresholdActions);
          offChain = js_sort string_cmp
            ((if length thresholds > 1 then [''maxDeviationBps (per feed)''] else [])
             @ (if parametersChanged cf_minSources (cp_feeds current) nextFeeds then [''minSources''] else [])
             @ (if parametersChanged cf_stalenessSeconds (cp_feeds current) nextFeeds then [''stalenessSeconds''] else []))
      in \<lparr>pl_actions = actions, pl_offChainParameters = offChain, pl_missingSourceAddresses = js_sort string_cmp missing,
          pl_digest = digest (actions, offChain)\<rparr>)"

subsection \<open>Normal forms\<close>

lemma js_case_facts:
  "js_is_space (js_upper_char c) = js_is_space c" "js_is_space (js_lower_char c) = js_is_space c"
  "js_upper_char (js_upper_char c) = js_upper_char c" "js_lower_char (js_lower_char c) = js_lower_char c"
  by (auto simp: js_is_space_def js_upper_char_def js_lower_char_def)

lemma js_trim_map:
  assumes "\<And>c. js_is_space (f c) = js_is_space c"
  shows "js_trim (map f s) = map f (js_trim s)"
proof -
  have "dropWhile js_is_space (map f t) = map f (dropWhile js_is_space t)" for t
    by (simp add: dropWhile_map comp_def assms)
  then show ?thesis by (simp add: js_trim_def rev_map)
qed

lemma dropWhile_hd: "s = [] \<or> \<not> P (hd s) \<Longrightarrow> dropWhile P s = s"
  by (cases s) auto

lemma js_trim_idem [simp]: "js_trim (js_trim s) = js_trim s"
proof -
  let ?d = "dropWhile js_is_space"
  define t where "t = ?d s"
  have t: "t = [] \<or> \<not> js_is_space (hd t)" using hd_dropWhile [of js_is_space s] by (auto simp: t_def)
  have u: "js_trim s = [] \<or> \<not> js_is_space (hd (js_trim s))"
  proof (cases "js_trim s = []")
    case False
    have "t = js_trim s @ rev (takeWhile js_is_space (rev t))"
      unfolding js_trim_def t_def by (metis rev_append rev_rev_ident takeWhile_dropWhile_id)
    then have "hd t = hd (js_trim s)" "t \<noteq> []" using False by (metis hd_append2, auto)
    then show ?thesis using t by simp
  qed simp
  have "js_trim (js_trim s) = rev (?d (rev (js_trim s)))"
    by (simp add: js_trim_def [of "js_trim s"] dropWhile_hd [where P = js_is_space and s = "js_trim s", OF u])
  also have "\<dots> = js_trim s" by (simp add: js_trim_def)
  finally show ?thesis .
qed

lemma normalizeAsset_idem [simp]: "normalizeAsset (normalizeAsset s) = normalizeAsset s"
  by (simp add: normalizeAsset_def js_toUpperCase_def js_trim_map js_case_facts)

lemma source_idem: "js_toLowerCase (js_trim (js_toLowerCase (js_trim s))) = js_toLowerCase (js_trim s)"
  by (simp add: js_toLowerCase_def js_trim_map js_case_facts)

lemma char_order_total: "(of_char c :: nat) < of_char d \<or> c = d \<or> (of_char d :: nat) < of_char c"
  using of_char_eq_iff [where ?'a = nat, of c d] by linarith

lemma string_cmp_total: "string_cmp a b \<le> 0 \<or> string_cmp b a \<le> 0"
proof -
  have "lexordp (\<lambda>c d. (of_char c :: nat) < of_char d) a b \<or> a = b \<or> lexordp (\<lambda>c d. (of_char c :: nat) < of_char d) b a"
    using lexord_linear [of "{(c, d). (of_char c :: nat) < of_char d}" a b] char_order_total by (auto simp: lexordp_def)
  then show ?thesis by (auto simp: string_cmp_def)
qed

lemma string_cmp_trans: "string_cmp a b \<le> 0 \<Longrightarrow> string_cmp b c \<le> 0 \<Longrightarrow> string_cmp a c \<le> 0"
  using lexord_trans [of a b "{(c, d). (of_char c :: nat) < of_char d}" c]
  by (auto simp: string_cmp_def lexordp_def trans_def split: if_splits)

lemma js_insert_string_sorted:
  "sorted_wrt (\<lambda>x y. string_cmp x y \<le> 0) xs \<Longrightarrow> sorted_wrt (\<lambda>x y. string_cmp x y \<le> 0) (js_insert string_cmp x xs)"
proof (induction xs)
  case (Cons y ys)
  show ?case
  proof (cases "string_cmp x y \<le> 0")
    case True
    then show ?thesis using Cons.prems by (auto intro: string_cmp_trans)
  next
    case False
    then have "string_cmp y x \<le> 0" using string_cmp_total by blast
    then show ?thesis using Cons False by auto
  qed
qed simp

lemma js_sort_string_sorted: "sorted_wrt (\<lambda>x y. string_cmp x y \<le> 0) (js_sort string_cmp xs)"
  by (induction xs) (auto simp: js_sort_def js_insert_string_sorted)

lemma js_sort_of_sorted: "sorted_wrt (\<lambda>x y. cmp x y \<le> 0) xs \<Longrightarrow> js_sort cmp xs = xs"
proof (induction xs)
  case (Cons x xs)
  then have "js_sort cmp (x # xs) = js_insert cmp x xs" by (simp add: js_sort_def)
  then show ?case using Cons.prems by (cases xs) auto
qed (simp add: js_sort_def)

lemma distinct_js_sort: "distinct (js_sort cmp xs) = distinct xs"
  by (metis mset_eq_imp_distinct_iff mset_js_sort)

lemma normalizeFeed_idem [simp]: "normalizeFeed (normalizeFeed f) = normalizeFeed f"
proof -
  let ?g = "\<lambda>s. js_toLowerCase (js_trim s)"
  let ?s = "js_sort string_cmp (remdups (map ?g (cf_sources f)))"
  have "map ?g ?s = ?s" by (rule map_idI) (auto simp: source_idem)
  then have "js_sort string_cmp (remdups (map ?g ?s)) = ?s"
    by (simp add: distinct_remdups_id distinct_js_sort js_sort_of_sorted js_sort_string_sorted)
  then show ?thesis by (simp add: normalizeFeed_def Let_def)
qed

lemma upserts_normal: "f \<in> set (ch_upserts (normalizeChange collate change)) \<Longrightarrow> normalizeFeed f = f"
  by (auto simp: normalizeChange_def sort_feeds_def)

lemma upserts_of_normal:
  "\<forall>f \<in> set (ch_upserts change). normalizeFeed f = f \<Longrightarrow> set (ch_upserts (normalizeChange collate change)) = set (ch_upserts change)"
  by (force simp: normalizeChange_def sort_feeds_def)

subsection \<open>What validation guarantees\<close>

lemma validateFeed_errors: "x \<in> set (validateFeed f) \<Longrightarrow> gf_severity x = ErrorFinding"
  by (auto simp: validateFeed_def Let_def err_def split: if_splits)

lemma err_Nil [simp]: "err code a b = [] \<longleftrightarrow> \<not> b"
  by (simp add: err_def)

lemma validateFeed_bounds:
  assumes "validateFeed f = []"
  shows "set (cf_sources f) \<subseteq> set CATALOG_SOURCES \<and> 2 \<le> length (cf_sources f)
    \<and> 2 \<le> cf_minSources f \<and> cf_minSources f \<le> rat_of_nat (length (cf_sources f))
    \<and> 10 \<le> cf_maxDeviationBps f \<and> cf_maxDeviationBps f \<le> 2000
    \<and> 10 \<le> cf_stalenessSeconds f \<and> cf_stalenessSeconds f \<le> 3600
    \<and> (\<exists>w. cf_freshnessWarnSeconds f = Some w \<and> 1 \<le> w \<and> w < cf_stalenessSeconds f)"
  using assms
  by (auto simp: validateFeed_def Let_def minSourceCount_def minDeviationBps_def maxDeviationBps_def minStalenessSeconds_def
      maxStalenessSeconds_def not_less split: option.splits)

lemma upsert_findings_valid: "f \<in> set feeds \<Longrightarrow> set (validateFeed f) \<subseteq> set (upsert_findings change seen feeds)"
  by (induction change seen feeds rule: upsert_findings.induct) auto

lemma no_errors_upserts:
  assumes "va_errors (validateCatalogChange collate current change) = []"
    and f: "f \<in> set (ch_upserts (normalizeChange collate change))"
  shows "validateFeed f = []"
proof -
  have "set (validateFeed f) \<subseteq> set (va_findings (validateCatalogChange collate current change))"
    using upsert_findings_valid [OF f] by (fastforce simp: validateCatalogChange_def Let_def)
  moreover have "va_errors v = filter (\<lambda>x. gf_severity x = ErrorFinding) (va_findings v)"
    if "v = validateCatalogChange collate current change" for v
    by (simp add: that validateCatalogChange_def Let_def)
  ultimately have "\<forall>x \<in> set (validateFeed f). gf_severity x \<noteq> ErrorFinding"
    using assms(1) by (metis (mono_tags, lifting) filter_empty_conv subsetD)
  then show ?thesis using validateFeed_errors [of _ f] by (metis last_in_set)
qed

lemma feeds_map_values: "set (jm_values (fold (\<lambda>f m. jm_set m (cf_asset f) f) fs m)) \<subseteq> set fs \<union> set (jm_values m)"
proof (induction fs arbitrary: m)
  case (Cons f fs)
  have "set (jm_values (jm_set m (cf_asset f) f)) \<subseteq> insert f (set (jm_values m))"
    using jm_set_elems [of m "cf_asset f" f] by force
  then have "set fs \<union> set (jm_values (jm_set m (cf_asset f) f)) \<subseteq> set (f # fs) \<union> set (jm_values m)" by auto
  then show ?case using Cons [of "jm_set m (cf_asset f) f"] unfolding fold_simps by (rule order_trans [rotated])
qed simp

lemma removals_values: "set (jm_values (fold (\<lambda>a m. jm_delete m a) as m)) \<subseteq> set (jm_values m)"
proof (induction as arbitrary: m)
  case (Cons a as)
  have "set (jm_values (jm_delete m a)) \<subseteq> set (jm_values m)" by (auto simp: jm_delete_def)
  then show ?case using Cons [of "jm_delete m a"] unfolding fold_simps by (rule order_trans [rotated])
qed simp

lemma projectFeeds_from: "set (projectFeeds collate current change) \<subseteq> set (ch_upserts change) \<union> set (cp_feeds current)"
  using feeds_map_values [of "ch_upserts change" "fold (\<lambda>a m. jm_delete m a) (ch_removals change) (feeds_map (cp_feeds current))"]
    removals_values [of "ch_removals change" "feeds_map (cp_feeds current)"] feeds_map_values [of "cp_feeds current" "[]"]
  by (auto simp: projectFeeds_def sort_feeds_def feeds_map_def)

end
