(* ===== verification/Catalog_Governance.thy ===== *)
theory Catalog_Governance
  imports Catalog_Policy
begin

text \<open>
  The lifecycle of catalog changes, the class \<open>CatalogGovernance\<close> of \<open>api/src/governance/catalog-policy.ts\<close>.
  Times are milliseconds. The injected \<open>isRecused\<close> and \<open>isFrozen\<close> are arguments of the operations that call
  them, as are the collation, the order of the on-chain actions and the digest. The clones handed to
  callers are the values themselves, and the free-form details of an impact report are left out.
\<close>

datatype catalog_status = CatInReview | CatApproved | CatRejected | CatActivated | CatExpired

datatype catalog_decision = Approve | Reject

record catalog_review =
  cr_reviewer :: string
  cr_decision :: catalog_decision
  cr_at :: int

datatype impact_risk = LowRisk | MediumRisk | HighRisk | CriticalRisk

record catalog_impact =
  ci_generatedAt :: int
  ci_deterministicHash :: string
  ci_risk :: impact_risk
  ci_approvalBlocked :: bool
  ci_warnings :: "string list"

record on_chain_execution =
  ex_actionIndex :: rat
  ex_onChainProposalId :: rat

record catalog_proposal =
  kp_id :: nat
  kp_proposer :: string
  kp_description :: string
  kp_change :: policy_change
  kp_status :: catalog_status
  kp_createdAt :: int
  kp_reviewDeadlineAt :: int
  kp_timelockEndsAt :: "int option"
  kp_activatedAt :: "int option"
  kp_activatedVersion :: "nat option"
  kp_activatedBy :: "string option"
  kp_reviews :: "catalog_review list"
  kp_findings :: "finding list"
  kp_highImpact :: bool
  kp_requiredApprovals :: nat
  kp_sourceAddresses :: "(string, string) js_map"
  kp_onChainPlan :: on_chain_plan
  kp_onChainExecutions :: "on_chain_execution list option"
  kp_impact :: "catalog_impact option"

datatype catalog_error =
    ACTOR_REQUIRED | DESCRIPTION_REQUIRED | DESCRIPTION_TOO_LONG | CATALOG_POLICY_INVALID "finding list"
  | MISSING_SOURCE_ADDRESS "string list" | POLICY_VERSION_NOT_FOUND | CatalogProposalNotFound | IMPACT_NOT_ACCEPTED
  | PROPOSAL_NOT_IN_REVIEW | REVIEW_WINDOW_EXPIRED | SELF_REVIEW_FORBIDDEN | CatalogAttestationRequired | ALREADY_REVIEWED
  | REVIEW_LIMIT_REACHED | CatalogConflictOfInterest "string list" | IMPACT_ANALYSIS_REQUIRED | IMPACT_ANALYSIS_BLOCKED
  | PROPOSAL_NOT_APPROVED | CatalogTimelockActive | POLICY_DRIFT "finding list" | PLAN_DRIFTED
  | EMERGENCY_OVERRIDE_ACTIVE string | ON_CHAIN_EXECUTION_INVALID | ON_CHAIN_EXECUTION_INCOMPLETE | ROLLBACK_TARGET_IS_LIVE

text \<open>The injected environment that does not change between calls.\<close>

record catalog_env =
  ce_collate :: collation
  ce_order :: plan_order
  ce_digest :: plan_digest

record catalog =
  cg_versions :: "catalog_policy list"
  cg_proposals :: "(nat, catalog_proposal) js_map"
  cg_proposalCount :: nat

definition GENESIS_FEEDS :: "feed_policy list" where
  "GENESIS_FEEDS =
    [\<lparr>cf_asset = ''XLM'', cf_sources = [''chainlink'', ''redstone'', ''band''], cf_minSources = 2, cf_maxDeviationBps = 150,
      cf_stalenessSeconds = 60, cf_freshnessProfile = None, cf_freshnessWarnSeconds = None, cf_quoteUnit = None, cf_enabled = True\<rparr>,
     \<lparr>cf_asset = ''USDC'', cf_sources = [''chainlink'', ''reflector'', ''band''], cf_minSources = 2, cf_maxDeviationBps = 50,
      cf_stalenessSeconds = 60, cf_freshnessProfile = None, cf_freshnessWarnSeconds = None, cf_quoteUnit = None, cf_enabled = True\<rparr>]"

definition newCatalogGovernance :: "catalog_env \<Rightarrow> feed_policy list \<Rightarrow> catalog" where
  "newCatalogGovernance env genesisFeeds =
     \<lparr>cg_versions = [\<lparr>cp_version = 1, cp_activatedAt = 0, cp_proposalId = None,
                      cp_feeds = sort_feeds (ce_collate env) (map normalizeFeed genesisFeeds)\<rparr>],
      cg_proposals = [], cg_proposalCount = 0\<rparr>"

definition currentPolicy :: "catalog \<Rightarrow> catalog_policy" where
  "currentPolicy g = last (cg_versions g)"

definition policyVersion :: "nat \<Rightarrow> catalog \<Rightarrow> catalog_error + catalog_policy" where
  "policyVersion version g = (case find (\<lambda>p. cp_version p = version) (cg_versions g) of
      None \<Rightarrow> Inl POLICY_VERSION_NOT_FOUND | Some p \<Rightarrow> Inr p)"

text \<open>\<open>feedsDigest\<close> with the digest as an argument.\<close>

definition feedsDigest :: "collation \<Rightarrow> (feed_policy list \<Rightarrow> string) \<Rightarrow> catalog_policy \<Rightarrow> string" where
  "feedsDigest collate digestOf policy =
     digestOf (map (\<lambda>f. f\<lparr>cf_sources := js_sort string_cmp (cf_sources f)\<rparr>) (sort_feeds collate (cp_feeds policy)))"

definition policyHistory ::
  "collation \<Rightarrow> (feed_policy list \<Rightarrow> string) \<Rightarrow> catalog \<Rightarrow> (nat \<times> int \<times> nat option \<times> string) list" where
  "policyHistory collate digestOf g =
     js_sort (\<lambda>a b. int (fst b) - int (fst a))
       (map (\<lambda>p. (cp_version p, cp_activatedAt p, cp_proposalId p, feedsDigest collate digestOf p)) (cg_versions g))"

definition requireActor :: "string \<Rightarrow> catalog_error + string" where
  "requireActor actor = (if js_trim actor = [] then Inl ACTOR_REQUIRED else Inr (js_trim actor))"

record proposal_input =
  ip_proposer :: string
  ip_description :: string
  ip_change :: policy_change
  ip_sourceAddresses :: "(string, string) js_map option"

definition new_proposal ::
  "int \<Rightarrow> nat \<Rightarrow> string \<Rightarrow> string \<Rightarrow> policy_change \<Rightarrow> catalog_validation \<Rightarrow> (string, string) js_map \<Rightarrow> on_chain_plan \<Rightarrow> catalog_proposal" where
  "new_proposal now i proposer description change validation addresses plan =
     \<lparr>kp_id = i, kp_proposer = proposer, kp_description = js_trim description, kp_change = change, kp_status = CatInReview,
      kp_createdAt = now, kp_reviewDeadlineAt = now + catalogReviewWindowSeconds * 1000, kp_timelockEndsAt = None,
      kp_activatedAt = None, kp_activatedVersion = None, kp_activatedBy = None, kp_reviews = [],
      kp_findings = va_findings validation, kp_highImpact = va_highImpact validation,
      kp_requiredApprovals = (if va_highImpact validation then highImpactApprovals else requiredApprovals),
      kp_sourceAddresses = addresses, kp_onChainPlan = plan, kp_onChainExecutions = None, kp_impact = None\<rparr>"

definition createProposal ::
  "catalog_env \<Rightarrow> int \<Rightarrow> proposal_input \<Rightarrow> catalog \<Rightarrow> catalog \<times> (catalog_error + catalog_proposal)" where
  "createProposal env now input g =
     (case requireActor (ip_proposer input) of
        Inl e \<Rightarrow> (g, Inl e)
      | Inr proposer \<Rightarrow>
          if js_trim (ip_description input) = [] then (g, Inl DESCRIPTION_REQUIRED)
          else if length (ip_description input) > 2000 then (g, Inl DESCRIPTION_TOO_LONG)
          else
            let current = currentPolicy g;
                change = normalizeChange (ce_collate env) (ip_change input);
                validation = validateCatalogChange (ce_collate env) current change
            in if va_errors validation \<noteq> [] then (g, Inl (CATALOG_POLICY_INVALID (va_errors validation)))
               else
                 let addresses = nullish (ip_sourceAddresses input) [];
                     plan = buildOnChainPlan (ce_order env) (ce_digest env) current (va_nextFeeds validation) addresses
                 in if pl_missingSourceAddresses plan \<noteq> []
                    then (g, Inl (MISSING_SOURCE_ADDRESS (pl_missingSourceAddresses plan)))
                    else
                      let i = Suc (cg_proposalCount g);
                          p = new_proposal now i proposer (ip_description input) change validation addresses plan
                      in (g\<lparr>cg_proposals := jm_set (cg_proposals g) i p, cg_proposalCount := i\<rparr>, Inr p))"

definition getProposal :: "nat \<Rightarrow> catalog \<Rightarrow> catalog_error + catalog_proposal" where
  "getProposal i g = (case jm_get (cg_proposals g) i of None \<Rightarrow> Inl CatalogProposalNotFound | Some p \<Rightarrow> Inr p)"

definition listProposals :: "catalog_status option \<Rightarrow> catalog \<Rightarrow> catalog_proposal list" where
  "listProposals status g =
     js_sort (\<lambda>a b. int (kp_id b) - int (kp_id a))
       (filter (\<lambda>p. case status of None \<Rightarrow> True | Some s \<Rightarrow> kp_status p = s) (jm_values (cg_proposals g)))"

definition cg_put :: "nat \<Rightarrow> catalog_proposal \<Rightarrow> catalog \<Rightarrow> catalog" where
  "cg_put i p g = g\<lparr>cg_proposals := jm_set (cg_proposals g) i p\<rparr>"

definition attachImpact :: "nat \<Rightarrow> catalog_impact \<Rightarrow> catalog \<Rightarrow> catalog \<times> (catalog_error + catalog_proposal)" where
  "attachImpact i impact g =
     (case jm_get (cg_proposals g) i of
        None \<Rightarrow> (g, Inl CatalogProposalNotFound)
      | Some p \<Rightarrow>
          if kp_status p \<noteq> CatInReview then (g, Inl IMPACT_NOT_ACCEPTED)
          else let p' = p\<lparr>kp_impact := Some impact\<rparr> in (cg_put i p' g, Inr p'))"

definition cat_recusalRequest :: "catalog_proposal \<Rightarrow> recusal_request" where
  "cat_recusalRequest p =
     (js_sort string_cmp (remdups (map cf_asset (ch_upserts (kp_change p)) @ ch_removals (kp_change p))),
      js_sort string_cmp (remdups (concat (map cf_sources (ch_upserts (kp_change p))))))"

definition approvals :: "catalog_proposal \<Rightarrow> nat" where
  "approvals p = length (filter (\<lambda>r. cr_decision r = Approve) (kp_reviews p))"

definition timelock_of :: "catalog_proposal \<Rightarrow> int" where
  "timelock_of p = (if kp_highImpact p then highImpactTimelockSeconds else timelockSeconds) * 1000"

definition review_recorded :: "int \<Rightarrow> string \<Rightarrow> catalog_decision \<Rightarrow> bool \<Rightarrow> catalog_proposal \<Rightarrow> catalog_proposal" where
  "review_recorded now actor decision completes p =
     (let p' = p\<lparr>kp_reviews := kp_reviews p @ [\<lparr>cr_reviewer = actor, cr_decision = decision, cr_at = now\<rparr>]\<rparr>
      in if decision = Reject then p'\<lparr>kp_status := CatRejected\<rparr>
         else if completes then p'\<lparr>kp_status := CatApproved, kp_timelockEndsAt := Some (now + timelock_of p)\<rparr>
         else p')"

definition review_blocked ::
  "(string \<Rightarrow> recusal_request \<Rightarrow> string list) \<Rightarrow> string \<Rightarrow> bool \<Rightarrow> bool \<Rightarrow> catalog_proposal \<Rightarrow> catalog_error option" where
  "review_blocked isRecused actor completes attested p =
     (if actor = kp_proposer p then Some SELF_REVIEW_FORBIDDEN
      else if \<not> attested then Some CatalogAttestationRequired
      else if list_ex (\<lambda>r. cr_reviewer r = actor) (kp_reviews p) then Some ALREADY_REVIEWED
      else if length (kp_reviews p) \<ge> maxReviewers then Some REVIEW_LIMIT_REACHED
      else
        let reasons = isRecused actor (cat_recusalRequest p)
        in if reasons \<noteq> [] then Some (CatalogConflictOfInterest reasons)
           else if completes then
             (case kp_impact p of
                None \<Rightarrow> Some IMPACT_ANALYSIS_REQUIRED
              | Some impact \<Rightarrow> if ci_approvalBlocked impact then Some IMPACT_ANALYSIS_BLOCKED else None)
           else None)"

definition recordReview ::
  "(string \<Rightarrow> recusal_request \<Rightarrow> string list) \<Rightarrow> int \<Rightarrow> nat \<Rightarrow> string \<Rightarrow> catalog_decision \<Rightarrow> bool \<Rightarrow> catalog
    \<Rightarrow> catalog \<times> (catalog_error + catalog_proposal)" where
  "recordReview isRecused now i reviewer decision attested g =
     (case requireActor reviewer of
        Inl e \<Rightarrow> (g, Inl e)
      | Inr actor \<Rightarrow>
          (case jm_get (cg_proposals g) i of
             None \<Rightarrow> (g, Inl CatalogProposalNotFound)
           | Some p \<Rightarrow>
               if kp_status p \<noteq> CatInReview then (g, Inl PROPOSAL_NOT_IN_REVIEW)
               else if now > kp_reviewDeadlineAt p then (cg_put i (p\<lparr>kp_status := CatExpired\<rparr>) g, Inl REVIEW_WINDOW_EXPIRED)
               else
                 let completes = (decision = Approve \<and> approvals p + 1 \<ge> kp_requiredApprovals p)
                 in case review_blocked isRecused actor completes attested p of
                      Some e \<Rightarrow> (g, Inl e)
                    | None \<Rightarrow> let p' = review_recorded now actor decision completes p in (cg_put i p' g, Inr p')))"

fun executions_from :: "nat \<Rightarrow> rat list \<Rightarrow> on_chain_execution list \<Rightarrow> catalog_error + rat list" where
  "executions_from expected seen [] = Inr seen"
| "executions_from expected seen (e # es) =
     (if \<not> isInteger (ex_actionIndex e) \<or> ex_actionIndex e < 0 \<or> ex_actionIndex e \<ge> rat_of_nat expected
      then Inl ON_CHAIN_EXECUTION_INVALID
      else if ex_actionIndex e \<in> set seen then Inl ON_CHAIN_EXECUTION_INVALID
      else if \<not> isInteger (ex_onChainProposalId e) \<or> ex_onChainProposalId e \<le> 0 then Inl ON_CHAIN_EXECUTION_INVALID
      else executions_from expected (ex_actionIndex e # seen) es)"

definition assertExecutionsComplete :: "catalog_proposal \<Rightarrow> on_chain_execution list \<Rightarrow> catalog_error option" where
  "assertExecutionsComplete p executions =
     (let expected = length (pl_actions (kp_onChainPlan p))
      in case executions_from expected [] executions of
           Inl e \<Rightarrow> Some e
         | Inr seen \<Rightarrow> if length seen \<noteq> expected then Some ON_CHAIN_EXECUTION_INCOMPLETE else None)"

definition activation_blocked ::
  "catalog_env \<Rightarrow> (string \<Rightarrow> bool) \<Rightarrow> int \<Rightarrow> catalog_policy \<Rightarrow> catalog_proposal \<Rightarrow> on_chain_execution list \<Rightarrow> catalog_error option" where
  "activation_blocked env isFrozen now current p executions =
     (if kp_status p \<noteq> CatApproved then Some PROPOSAL_NOT_APPROVED
      else if (case kp_timelockEndsAt p of None \<Rightarrow> True | Some t \<Rightarrow> now < t) then Some CatalogTimelockActive
      else
        let validation = validateCatalogChange (ce_collate env) current (kp_change p);
            plan = buildOnChainPlan (ce_order env) (ce_digest env) current (va_nextFeeds validation) (kp_sourceAddresses p);
            touched = df_added (va_diff validation) @ df_removed (va_diff validation) @ df_modified (va_diff validation)
        in if va_errors validation \<noteq> [] then Some (POLICY_DRIFT (va_errors validation))
           else if pl_digest plan \<noteq> pl_digest (kp_onChainPlan p) then Some PLAN_DRIFTED
           else case find isFrozen touched of
                  Some asset \<Rightarrow> Some (EMERGENCY_OVERRIDE_ACTIVE asset)
                | None \<Rightarrow> assertExecutionsComplete p executions)"

definition activate ::
  "catalog_env \<Rightarrow> (string \<Rightarrow> bool) \<Rightarrow> int \<Rightarrow> nat \<Rightarrow> string \<Rightarrow> on_chain_execution list \<Rightarrow> catalog
    \<Rightarrow> catalog \<times> (catalog_error + catalog_proposal)" where
  "activate env isFrozen now i actor executions g =
     (case requireActor actor of
        Inl e \<Rightarrow> (g, Inl e)
      | Inr caller \<Rightarrow>
          (case jm_get (cg_proposals g) i of
             None \<Rightarrow> (g, Inl CatalogProposalNotFound)
           | Some p \<Rightarrow>
               let current = currentPolicy g
               in case activation_blocked env isFrozen now current p executions of
                    Some e \<Rightarrow> (g, Inl e)
                  | None \<Rightarrow>
                      let next' = applyCatalogChange (ce_collate env) now (kp_id p) current (kp_change p);
                          p' = p\<lparr>kp_status := CatActivated, kp_activatedAt := Some (cp_activatedAt next'),
                                 kp_activatedVersion := Some (cp_version next'), kp_activatedBy := Some caller,
                                 kp_onChainExecutions := Some executions\<rparr>
                      in ((cg_put i p' g)\<lparr>cg_versions := cg_versions g @ [next']\<rparr>, Inr p')))"

definition rollback_change :: "catalog_policy \<Rightarrow> catalog_policy \<Rightarrow> policy_change" where
  "rollback_change current target =
     \<lparr>ch_baseVersion = cp_version current, ch_kind = RollbackChange, ch_upserts = cp_feeds target,
      ch_removals = filter (\<lambda>a. a \<notin> cf_asset ` set (cp_feeds target)) (map cf_asset (cp_feeds current))\<rparr>"

definition rollback_description :: "nat \<Rightarrow> nat \<Rightarrow> string option \<Rightarrow> string" where
  "rollback_description current target description =
     (if js_trim (nullish description []) \<noteq> [] then js_trim (nullish description [])
      else ''Rollback catalog policy from v'' @ js_digits current @ '' to v'' @ js_digits target)"

definition createRollbackProposal ::
  "catalog_env \<Rightarrow> int \<Rightarrow> string \<Rightarrow> nat \<Rightarrow> string option \<Rightarrow> (string, string) js_map option \<Rightarrow> catalog
    \<Rightarrow> catalog \<times> (catalog_error + catalog_proposal)" where
  "createRollbackProposal env now proposer target description addresses g =
     (let current = currentPolicy g
      in if target = cp_version current then (g, Inl ROLLBACK_TARGET_IS_LIVE)
         else case policyVersion target g of
                Inl e \<Rightarrow> (g, Inl e)
              | Inr policy \<Rightarrow>
                  createProposal env now
                    \<lparr>ip_proposer = proposer, ip_description = rollback_description (cp_version current) target description,
                     ip_change = rollback_change current policy, ip_sourceAddresses = addresses\<rparr> g)"

definition overdue :: "int \<Rightarrow> catalog_proposal \<Rightarrow> bool" where
  "overdue now p \<longleftrightarrow> kp_status p = CatInReview \<and> now > kp_reviewDeadlineAt p"

definition sweepExpired :: "int \<Rightarrow> catalog \<Rightarrow> catalog \<times> nat" where
  "sweepExpired now g =
     (g\<lparr>cg_proposals := jm_map_values (\<lambda>p. if overdue now p then p\<lparr>kp_status := CatExpired\<rparr> else p) (cg_proposals g)\<rparr>,
      length (filter (overdue now) (jm_values (cg_proposals g))))"

subsection \<open>Invariant\<close>

text \<open>A proposal that passed review: enough approvals and nothing else, an impact report that does not block, and a timelock.\<close>

definition reviewed_well :: "catalog_proposal \<Rightarrow> bool" where
  "reviewed_well p \<longleftrightarrow>
     list_all (\<lambda>r. cr_decision r = Approve) (kp_reviews p) \<and> length (kp_reviews p) = kp_requiredApprovals p
     \<and> (\<exists>im. kp_impact p = Some im \<and> \<not> ci_approvalBlocked im)
     \<and> kp_timelockEndsAt p = Some (cr_at (last (kp_reviews p)) + timelock_of p)"

definition reviewers_ok :: "catalog_proposal \<Rightarrow> bool" where
  "reviewers_ok p \<longleftrightarrow> distinct (map cr_reviewer (kp_reviews p)) \<and> kp_proposer p \<notin> cr_reviewer ` set (kp_reviews p)
     \<and> kp_requiredApprovals p = (if kp_highImpact p then highImpactApprovals else requiredApprovals)"

definition status_ok :: "catalog_proposal \<Rightarrow> bool" where
  "status_ok p \<longleftrightarrow>
     (case kp_status p of
        CatInReview \<Rightarrow> list_all (\<lambda>r. cr_decision r = Approve) (kp_reviews p) \<and> length (kp_reviews p) < kp_requiredApprovals p
      | CatApproved \<Rightarrow> reviewed_well p
      | CatActivated \<Rightarrow> reviewed_well p \<and> (\<exists>t e. kp_activatedAt p = Some t \<and> kp_timelockEndsAt p = Some e \<and> e \<le> t)
      | _ \<Rightarrow> True)"

definition based_on :: "catalog_env \<Rightarrow> catalog_policy list \<Rightarrow> catalog_proposal \<Rightarrow> bool" where
  "based_on env vs p \<longleftrightarrow> (\<forall>f \<in> set (ch_upserts (kp_change p)). normalizeFeed f = f) \<and> (\<exists>k < length vs. ch_baseVersion (kp_change p) = Suc k
     \<and> kp_highImpact p = va_highImpact (validateCatalogChange (ce_collate env) (vs ! k) (kp_change p)))"

definition catalog_proposal_ok :: "catalog_env \<Rightarrow> catalog_policy list \<Rightarrow> nat \<Rightarrow> nat \<Rightarrow> catalog_proposal \<Rightarrow> bool" where
  "catalog_proposal_ok env vs n i p \<longleftrightarrow> kp_id p = i \<and> i \<le> n \<and> reviewers_ok p \<and> status_ok p \<and> based_on env vs p"

definition version_from :: "catalog_env \<Rightarrow> catalog_policy \<Rightarrow> catalog_policy \<Rightarrow> catalog_proposal \<Rightarrow> bool" where
  "version_from env before after p \<longleftrightarrow>
     kp_status p = CatActivated \<and> kp_activatedVersion p = Some (cp_version after) \<and> kp_activatedAt p = Some (cp_activatedAt after)
     \<and> ch_baseVersion (kp_change p) = cp_version before
     \<and> va_errors (validateCatalogChange (ce_collate env) before (kp_change p)) = []
     \<and> cp_feeds after = projectFeeds (ce_collate env) before (kp_change p)"

definition versions_ok :: "catalog_env \<Rightarrow> catalog \<Rightarrow> bool" where
  "versions_ok env g \<longleftrightarrow> cg_versions g \<noteq> [] \<and> (\<forall>k < length (cg_versions g). cp_version (cg_versions g ! k) = Suc k)
     \<and> (\<forall>k. Suc k < length (cg_versions g) \<longrightarrow>
          (\<exists>i p. cp_proposalId (cg_versions g ! Suc k) = Some i \<and> jm_get (cg_proposals g) i = Some p
                 \<and> version_from env (cg_versions g ! k) (cg_versions g ! Suc k) p))"

definition catalog_ok :: "catalog_env \<Rightarrow> catalog \<Rightarrow> bool" where
  "catalog_ok env g \<longleftrightarrow> versions_ok env g
     \<and> jm.all_stored (catalog_proposal_ok env (cg_versions g) (cg_proposalCount g)) (cg_proposals g)"

lemma catalog_okD:
  "catalog_ok env g \<Longrightarrow> jm_get (cg_proposals g) i = Some p \<Longrightarrow> catalog_proposal_ok env (cg_versions g) (cg_proposalCount g) i p"
  by (auto simp: catalog_ok_def dest: jm.all_storedD)

lemma based_on_append: "based_on env vs p \<Longrightarrow> based_on env (vs @ ws) p"
  unfolding based_on_def by (metis length_append nth_append trans_less_add1)

lemma current_version:
  "versions_ok env g \<Longrightarrow> currentPolicy g = cg_versions g ! (length (cg_versions g) - 1) \<and> cp_version (currentPolicy g) = length (cg_versions g)"
  by (cases "cg_versions g" rule: rev_cases) (auto simp: versions_ok_def currentPolicy_def last_conv_nth nth_append)

text \<open>Replacing a proposal that is not activated keeps the history.\<close>

lemma versions_ok_put:
  assumes "versions_ok env g" "\<And>p. jm_get (cg_proposals g) i = Some p \<Longrightarrow> kp_status p \<noteq> CatActivated"
  shows "versions_ok env (g\<lparr>cg_proposals := jm_set (cg_proposals g) i q, cg_proposalCount := n\<rparr>)"
proof -
  have "\<exists>j p. cp_proposalId (cg_versions g ! Suc k) = Some j \<and> jm_get (jm_set (cg_proposals g) i q) j = Some p
             \<and> version_from env (cg_versions g ! k) (cg_versions g ! Suc k) p" if k: "Suc k < length (cg_versions g)" for k
  proof -
    obtain j p where "cp_proposalId (cg_versions g ! Suc k) = Some j" "jm_get (cg_proposals g) j = Some p"
        "version_from env (cg_versions g ! k) (cg_versions g ! Suc k) p"
      using assms(1) k unfolding versions_ok_def by blast
    moreover then have "j \<noteq> i" using assms(2) by (auto simp: version_from_def)
    ultimately show ?thesis by auto
  qed
  then show ?thesis using assms(1) by (simp add: versions_ok_def)
qed

lemma catalog_ok_put:
  assumes ok: "catalog_ok env g" and get: "jm_get (cg_proposals g) i = Some p" and st: "kp_status p \<noteq> CatActivated"
    and q: "catalog_proposal_ok env (cg_versions g) (cg_proposalCount g) i q"
  shows "catalog_ok env (cg_put i q g)"
proof -
  have "versions_ok env (g\<lparr>cg_proposals := jm_set (cg_proposals g) i q, cg_proposalCount := cg_proposalCount g\<rparr>)"
    using ok get st by (intro versions_ok_put) (auto simp: catalog_ok_def)
  then show ?thesis using ok q by (simp add: catalog_ok_def cg_put_def jm.all_stored_put)
qed

lemma no_errors_base:
  "va_errors (validateCatalogChange collate current change) = [] \<Longrightarrow> ch_baseVersion change = cp_version current"
  by (simp add: validateCatalogChange_def Let_def normalizeChange_def err_def split: if_splits)

lemma catalog_ok_create:
  assumes ok: "catalog_ok env g"
  shows "catalog_ok env (fst (createProposal env now input g))"
proof (cases "snd (createProposal env now input g)")
  case (Inl e)
  then have "fst (createProposal env now input g) = g"
    by (auto simp: createProposal_def Let_def split: sum.splits if_splits)
  then show ?thesis using ok by simp
next
  case (Inr p)
  define i where "i = Suc (cg_proposalCount g)"
  define change where "change = normalizeChange (ce_collate env) (ip_change input)"
  define validation where "validation = validateCatalogChange (ce_collate env) (currentPolicy g) change"
  obtain proposer addresses plan where p: "p = new_proposal now i proposer (ip_description input) change validation addresses plan"
    and st: "fst (createProposal env now input g) = g\<lparr>cg_proposals := jm_set (cg_proposals g) i p, cg_proposalCount := i\<rparr>"
    and noerr: "va_errors validation = []"
    using Inr by (auto simp: createProposal_def Let_def i_def change_def validation_def split: sum.splits if_splits)
  have v: "versions_ok env g" using ok by (simp add: catalog_ok_def)
  have fresh: "jm_get (cg_proposals g) i = None"
    using catalog_okD [OF ok, of i] by (cases "jm_get (cg_proposals g) i") (auto simp: catalog_proposal_ok_def i_def)
  have "ch_baseVersion change = length (cg_versions g)"
    using no_errors_base [OF noerr [unfolded validation_def]] conjunct2 [OF current_version [OF v]] by (rule trans)
  moreover have "cg_versions g \<noteq> []" using v by (simp add: versions_ok_def)
  ultimately have "based_on env (cg_versions g) p"
    using current_version [OF v] unfolding based_on_def p new_proposal_def validation_def
    by (intro conjI exI [of _ "length (cg_versions g) - 1"]) (simp_all add: change_def upserts_normal)
  then have new: "catalog_proposal_ok env (cg_versions g) i i p"
    by (simp add: catalog_proposal_ok_def reviewers_ok_def status_ok_def p new_proposal_def requiredApprovals_def highImpactApprovals_def)
  have "jm.all_stored (catalog_proposal_ok env (cg_versions g) i) (cg_proposals g)"
    using ok by (auto simp: catalog_ok_def catalog_proposal_ok_def i_def intro: jm.all_stored_mono)
  then have "jm.all_stored (catalog_proposal_ok env (cg_versions g) i) (jm_set (cg_proposals g) i p)"
    using new by (rule jm.all_stored_put)
  moreover have "versions_ok env (g\<lparr>cg_proposals := jm_set (cg_proposals g) i p, cg_proposalCount := i\<rparr>)"
    using v by (rule versions_ok_put) (simp add: fresh)
  ultimately show ?thesis by (simp add: catalog_ok_def st)
qed

lemma catalog_ok_rollback: "catalog_ok env g \<Longrightarrow> catalog_ok env (fst (createRollbackProposal env now proposer target d a g))"
  by (simp add: createRollbackProposal_def Let_def catalog_ok_create split: sum.split)

lemma catalog_ok_impact:
  assumes ok: "catalog_ok env g"
  shows "catalog_ok env (fst (attachImpact i impact g))"
proof (cases "\<exists>p. jm_get (cg_proposals g) i = Some p \<and> kp_status p = CatInReview")
  case True
  then obtain p where p: "jm_get (cg_proposals g) i = Some p" "kp_status p = CatInReview" by blast
  have "catalog_proposal_ok env (cg_versions g) (cg_proposalCount g) i (p\<lparr>kp_impact := Some impact\<rparr>)"
    using catalog_okD [OF ok p(1)] p(2) by (simp add: catalog_proposal_ok_def reviewers_ok_def status_ok_def based_on_def)
  then show ?thesis using catalog_ok_put [OF ok p(1)] p by (simp add: attachImpact_def Let_def)
next
  case False
  then show ?thesis using ok by (auto simp: attachImpact_def split: option.split)
qed

text \<open>A review that is let through.\<close>

lemma review_recorded_ok:
  assumes ok: "catalog_proposal_ok env vs n i p" and st: "kp_status p = CatInReview"
    and completes: "completes = (decision = Approve \<and> approvals p + 1 \<ge> kp_requiredApprovals p)"
    and free: "review_blocked isRecused actor completes attested p = None"
  shows "catalog_proposal_ok env vs n i (review_recorded now actor decision completes p)"
proof -
  define q where "q = review_recorded now actor decision completes p"
  have revs: "kp_reviews q = kp_reviews p @ [\<lparr>cr_reviewer = actor, cr_decision = decision, cr_at = now\<rparr>]"
    and same: "kp_id q = kp_id p" "kp_proposer q = kp_proposer p" "kp_change q = kp_change p" "kp_highImpact q = kp_highImpact p"
      "kp_requiredApprovals q = kp_requiredApprovals p" "kp_impact q = kp_impact p"
    by (simp_all add: q_def review_recorded_def Let_def)
  have new: "actor \<noteq> kp_proposer p" "actor \<notin> cr_reviewer ` set (kp_reviews p)"
    using free by (auto simp: review_blocked_def list_ex_iff split: if_splits)
  have all: "list_all (\<lambda>r. cr_decision r = Approve) (kp_reviews p)" and lt: "length (kp_reviews p) < kp_requiredApprovals p"
    using ok st by (simp_all add: catalog_proposal_ok_def status_ok_def)
  have appr: "approvals p = length (kp_reviews p)"
    using all by (simp add: approvals_def list_all_iff)
  have "reviewers_ok q"
    using ok new by (auto simp: catalog_proposal_ok_def reviewers_ok_def revs same)
  moreover have "based_on env vs q"
    using ok by (simp add: catalog_proposal_ok_def based_on_def same)
  moreover have "status_ok q"
  proof (cases "decision = Reject")
    case True
    then show ?thesis by (simp add: status_ok_def q_def review_recorded_def Let_def)
  next
    case False
    then have d: "decision = Approve" by (cases decision) simp_all
    show ?thesis
    proof (cases completes)
      case True
      obtain im where im: "kp_impact p = Some im" "\<not> ci_approvalBlocked im"
        using free True by (auto simp: review_blocked_def Let_def split: if_splits option.splits)
      have "length (kp_reviews p) + 1 = kp_requiredApprovals p"
        using True completes appr lt by simp
      moreover have "kp_status q = CatApproved" "kp_timelockEndsAt q = Some (now + timelock_of p)"
        using True d by (simp_all add: q_def review_recorded_def Let_def)
      ultimately show ?thesis
        using im all d by (simp add: status_ok_def reviewed_well_def revs same timelock_of_def)
    next
      case False
      then have "length (kp_reviews p) + 1 < kp_requiredApprovals p" using completes d appr by simp
      moreover have "kp_status q = CatInReview" using False d st by (simp add: q_def review_recorded_def Let_def)
      ultimately show ?thesis using all d by (simp add: status_ok_def revs same)
    qed
  qed
  ultimately show ?thesis using ok by (simp add: catalog_proposal_ok_def q_def [symmetric] same)
qed

lemma catalog_proposal_ok_expire:
  "catalog_proposal_ok env vs n i p \<Longrightarrow> catalog_proposal_ok env vs n i (p\<lparr>kp_status := CatExpired\<rparr>)"
  by (simp add: catalog_proposal_ok_def reviewers_ok_def status_ok_def based_on_def)

lemma catalog_ok_review:
  assumes ok: "catalog_ok env g"
  shows "catalog_ok env (fst (recordReview isRecused now i reviewer decision attested g))"
proof (cases "\<exists>actor p. requireActor reviewer = Inr actor \<and> jm_get (cg_proposals g) i = Some p \<and> kp_status p = CatInReview")
  case False
  then show ?thesis using ok by (auto simp: recordReview_def split: sum.split option.split)
next
  case True
  then obtain actor p where a: "requireActor reviewer = Inr actor" and p: "jm_get (cg_proposals g) i = Some p"
    and st: "kp_status p = CatInReview" by blast
  note pok = catalog_okD [OF ok p]
  define completes where "completes = (decision = Approve \<and> approvals p + 1 \<ge> kp_requiredApprovals p)"
  have put: "catalog_ok env (cg_put i q g)" if "catalog_proposal_ok env (cg_versions g) (cg_proposalCount g) i q" for q
    using catalog_ok_put [OF ok p _ that] st by simp
  show ?thesis
  proof (cases "review_blocked isRecused actor completes attested p")
    case None
    show ?thesis
      using put [OF review_recorded_ok [OF pok st completes_def None]] put [OF catalog_proposal_ok_expire [OF pok]] a p st None
      by (simp add: recordReview_def Let_def completes_def)
  next
    case (Some e)
    show ?thesis
      using put [OF catalog_proposal_ok_expire [OF pok]] a p st Some ok
      by (simp add: recordReview_def Let_def completes_def)
  qed
qed

lemma catalog_ok_sweep:
  assumes ok: "catalog_ok env g"
  shows "catalog_ok env (fst (sweepExpired now g))"
proof -
  define f where "f p = (if overdue now p then p\<lparr>kp_status := CatExpired\<rparr> else p)" for p
  have keep: "version_from env a b p \<Longrightarrow> f p = p" for a b p
    by (simp add: f_def overdue_def version_from_def)
  have "jm.all_stored (catalog_proposal_ok env (cg_versions g) (cg_proposalCount g)) (jm_map_values f (cg_proposals g))"
    using ok by (auto simp: catalog_ok_def f_def catalog_proposal_ok_expire intro!: jm_all_stored_map_values)
  moreover have "\<exists>i p. cp_proposalId (cg_versions g ! Suc k) = Some i \<and> jm_get (jm_map_values f (cg_proposals g)) i = Some p
      \<and> version_from env (cg_versions g ! k) (cg_versions g ! Suc k) p" if k: "Suc k < length (cg_versions g)" for k
  proof -
    obtain i p where ip: "cp_proposalId (cg_versions g ! Suc k) = Some i" "jm_get (cg_proposals g) i = Some p"
        "version_from env (cg_versions g ! k) (cg_versions g ! Suc k) p"
      using ok k unfolding catalog_ok_def versions_ok_def by blast
    then show ?thesis using keep [OF ip(3)] by (intro exI [of _ i] exI [of _ p]) (simp add: jm_get_map_values)
  qed
  ultimately show ?thesis
    using ok by (simp add: catalog_ok_def versions_ok_def sweepExpired_def f_def [abs_def])
qed

lemma activation_checks:
  assumes "activation_blocked env isFrozen now current p executions = None"
  shows "kp_status p = CatApproved" "\<exists>e. kp_timelockEndsAt p = Some e \<and> e \<le> now"
    "va_errors (validateCatalogChange (ce_collate env) current (kp_change p)) = []"
    "assertExecutionsComplete p executions = None"
  using assms by (auto simp: activation_blocked_def Let_def split: if_splits option.splits)

definition activated :: "int \<Rightarrow> nat \<Rightarrow> string \<Rightarrow> on_chain_execution list \<Rightarrow> catalog_proposal \<Rightarrow> catalog_proposal" where
  "activated now version caller executions p =
     p\<lparr>kp_status := CatActivated, kp_activatedAt := Some now, kp_activatedVersion := Some version, kp_activatedBy := Some caller,
       kp_onChainExecutions := Some executions\<rparr>"

lemma catalog_ok_activation:
  assumes ok: "catalog_ok env g" and p: "jm_get (cg_proposals g) i = Some p"
    and free: "activation_blocked env isFrozen now (currentPolicy g) p executions = None"
    and nxt: "next' = applyCatalogChange (ce_collate env) now (kp_id p) (currentPolicy g) (kp_change p)"
    and q: "q = activated now (cp_version next') caller executions p"
  shows "catalog_ok env ((cg_put i q g)\<lparr>cg_versions := cg_versions g @ [next']\<rparr>)"
proof -
  let ?vs = "cg_versions g" and ?m = "jm_set (cg_proposals g) i q"
  note chk = activation_checks [OF free]
  have v: "versions_ok env g" using ok by (simp add: catalog_ok_def)
  note cur = current_version [OF v]
  have ne: "?vs \<noteq> []" using v by (simp add: versions_ok_def)
  have pok: "catalog_proposal_ok env ?vs (cg_proposalCount g) i p" by (rule catalog_okD [OF ok p])
  then have gid: "kp_id p = i" by (simp add: catalog_proposal_ok_def)
  have num: "cp_version next' = Suc (length ?vs)"
    by (simp only: nxt applyCatalogChange_def conjunct2 [OF cur] catalog_policy.simps Suc_eq_plus1)
  have "reviewed_well p" using pok chk(1) by (simp add: catalog_proposal_ok_def status_ok_def)
  then have "status_ok q"
    using chk(2) by (auto simp: status_ok_def q activated_def reviewed_well_def timelock_of_def)
  then have qok: "catalog_proposal_ok env (?vs @ [next']) (cg_proposalCount g) i q"
    using pok based_on_append [of env ?vs q]
    by (auto simp: catalog_proposal_ok_def reviewers_ok_def based_on_def q activated_def)
  have stored: "jm.all_stored (catalog_proposal_ok env (?vs @ [next']) (cg_proposalCount g)) ?m"
    using ok qok by (intro jm.all_stored_put)
      (auto simp: catalog_ok_def catalog_proposal_ok_def based_on_append intro: jm.all_stored_mono)
  have made: "version_from env (currentPolicy g) next' q"
    using chk(3) no_errors_base [OF chk(3)]
    by (simp add: version_from_def q activated_def nxt applyCatalogChange_def)
  have old: "versions_ok env (g\<lparr>cg_proposals := ?m, cg_proposalCount := cg_proposalCount g\<rparr>)"
    using v by (rule versions_ok_put) (use p chk(1) in auto)
  have "\<exists>j r. cp_proposalId ((?vs @ [next']) ! Suc k) = Some j \<and> jm_get ?m j = Some r
      \<and> version_from env ((?vs @ [next']) ! k) ((?vs @ [next']) ! Suc k) r" if k: "Suc k < length (?vs @ [next'])" for k
  proof (cases "Suc k < length ?vs")
    case True
    then show ?thesis using old by (auto simp: versions_ok_def nth_append)
  next
    case False
    then have k: "Suc k = length ?vs" using k by simp
    then have "(?vs @ [next']) ! k = currentPolicy g" using cur by (simp add: nth_append k [symmetric])
    moreover have "(?vs @ [next']) ! Suc k = next'" using k by (simp add: nth_append)
    moreover have "cp_proposalId next' = Some i" by (simp add: nxt applyCatalogChange_def gid)
    ultimately show ?thesis using made by auto
  qed
  moreover have "cp_version ((?vs @ [next']) ! k) = Suc k" if "k < length (?vs @ [next'])" for k
    using that v num by (auto simp: versions_ok_def nth_append less_Suc_eq)
  ultimately show ?thesis using stored by (simp add: catalog_ok_def versions_ok_def cg_put_def)
qed

lemma catalog_ok_activate:
  assumes ok: "catalog_ok env g"
  shows "catalog_ok env (fst (activate env isFrozen now i actor executions g))"
proof (cases "\<exists>caller p. requireActor actor = Inr caller \<and> jm_get (cg_proposals g) i = Some p
    \<and> activation_blocked env isFrozen now (currentPolicy g) p executions = None")
  case True
  then obtain caller p where a: "requireActor actor = Inr caller" and p: "jm_get (cg_proposals g) i = Some p"
    and free: "activation_blocked env isFrozen now (currentPolicy g) p executions = None" by blast
  show ?thesis
    using catalog_ok_activation [OF ok p free HOL.refl HOL.refl, of caller] a p free
    by (simp add: activate_def Let_def activated_def applyCatalogChange_def)
next
  case False
  then show ?thesis using ok by (auto simp: activate_def Let_def split: sum.split option.split)
qed

inductive catalog_step :: "catalog_env \<Rightarrow> catalog \<Rightarrow> catalog \<Rightarrow> bool" for env where
  create: "catalog_step env g (fst (createProposal env now input g))"
| rollback: "catalog_step env g (fst (createRollbackProposal env now proposer target d a g))"
| impact: "catalog_step env g (fst (attachImpact i im g))"
| review: "catalog_step env g (fst (recordReview isRecused now i reviewer decision attested g))"
| activation: "catalog_step env g (fst (activate env isFrozen now i actor executions g))"
| sweep: "catalog_step env g (fst (sweepExpired now g))"

definition catalog_reachable :: "catalog_env \<Rightarrow> feed_policy list \<Rightarrow> catalog \<Rightarrow> bool" where
  "catalog_reachable env genesis g \<longleftrightarrow> (catalog_step env)\<^sup>*\<^sup>* (newCatalogGovernance env genesis) g"

lemma catalog_reachable_init: "catalog_reachable env genesis (newCatalogGovernance env genesis)"
  by (simp add: catalog_reachable_def)

lemma catalog_reachable_step: "catalog_reachable env genesis g \<Longrightarrow> catalog_step env g g' \<Longrightarrow> catalog_reachable env genesis g'"
  unfolding catalog_reachable_def by (rule rtranclp.rtrancl_into_rtrancl)

lemmas catalog_reachable_intros = catalog_reachable_init catalog_reachable_step [OF _ catalog_step.create]
  catalog_reachable_step [OF _ catalog_step.rollback] catalog_reachable_step [OF _ catalog_step.impact]
  catalog_reachable_step [OF _ catalog_step.review] catalog_reachable_step [OF _ catalog_step.activation]
  catalog_reachable_step [OF _ catalog_step.sweep]

lemma catalog_ok_step: "catalog_step env g g' \<Longrightarrow> catalog_ok env g \<Longrightarrow> catalog_ok env g'"
  by (induction rule: catalog_step.induct)
    (simp_all add: catalog_ok_create catalog_ok_rollback catalog_ok_impact catalog_ok_review catalog_ok_activate catalog_ok_sweep)

lemma catalog_ok_steps: "(catalog_step env)\<^sup>*\<^sup>* g g' \<Longrightarrow> catalog_ok env g \<Longrightarrow> catalog_ok env g'"
  by (induction rule: rtranclp_induct) (auto intro: catalog_ok_step)

lemma catalog_ok_reachable: "catalog_reachable env genesis g \<Longrightarrow> catalog_ok env g"
  unfolding catalog_reachable_def
  by (erule catalog_ok_steps) (simp add: catalog_ok_def versions_ok_def newCatalogGovernance_def)

subsection \<open>Governed history\<close>

text \<open>(C26) Every policy version after the first was activated by a recorded proposal that was authored against exactly the
  version it replaced and is free of guard-rail errors there. The proposal was approved by distinct reviewers other than its
  author, three when the change has high impact on the replaced version and two otherwise, and the activation came at least
  48 or 24 hours after the last approval.\<close>

theorem catalog_versions_governed:
  assumes "catalog_reachable env genesis g" and "Suc k < length (cg_versions g)"
  shows "\<exists>i p. cp_proposalId (cg_versions g ! Suc k) = Some i \<and> jm_get (cg_proposals g) i = Some p
    \<and> cp_feeds (cg_versions g ! Suc k) = projectFeeds (ce_collate env) (cg_versions g ! k) (kp_change p)
    \<and> ch_baseVersion (kp_change p) = cp_version (cg_versions g ! k)
    \<and> va_errors (validateCatalogChange (ce_collate env) (cg_versions g ! k) (kp_change p)) = []
    \<and> distinct (map cr_reviewer (kp_reviews p)) \<and> kp_proposer p \<notin> cr_reviewer ` set (kp_reviews p)
    \<and> list_all (\<lambda>r. cr_decision r = Approve) (kp_reviews p)
    \<and> (let high = va_highImpact (validateCatalogChange (ce_collate env) (cg_versions g ! k) (kp_change p))
       in length (kp_reviews p) = (if high then 3 else 2)
          \<and> cr_at (last (kp_reviews p)) + (if high then 48 else 24) * 60 * 60 * 1000 \<le> cp_activatedAt (cg_versions g ! Suc k))"
proof -
  note ok = catalog_ok_reachable [OF assms(1)]
  then have v: "versions_ok env g" by (simp add: catalog_ok_def)
  obtain i p where i: "cp_proposalId (cg_versions g ! Suc k) = Some i" and p: "jm_get (cg_proposals g) i = Some p"
    and from_p: "version_from env (cg_versions g ! k) (cg_versions g ! Suc k) p"
    using v assms(2) unfolding versions_ok_def by blast
  have pok: "catalog_proposal_ok env (cg_versions g) (cg_proposalCount g) i p" by (rule catalog_okD [OF ok p])
  have "cp_version (cg_versions g ! k) = Suc k" using v assms(2) by (simp add: versions_ok_def)
  then have base: "ch_baseVersion (kp_change p) = Suc k" using from_p by (simp add: version_from_def)
  then have high: "kp_highImpact p = va_highImpact (validateCatalogChange (ce_collate env) (cg_versions g ! k) (kp_change p))"
    using pok by (auto simp: catalog_proposal_ok_def based_on_def)
  have st: "reviewed_well p" "\<exists>t e. kp_activatedAt p = Some t \<and> kp_timelockEndsAt p = Some e \<and> e \<le> t"
    using pok from_p by (simp_all add: catalog_proposal_ok_def status_ok_def version_from_def)
  have "cr_at (last (kp_reviews p)) + timelock_of p \<le> cp_activatedAt (cg_versions g ! Suc k)"
    using st from_p by (auto simp: reviewed_well_def version_from_def)
  moreover have "timelock_of p = (if kp_highImpact p then 48 else 24) * 60 * 60 * 1000"
    by (simp add: timelock_of_def timelockSeconds_def highImpactTimelockSeconds_def)
  ultimately have lock: "cr_at (last (kp_reviews p)) + (if kp_highImpact p then 48 else 24) * 60 * 60 * 1000
      \<le> cp_activatedAt (cg_versions g ! Suc k)" by simp
  have rev: "reviewers_ok p" using pok by (simp add: catalog_proposal_ok_def)
  show ?thesis
    using i p from_p st(1) rev lock
    by (intro exI [of _ i] exI [of _ p])
      (simp add: version_from_def reviewed_well_def reviewers_ok_def high [symmetric] Let_def
        requiredApprovals_def highImpactApprovals_def)
qed

lemma versions_kept:
  "cg_versions (fst (createProposal env now input g)) = cg_versions g"
  "cg_versions (fst (createRollbackProposal env now proposer target d a g)) = cg_versions g"
  "cg_versions (fst (attachImpact i im g)) = cg_versions g"
  "cg_versions (fst (recordReview isRecused now i reviewer decision attested g)) = cg_versions g"
  "cg_versions (fst (sweepExpired now g)) = cg_versions g"
proof -
  show c: "cg_versions (fst (createProposal env now input g)) = cg_versions g" for input
    by (simp add: createProposal_def Let_def split: sum.split)
  show "cg_versions (fst (createRollbackProposal env now proposer target d a g)) = cg_versions g"
    by (simp add: createRollbackProposal_def Let_def c split: sum.split)
qed (simp_all add: attachImpact_def recordReview_def sweepExpired_def cg_put_def Let_def split: sum.split option.split)

lemma versions_extended: "\<exists>ws. cg_versions (fst (activate env isFrozen now i actor executions g)) = cg_versions g @ ws"
  by (simp add: activate_def cg_put_def Let_def split: sum.split option.split)

lemma genesis_kept:
  assumes "catalog_reachable env genesis g"
  shows "\<exists>vs. cg_versions g = cg_versions (newCatalogGovernance env genesis) @ vs"
proof -
  have step: "\<exists>ws. cg_versions g' = cg_versions g @ ws" if "catalog_step env g g'" for g g'
    using that by (cases rule: catalog_step.cases) (simp_all add: versions_kept versions_extended)
  show ?thesis using assms unfolding catalog_reachable_def by (induction rule: rtranclp_induct) (auto dest: step)
qed

lemma valid_versions:
  assumes "\<forall>f \<in> set genesis. validateFeed (normalizeFeed f) = []" and reach: "catalog_reachable env genesis g"
  shows "k < length (cg_versions g) \<Longrightarrow> \<forall>f \<in> set (cp_feeds (cg_versions g ! k)). validateFeed f = [] \<and> normalizeFeed f = f"
proof (induction k)
  case 0
  then show ?case
    using assms(1) genesis_kept [OF reach] by (auto simp: newCatalogGovernance_def sort_feeds_def)
next
  case (Suc k)
  note ok = catalog_ok_reachable [OF reach]
  obtain i p where p: "jm_get (cg_proposals g) i = Some p"
    and from_p: "version_from env (cg_versions g ! k) (cg_versions g ! Suc k) p"
    using ok Suc.prems unfolding catalog_ok_def versions_ok_def by blast
  have normal: "\<forall>f \<in> set (ch_upserts (kp_change p)). normalizeFeed f = f"
    using catalog_okD [OF ok p] by (simp add: catalog_proposal_ok_def based_on_def)
  have "validateFeed f = []" if "f \<in> set (ch_upserts (kp_change p))" for f
  proof (rule no_errors_upserts)
    show "va_errors (validateCatalogChange (ce_collate env) (cg_versions g ! k) (kp_change p)) = []"
      using from_p by (simp add: version_from_def)
    show "f \<in> set (ch_upserts (normalizeChange (ce_collate env) (kp_change p)))"
      using that by (simp add: upserts_of_normal [OF normal])
  qed
  then show ?case
    using normal Suc projectFeeds_from [of "ce_collate env" "cg_versions g ! k" "kp_change p"] from_p
    unfolding version_from_def by auto
qed

text \<open>(C27) When the initial feeds are within the guard rails, so is every feed of every version ever made live: at least two
  distinct known sources, a minimum source count between two and their number, a deviation of 10 to 2000 basis points, a staleness
  of 10 to 3600 seconds, and a warning before it.\<close>

theorem catalog_guard_rails:
  assumes "\<forall>f \<in> set genesis. validateFeed (normalizeFeed f) = []" and "catalog_reachable env genesis g"
    and "policy \<in> set (cg_versions g)" and "f \<in> set (cp_feeds policy)"
  shows "distinct (cf_sources f) \<and> set (cf_sources f) \<subseteq> set CATALOG_SOURCES \<and> 2 \<le> length (cf_sources f)
    \<and> 2 \<le> cf_minSources f \<and> cf_minSources f \<le> rat_of_nat (length (cf_sources f))
    \<and> 10 \<le> cf_maxDeviationBps f \<and> cf_maxDeviationBps f \<le> 2000
    \<and> 10 \<le> cf_stalenessSeconds f \<and> cf_stalenessSeconds f \<le> 3600
    \<and> (\<exists>w. cf_freshnessWarnSeconds f = Some w \<and> 1 \<le> w \<and> w < cf_stalenessSeconds f)"
proof -
  obtain k where "k < length (cg_versions g)" "policy = cg_versions g ! k" using assms(3) by (metis in_set_conv_nth)
  then have v: "validateFeed f = []" and n: "normalizeFeed f = f"
    using valid_versions [OF assms(1,2)] assms(4) by auto
  have "distinct (cf_sources (normalizeFeed f))" by (simp add: normalizeFeed_def Let_def distinct_js_sort)
  then have "distinct (cf_sources f)" by (simp add: n)
  then show ?thesis using v validateFeed_bounds [OF v] by simp
qed

text \<open>The plan and the change of a proposal never change.\<close>

definition frozen_part :: "catalog_proposal \<Rightarrow> nat \<times> string \<times> policy_change \<times> on_chain_plan" where
  "frozen_part p = (kp_id p, kp_proposer p, kp_change p, kp_onChainPlan p)"

lemma frozen_part_create:
  assumes "catalog_ok env g" "jm_get (cg_proposals g) j = Some p"
  shows "jm_get (cg_proposals (fst (createProposal env now input g))) j = Some p"
proof -
  have "j \<noteq> Suc (cg_proposalCount g)" using catalog_okD [OF assms] by (simp add: catalog_proposal_ok_def)
  then show ?thesis using assms(2) by (simp add: createProposal_def Let_def split: sum.split)
qed

lemma frozen_part_step:
  assumes "catalog_step env g g'" "catalog_ok env g" "jm_get (cg_proposals g) j = Some p"
  shows "map_option frozen_part (jm_get (cg_proposals g') j) = Some (frozen_part p)"
  using assms
proof (induction rule: catalog_step.induct)
  case (review g isRecused now i reviewer decision attested)
  have rec: "frozen_part (review_recorded now actor decision completes q) = frozen_part q" for actor completes q
    by (simp add: review_recorded_def frozen_part_def Let_def)
  have exp: "frozen_part (q\<lparr>kp_status := CatExpired\<rparr>) = frozen_part q" for q by (simp add: frozen_part_def)
  show ?case using review(2)
    by (auto simp: recordReview_def cg_put_def Let_def jm_get_set rec exp split: sum.split option.split)
next
  case (activation g isFrozen now i actor executions)
  then show ?case
    by (auto simp: activate_def cg_put_def Let_def jm_get_set frozen_part_def split: sum.split option.split)
next
  case (create g now input)
  then show ?case by (simp add: frozen_part_create)
next
  case (rollback g now proposer target d a)
  then show ?case by (simp add: createRollbackProposal_def Let_def frozen_part_create split: sum.split)
next
  case (impact g i im)
  then show ?case by (auto simp: attachImpact_def cg_put_def Let_def jm_get_set frozen_part_def split: option.split)
next
  case (sweep g now)
  then show ?case by (simp add: sweepExpired_def jm_get_map_values frozen_part_def)
qed

lemma frozen_part_steps:
  assumes "(catalog_step env)\<^sup>*\<^sup>* g g'" "catalog_ok env g" "jm_get (cg_proposals g) j = Some p"
  shows "map_option frozen_part (jm_get (cg_proposals g') j) = Some (frozen_part p)"
  using assms
proof (induction rule: rtranclp_induct)
  case (step y z)
  then obtain q where q: "jm_get (cg_proposals y) j = Some q" "frozen_part q = frozen_part p" by auto
  show ?case using frozen_part_step [OF step(2) catalog_ok_steps [OF step(1) step(4)] q(1)] q(2) by simp
qed simp

subsection \<open>A concrete run\<close>

definition sample_env :: catalog_env where
  "sample_env = \<lparr>ce_collate = string_cmp, ce_order = (\<lambda>_ _. 0), ce_digest = (\<lambda>(as, ps). js_digits (length as) @ concat ps)\<rparr>"

definition sample_change :: policy_change where
  "sample_change = \<lparr>ch_baseVersion = 1, ch_kind = StandardChange,
     ch_upserts = [(hd GENESIS_FEEDS)\<lparr>cf_asset := '' xlm'', cf_maxDeviationBps := 100\<rparr>], ch_removals = []\<rparr>"

definition sample_impact :: catalog_impact where
  "sample_impact = \<lparr>ci_generatedAt = 0, ci_deterministicHash = ''h'', ci_risk = LowRisk, ci_approvalBlocked = False, ci_warnings = []\<rparr>"

definition sample_proposed :: catalog where
  "sample_proposed = fst (createProposal sample_env 1000
     \<lparr>ip_proposer = ''ann'', ip_description = ''tighten'', ip_change = sample_change, ip_sourceAddresses = None\<rparr>
     (newCatalogGovernance sample_env GENESIS_FEEDS))"

definition sample_approved :: catalog where
  "sample_approved =
     fst (recordReview (\<lambda>_ _. []) 3000 1 ''cid'' Approve True
       (fst (recordReview (\<lambda>_ _. []) 2000 1 ''bob'' Approve True (fst (attachImpact 1 sample_impact sample_proposed)))))"

definition sample_live :: catalog where
  "sample_live = fst (activate sample_env (\<lambda>_. False) 86403000 1 ''dan'' [] sample_approved)"

lemma sample_live_reachable: "catalog_reachable sample_env GENESIS_FEEDS sample_live"
  unfolding sample_live_def sample_approved_def sample_proposed_def by (intro catalog_reachable_intros)

lemma sample_live_versions: "map (\<lambda>p. (cp_version p, map cf_maxDeviationBps (cp_feeds p))) (cg_versions sample_live) = [(1, [50, 150]), (2, [50, 100])]"
  by code_simp

lemma genesis_valid: "list_all (\<lambda>f. validateFeed (normalizeFeed f) = []) GENESIS_FEEDS"
  by code_simp

lemma sample_live_length: "length (cg_versions sample_live) = 2"
  using arg_cong [OF sample_live_versions, of length] by simp

theorem catalog_versions_governed_witness:
  "catalog_reachable sample_env GENESIS_FEEDS sample_live \<and> Suc 0 < length (cg_versions sample_live)
    \<and> (\<exists>i p. cp_proposalId (cg_versions sample_live ! 1) = Some i \<and> jm_get (cg_proposals sample_live) i = Some p
        \<and> cp_feeds (cg_versions sample_live ! 1) = projectFeeds string_cmp (cg_versions sample_live ! 0) (kp_change p)
        \<and> distinct (map cr_reviewer (kp_reviews p)))"
proof -
  have l: "Suc 0 < length (cg_versions sample_live)" by (simp add: sample_live_length)
  have c: "ce_collate sample_env = string_cmp" by (simp add: sample_env_def)
  show ?thesis
    using catalog_versions_governed [OF sample_live_reachable l] l sample_live_reachable unfolding c One_nat_def by blast
qed

theorem catalog_guard_rails_witness:
  "catalog_reachable sample_env GENESIS_FEEDS sample_live
    \<and> (let f = hd (cp_feeds (cg_versions sample_live ! 1))
       in f \<in> set (cp_feeds (cg_versions sample_live ! 1)) \<and> 2 \<le> length (cf_sources f) \<and> cf_maxDeviationBps f \<le> 2000)"
proof -
  let ?p = "cg_versions sample_live ! 1"
  have p: "?p \<in> set (cg_versions sample_live)" by (simp add: sample_live_length)
  have "map cf_maxDeviationBps (cp_feeds ?p) = [50, 100]"
    using arg_cong [OF sample_live_versions, of "\<lambda>xs. snd (xs ! 1)"] by (simp add: sample_live_length)
  then have f: "hd (cp_feeds ?p) \<in> set (cp_feeds ?p)" by (cases "cp_feeds ?p") auto
  have g: "\<forall>f \<in> set GENESIS_FEEDS. validateFeed (normalizeFeed f) = []" using genesis_valid by (simp add: list_all_iff)
  show ?thesis
    using catalog_guard_rails [OF g sample_live_reachable p f] f sample_live_reachable by (simp add: Let_def)
qed

end
