(* ===== verification/Impact_Simulator.thy ===== *)
theory Impact_Simulator
  imports Catalog_Governance
begin

text \<open>
  The impact analysis of a catalog change, \<open>api/src/governance/impact-simulator.ts\<close>. Arithmetic is exact: numbers are
  rationals, so the rounding of IEEE doubles and the \<open>Number.EPSILON\<close> that compensates for it are left out, and
  every number is finite. The digest is an argument. The fixed texts of the rollback advice and the details of an API
  schema change are left out.
\<close>

record consumer =
  cn_id :: string
  cn_assets :: "string list"
  cn_tier :: "string option"

record cost_model =
  cm_pollIntervalSeconds :: rat
  cm_perSourceFetchCost :: rat
  cm_perOnChainPublishCost :: rat
  cm_currency :: "string option"

record margin_snapshot =
  ms_minSources :: rat
  ms_sourceDiversity :: int
  ms_deviationHeadroomBps :: rat
  ms_stalenessHeadroomSeconds :: rat

datatype impact_error = INVALID_CONSUMER | DUPLICATE_CONSUMER | INVALID_COST_MODEL

datatype schema_impact = Additive | Behavioral | Breaking

datatype schema_field = FeedField | QuoteUnitField | FreshnessProfileField

record impact_cost =
  ic_currency :: string
  ic_currentPerDay :: rat
  ic_proposedPerDay :: rat
  ic_deltaPerDay :: rat
  ic_deltaPerMonth :: rat
  ic_deltaPercent :: rat

record impact_report =
  ir_deterministicHash :: string
  ir_risk :: impact_risk
  ir_approvalBlocked :: bool
  ir_warnings :: "string list"
  ir_affectedFeeds :: catalog_diff
  ir_consumerIds :: "string list"
  ir_byTier :: "(string \<times> nat) list"
  ir_completeCoverage :: bool
  ir_cost :: impact_cost
  ir_currentMargins :: "margin_snapshot option"
  ir_proposedMargins :: "margin_snapshot option"
  ir_reduced :: "string list"
  ir_highImpact :: bool
  ir_sourceQuorum :: "(string \<times> (string list \<times> rat) \<times> (string list \<times> rat)) list"
  ir_apiSchemas :: "(string \<times> schema_field \<times> schema_impact) list"
  ir_rollbackTarget :: nat

definition blank_to_none :: "string option \<Rightarrow> string option" where
  "blank_to_none t = (case t of None \<Rightarrow> None | Some s \<Rightarrow> if js_trim s = [] then None else Some (js_trim s))"

fun consumers_from :: "string list \<Rightarrow> consumer list \<Rightarrow> impact_error + consumer list" where
  "consumers_from seen [] = Inr []"
| "consumers_from seen (c # cs) =
     (let i = js_trim (cn_id c)
      in if i = [] then Inl INVALID_CONSUMER
         else if i \<in> set seen then Inl DUPLICATE_CONSUMER
         else case consumers_from (i # seen) cs of
                Inl e \<Rightarrow> Inl e
              | Inr rest \<Rightarrow>
                  Inr (\<lparr>cn_id = i, cn_assets = js_sort string_cmp (remdups (map normalizeAsset (cn_assets c))),
                        cn_tier = blank_to_none (cn_tier c)\<rparr> # rest))"

definition normalizeConsumers :: "collation \<Rightarrow> consumer list \<Rightarrow> impact_error + consumer list" where
  "normalizeConsumers collate consumers =
     map_sum id (js_sort (\<lambda>a b. collate (cn_id a) (cn_id b))) (consumers_from [] consumers)"

definition validateCostModel :: "cost_model \<Rightarrow> impact_error + cost_model" where
  "validateCostModel model =
     (if cm_pollIntervalSeconds model \<le> 0 then Inl INVALID_COST_MODEL
      else if cm_perSourceFetchCost model < 0 then Inl INVALID_COST_MODEL
      else if cm_perOnChainPublishCost model < 0 then Inl INVALID_COST_MODEL
      else Inr (model\<lparr>cm_currency := Some (nullish (blank_to_none (cm_currency model)) ''USD'')\<rparr>))"

definition dailyCost :: "feed_policy list \<Rightarrow> cost_model \<Rightarrow> rat" where
  "dailyCost feeds model =
     (let pollsPerDay = 86400 / cm_pollIntervalSeconds model;
          perPoll = foldl (\<lambda>total f. total + rat_of_nat (length (cf_sources f)) * cm_perSourceFetchCost model
                             + cm_perOnChainPublishCost model) 0 (filter cf_enabled feeds)
      in perPoll * pollsPerDay)"

definition marginSnapshot :: "feed_policy list \<Rightarrow> margin_snapshot option" where
  "marginSnapshot feeds =
     (let enabled = filter cf_enabled feeds
      in if enabled = [] then None
         else Some \<lparr>ms_minSources = Min (set (map cf_minSources enabled)),
                    ms_sourceDiversity = Min (set (map (\<lambda>f. int (length (cf_sources f)) - int minSourceCount) enabled)),
                    ms_deviationHeadroomBps = Min (set (map (\<lambda>f. maxDeviationBps - cf_maxDeviationBps f) enabled)),
                    ms_stalenessHeadroomSeconds = Min (set (map (\<lambda>f. maxStalenessSeconds - cf_stalenessSeconds f) enabled))\<rparr>)"

definition compareMargins :: "margin_snapshot option \<Rightarrow> margin_snapshot option \<Rightarrow> string list" where
  "compareMargins current proposed =
     (case (current, proposed) of
        (Some c, Some p) \<Rightarrow> js_sort string_cmp
          ((if ms_minSources p < ms_minSources c then [''minSources''] else [])
           @ (if ms_sourceDiversity p < ms_sourceDiversity c then [''sourceDiversity''] else [])
           @ (if ms_deviationHeadroomBps p < ms_deviationHeadroomBps c then [''deviationHeadroomBps''] else [])
           @ (if ms_stalenessHeadroomSeconds p < ms_stalenessHeadroomSeconds c then [''stalenessHeadroomSeconds''] else []))
      | _ \<Rightarrow> [])"

definition unreachable :: "feed_policy \<Rightarrow> bool" where
  "unreachable f \<longleftrightarrow> cf_enabled f \<and> (rat_of_nat (length (cf_sources f)) < cf_minSources f
     \<or> cf_minSources f < rat_of_nat minSourceCount \<or> length (cf_sources f) < minSourceCount)"

definition unreachableFeeds :: "feed_policy list \<Rightarrow> string list" where
  "unreachableFeeds feeds = js_sort string_cmp (map cf_asset (filter unreachable feeds))"

definition sortDiff :: "catalog_diff \<Rightarrow> catalog_diff" where
  "sortDiff d = \<lparr>df_added = js_sort string_cmp (df_added d), df_removed = js_sort string_cmp (df_removed d),
     df_modified = js_sort string_cmp (df_modified d), df_unchanged = js_sort string_cmp (df_unchanged d)\<rparr>"

definition sortFeeds :: "collation \<Rightarrow> feed_policy list \<Rightarrow> feed_policy list" where
  "sortFeeds collate feeds = map (\<lambda>f. f\<lparr>cf_sources := js_sort string_cmp (cf_sources f)\<rparr>) (sort_feeds collate feeds)"

text \<open>\<open>Math.round\<close> at a number of decimals.\<close>

definition round_to :: "nat \<Rightarrow> rat \<Rightarrow> rat" where
  "round_to decimals v = of_int \<lfloor>v * 10 ^ decimals + 1 / 2\<rfloor> / 10 ^ decimals"

definition sourceQuorum :: "feed_policy list \<Rightarrow> feed_policy list \<Rightarrow> string list \<Rightarrow> (string \<times> (string list \<times> rat) \<times> (string list \<times> rat)) list" where
  "sourceQuorum before after assets =
     map (\<lambda>a. (a, (case jm_get (feeds_map before) a of None \<Rightarrow> ([], 0) | Some f \<Rightarrow> (cf_sources f, cf_minSources f)),
                 (case jm_get (feeds_map after) a of None \<Rightarrow> ([], 0) | Some f \<Rightarrow> (cf_sources f, cf_minSources f)))) assets"

definition quote_parts :: "feed_policy \<Rightarrow> (string \<times> string \<times> rat) option" where
  "quote_parts f = map_option (\<lambda>u. (qu_currency u, qu_denomination u, qu_scaleDecimals u)) (cf_quoteUnit f)"

definition quote_display :: "feed_policy \<Rightarrow> (rat \<times> string) option" where
  "quote_display f = map_option (\<lambda>u. (qu_displayDecimals u, qu_rounding u)) (cf_quoteUnit f)"

definition asset_schemas :: "feed_policy option \<Rightarrow> feed_policy option \<Rightarrow> (schema_field \<times> schema_impact) list" where
  "asset_schemas before after =
     (case (before, after) of
        (Some b, Some a) \<Rightarrow>
          (if quote_parts b \<noteq> quote_parts a then [(QuoteUnitField, Breaking)]
           else if quote_display b \<noteq> quote_display a then [(QuoteUnitField, Behavioral)] else [])
          @ (if cf_freshnessProfile b \<noteq> cf_freshnessProfile a \<or> cf_stalenessSeconds b \<noteq> cf_stalenessSeconds a
                \<or> cf_freshnessWarnSeconds b \<noteq> cf_freshnessWarnSeconds a then [(FreshnessProfileField, Behavioral)] else [])
      | (Some b, None) \<Rightarrow> [(FeedField, Breaking)]
      | (None, _) \<Rightarrow> [(FeedField, Additive)])"

definition apiSchemas :: "feed_policy list \<Rightarrow> feed_policy list \<Rightarrow> string list \<Rightarrow> (string \<times> schema_field \<times> schema_impact) list" where
  "apiSchemas before after assets =
     concat (map (\<lambda>a. map (\<lambda>e. (a, e)) (asset_schemas (jm_get (feeds_map before) a) (jm_get (feeds_map after) a))) assets)"

text \<open>The text of a finding code.\<close>

fun code_text :: "finding_code \<Rightarrow> string" where
  "code_text STALE_BASE_VERSION = ''STALE_BASE_VERSION''"
| "code_text EMPTY_CHANGE = ''EMPTY_CHANGE''"
| "code_text TOO_MANY_CHANGES = ''TOO_MANY_CHANGES''"
| "code_text DUPLICATE_ASSET = ''DUPLICATE_ASSET''"
| "code_text CONFLICTING_CHANGE = ''CONFLICTING_CHANGE''"
| "code_text UNKNOWN_FEED = ''UNKNOWN_FEED''"
| "code_text EMPTY_CATALOG = ''EMPTY_CATALOG''"
| "code_text NO_ENABLED_FEEDS = ''NO_ENABLED_FEEDS''"
| "code_text NO_OP_CHANGE = ''NO_OP_CHANGE''"
| "code_text INVALID_ASSET = ''INVALID_ASSET''"
| "code_text UNKNOWN_SOURCE = ''UNKNOWN_SOURCE''"
| "code_text INSUFFICIENT_SOURCES = ''INSUFFICIENT_SOURCES''"
| "code_text MIN_SOURCES_BELOW_FLOOR = ''MIN_SOURCES_BELOW_FLOOR''"
| "code_text MIN_SOURCES_EXCEEDS_SOURCES = ''MIN_SOURCES_EXCEEDS_SOURCES''"
| "code_text DEVIATION_OUT_OF_BOUNDS = ''DEVIATION_OUT_OF_BOUNDS''"
| "code_text STALENESS_OUT_OF_BOUNDS = ''STALENESS_OUT_OF_BOUNDS''"
| "code_text UNKNOWN_FRESHNESS_PROFILE = ''UNKNOWN_FRESHNESS_PROFILE''"
| "code_text FRESHNESS_WARNING_OUT_OF_BOUNDS = ''FRESHNESS_WARNING_OUT_OF_BOUNDS''"
| "code_text INVALID_QUOTE_SCALE = ''INVALID_QUOTE_SCALE''"
| "code_text INVALID_QUOTE_UNIT = ''INVALID_QUOTE_UNIT''"
| "code_text FEED_DISABLED = ''FEED_DISABLED''"
| "code_text FEED_ENABLED = ''FEED_ENABLED''"
| "code_text DEVIATION_LOOSENED = ''DEVIATION_LOOSENED''"
| "code_text STALENESS_LOOSENED = ''STALENESS_LOOSENED''"
| "code_text FRESHNESS_PROFILE_CHANGED = ''FRESHNESS_PROFILE_CHANGED''"
| "code_text MIN_SOURCES_REDUCED = ''MIN_SOURCES_REDUCED''"
| "code_text SOURCE_SET_REDUCED = ''SOURCE_SET_REDUCED''"
| "code_text QUOTE_SCALE_CHANGED = ''QUOTE_SCALE_CHANGED''"

definition finding_warnings :: "finding list \<Rightarrow> string list" where
  "finding_warnings findings =
     js_sort string_cmp (map (\<lambda>f. case gf_asset f of
         None \<Rightarrow> code_text (gf_code f) | Some a \<Rightarrow> if a = [] then code_text (gf_code f) else code_text (gf_code f) @ '' ('' @ a @ '')'')
       (filter (\<lambda>f. gf_severity f = WarningFinding) findings))"

fun count_tiers :: "string list \<Rightarrow> (string, nat) js_map \<Rightarrow> (string, nat) js_map" where
  "count_tiers [] m = m"
| "count_tiers (t # ts) m = count_tiers ts (jm_set m t (nullish (jm_get m t) 0 + 1))"

definition tiers_of :: "consumer list \<Rightarrow> string list \<Rightarrow> (string \<times> nat) list" where
  "tiers_of consumers exposed =
     (let m = count_tiers (map (\<lambda>c. nullish (cn_tier c) ''unclassified'') (filter (\<lambda>c. cn_id c \<in> set exposed) consumers)) []
      in map (\<lambda>t. (t, nullish (jm_get m t) 0)) (js_sort string_cmp (jm_keys m)))"

definition broad_exposure :: "nat \<Rightarrow> nat \<Rightarrow> bool" where
  "broad_exposure exposed consumers \<longleftrightarrow> exposed > 0 \<and> consumers > 0 \<and> exposed * 4 \<ge> consumers"

record impact_inputs =
  ii_current :: catalog_policy
  ii_nextFeeds :: "feed_policy list"
  ii_diff :: catalog_diff
  ii_findings :: "finding list"
  ii_highImpact :: bool
  ii_consumers :: "consumer list"
  ii_costModel :: cost_model

type_synonym impact_digest = "feed_policy list \<times> feed_policy list \<times> consumer list \<times> cost_model \<Rightarrow> string"

definition impact_of ::
  "collation \<Rightarrow> impact_digest \<Rightarrow> impact_inputs \<Rightarrow> consumer list \<Rightarrow> cost_model \<Rightarrow> impact_report" where
  "impact_of collate digest inputs consumers model =
     (let before = cp_feeds (ii_current inputs); after = ii_nextFeeds inputs;
          affected = sortDiff (ii_diff inputs);
          assets = remdups (df_added affected @ df_removed affected @ df_modified affected);
          sorted = js_sort string_cmp assets;
          exposed = map cn_id (filter (\<lambda>c. list_ex (\<lambda>a. a \<in> set assets) (cn_assets c)) consumers);
          currentCost = dailyCost before model;
          proposedCost = dailyCost after model;
          deltaPerDay = round_to 6 (proposedCost - currentCost);
          deltaPercent = (if currentCost = 0 then (if proposedCost = 0 then 0 else 100)
                          else round_to 4 (deltaPerDay / currentCost * 100));
          broad = broad_exposure (length exposed) (length consumers);
          warnings = finding_warnings (ii_findings inputs)
            @ (if consumers = [] then [''NO_CONSUMER_DATA''] else [])
            @ (if deltaPercent > 5 then [''COST_INCREASE_ABOVE_5_PERCENT''] else [])
            @ (if proposedCost > 0 \<and> deltaPercent > 25 then [''COST_INCREASE_ABOVE_25_PERCENT''] else [])
            @ (if broad then [''CONSUMER_COVERAGE_AT_LEAST_25_PERCENT''] else []);
          blocked = (unreachableFeeds after \<noteq> [])
      in \<lparr>ir_deterministicHash = digest (sortFeeds collate before, sortFeeds collate after, consumers, model),
          ir_risk = (if blocked then CriticalRisk
                     else if ii_highImpact inputs \<or> deltaPercent > 25 \<or> broad then HighRisk
                     else if warnings \<noteq> [] \<or> exposed \<noteq> [] \<or> deltaPerDay \<noteq> 0 then MediumRisk else LowRisk),
          ir_approvalBlocked = blocked, ir_warnings = js_sort string_cmp (remdups warnings), ir_affectedFeeds = affected,
          ir_consumerIds = js_sort string_cmp exposed, ir_byTier = tiers_of consumers exposed,
          ir_completeCoverage = (consumers \<noteq> []),
          ir_cost = \<lparr>ic_currency = nullish (cm_currency model) ''USD'', ic_currentPerDay = round_to 6 currentCost,
            ic_proposedPerDay = round_to 6 proposedCost, ic_deltaPerDay = deltaPerDay,
            ic_deltaPerMonth = round_to 6 (deltaPerDay * 30), ic_deltaPercent = deltaPercent\<rparr>,
          ir_currentMargins = marginSnapshot before, ir_proposedMargins = marginSnapshot after,
          ir_reduced = compareMargins (marginSnapshot before) (marginSnapshot after),
          ir_highImpact = ii_highImpact inputs, ir_sourceQuorum = sourceQuorum before after sorted,
          ir_apiSchemas = apiSchemas before after sorted, ir_rollbackTarget = cp_version (ii_current inputs)\<rparr>)"

definition simulateCatalogImpact :: "collation \<Rightarrow> impact_digest \<Rightarrow> impact_inputs \<Rightarrow> impact_error + impact_report" where
  "simulateCatalogImpact collate digest inputs =
     (case normalizeConsumers collate (ii_consumers inputs) of
        Inl e \<Rightarrow> Inl e
      | Inr consumers \<Rightarrow>
          (case validateCostModel (ii_costModel inputs) of
             Inl e \<Rightarrow> Inl e
           | Inr model \<Rightarrow> Inr (impact_of collate digest inputs consumers model)))"

subsection \<open>The impact gate\<close>

text \<open>The guard rails of a feed already imply that it is reachable, so a report on guarded feeds never blocks an approval.\<close>

lemma guarded_feed_reachable: "validateFeed f = [] \<Longrightarrow> \<not> unreachable f"
  using validateFeed_bounds [of f] by (auto simp: unreachable_def minSourceCount_def)

lemma impact_not_blocked:
  assumes "simulateCatalogImpact collate digest inputs = Inr report" "\<forall>f \<in> set (ii_nextFeeds inputs). validateFeed f = []"
  shows "\<not> ir_approvalBlocked report"
proof -
  have "unreachableFeeds (ii_nextFeeds inputs) = []"
  proof -
    have "filter unreachable (ii_nextFeeds inputs) = []" using assms(2) guarded_feed_reachable by (auto simp: filter_empty_conv)
    then show ?thesis by (simp add: unreachableFeeds_def js_sort_def)
  qed
  then show ?thesis using assms(1) by (auto simp: simulateCatalogImpact_def impact_of_def Let_def split: sum.splits)
qed

end
