(* ===== verification/Catalog_Routes.thy ===== *)
theory Catalog_Routes
  imports Impact_Simulator Emergency_Actions Proposals
begin

text \<open>
  The governance HTTP surface, \<open>api/src/governance/catalog-governance-routes.ts\<close>, as operations on the three stores
  that the router wires together: the catalog, the conflict-of-interest register and the emergency registry. A
  request carries the API key it authenticated with and a body that its schema has typed; what a schema demands beyond
  types is a predicate. Audit records, logging and the rendering of responses are left out.

  A handler that reads the clock several times takes the readings it needs. The loop over the feeds of an
  activation reads it once. Activation waits for the verification of each on-chain action, so it takes the stores
  when the request arrives and the stores when the last answer is in.
\<close>

record stores =
  st_catalog :: catalog
  st_coi :: coi_register
  st_emergency :: registry

datatype route_error =
    InvalidRequest | InvalidId | CatalogFailure catalog_error | CoiFailure coi_error | EmergencyFailure emergency_error
  | ImpactFailure impact_error | NotEligible coi_error | OnChainActionMismatch nat nat | ImpactNotAvailable

definition actorOf :: "string option \<Rightarrow> string" where
  "actorOf apiKey = (case apiKey of None \<Rightarrow> ''anonymous''
     | Some k \<Rightarrow> if take 16 k = [] then ''anonymous'' else take 16 k)"

definition newStores :: "catalog_env \<Rightarrow> feed_policy list \<Rightarrow> coi_register \<Rightarrow> stores" where
  "newStores env genesisFeeds coi =
     \<lparr>st_catalog = newCatalogGovernance env genesisFeeds, st_coi = coi, st_emergency = newRegistry\<rparr>"

text \<open>The wiring: who is recused, and which feeds are frozen.\<close>

definition coi_isRecused :: "int \<Rightarrow> coi_register \<Rightarrow> string \<Rightarrow> recusal_request \<Rightarrow> string list" where
  "coi_isRecused now coi = (\<lambda>actor request. map cd_id (snd (recusalReasons now actor request coi)))"

definition emergency_isFrozen :: "int \<Rightarrow> registry \<Rightarrow> string \<Rightarrow> bool" where
  "emergency_isFrozen now r = (\<lambda>asset. snd (isFrozen now asset r))"

subsection \<open>Schemas\<close>

definition feedPolicySchema :: "feed_policy \<Rightarrow> bool" where
  "feedPolicySchema f \<longleftrightarrow> 1 \<le> length (cf_sources f) \<and> length (cf_sources f) \<le> 8 \<and> isInteger (cf_minSources f)
     \<and> isInteger (cf_maxDeviationBps f) \<and> isInteger (cf_stalenessSeconds f)
     \<and> (case cf_freshnessWarnSeconds f of None \<Rightarrow> True | Some w \<Rightarrow> isInteger w)
     \<and> (case cf_quoteUnit f of None \<Rightarrow> True
        | Some u \<Rightarrow> qu_currency u \<in> set QUOTE_CURRENCIES \<and> isInteger (qu_scaleDecimals u) \<and> isInteger (qu_displayDecimals u)
            \<and> qu_rounding u \<in> {''half-up'', ''half-even'', ''down''})"

definition changeSchema :: "policy_change \<Rightarrow> bool" where
  "changeSchema c \<longleftrightarrow> ch_baseVersion c > 0 \<and> length (ch_upserts c) \<le> 100 \<and> list_all feedPolicySchema (ch_upserts c)
     \<and> length (ch_removals c) \<le> 100"

definition sourceAddressesSchema :: "(string, string) js_map option \<Rightarrow> bool" where
  "sourceAddressesSchema a \<longleftrightarrow> list_all (\<lambda>v. v \<noteq> []) (jm_values (nullish a []))"

definition createProposalSchema :: "string \<Rightarrow> policy_change \<Rightarrow> (string, string) js_map option \<Rightarrow> bool" where
  "createProposalSchema description change addresses \<longleftrightarrow> 1 \<le> length description \<and> length description \<le> 2000
     \<and> changeSchema change \<and> sourceAddressesSchema addresses"

definition impactSchema :: "consumer list \<Rightarrow> cost_model option \<Rightarrow> bool" where
  "impactSchema consumers model \<longleftrightarrow> length consumers \<le> 10000 \<and> list_all (\<lambda>c. cn_id c \<noteq> []) consumers
     \<and> (case model of None \<Rightarrow> True
        | Some m \<Rightarrow> cm_pollIntervalSeconds m > 0 \<and> cm_perSourceFetchCost m \<ge> 0 \<and> cm_perOnChainPublishCost m \<ge> 0)"

definition activationSchema :: "(nat \<times> nat) list \<Rightarrow> bool" where
  "activationSchema executions \<longleftrightarrow> length executions \<le> 200 \<and> list_all (\<lambda>(_, j). j > 0) executions"

definition DEFAULT_COST_MODEL :: cost_model where
  "DEFAULT_COST_MODEL = \<lparr>cm_pollIntervalSeconds = 30, cm_perSourceFetchCost = 4 / 10000, cm_perOnChainPublishCost = 2 / 1000,
     cm_currency = Some ''USD''\<rparr>"

subsection \<open>Catalog handlers\<close>

definition route_propose ::
  "catalog_env \<Rightarrow> int \<Rightarrow> string option \<Rightarrow> string \<Rightarrow> policy_change \<Rightarrow> (string, string) js_map option \<Rightarrow> stores
    \<Rightarrow> stores \<times> (route_error + catalog_proposal)" where
  "route_propose env now apiKey description change addresses s =
     (if \<not> createProposalSchema description change addresses then (s, Inl InvalidRequest)
      else let (c, r) = createProposal env now \<lparr>ip_proposer = actorOf apiKey, ip_description = description,
                 ip_change = change, ip_sourceAddresses = addresses\<rparr> (st_catalog s)
           in (s\<lparr>st_catalog := c\<rparr>, map_sum CatalogFailure id r))"

definition review_request :: "catalog_proposal \<Rightarrow> recusal_request" where
  "review_request p = (remdups (ch_removals (kp_change p) @ map cf_asset (ch_upserts (kp_change p))),
     remdups (concat (map cf_sources (ch_upserts (kp_change p)))))"

text \<open>Whether a catalog review got as far as asking for recusal reasons, which sweeps the register.\<close>

fun recusal_asked :: "catalog_error + catalog_proposal \<Rightarrow> bool" where
  "recusal_asked (Inr p) = True"
| "recusal_asked (Inl (CatalogConflictOfInterest rs)) = True"
| "recusal_asked (Inl IMPACT_ANALYSIS_REQUIRED) = True"
| "recusal_asked (Inl IMPACT_ANALYSIS_BLOCKED) = True"
| "recusal_asked (Inl _) = False"

definition route_review ::
  "int \<Rightarrow> int \<Rightarrow> int \<Rightarrow> int \<Rightarrow> string option \<Rightarrow> nat \<Rightarrow> catalog_decision \<Rightarrow> bool \<Rightarrow> stores \<Rightarrow> stores \<times> (route_error + catalog_proposal)" where
  "route_review t1 t2 t3 t4 apiKey i decision attested s =
     (if i = 0 then (s, Inl InvalidId)
      else case getProposal i (st_catalog s) of
        Inl e \<Rightarrow> (s, Inl (CatalogFailure e))
      | Inr existing \<Rightarrow>
          (case checkEligibility t1 t2 (actorOf apiKey) (review_request existing) (st_coi s) of
             (coi, Inl e) \<Rightarrow> (s\<lparr>st_coi := coi\<rparr>, Inl (NotEligible e))
           | (coi, Inr _) \<Rightarrow>
               let (c, r) = recordReview (coi_isRecused t4 coi) t3 i (actorOf apiKey) decision attested (st_catalog s)
               in (s\<lparr>st_catalog := c, st_coi := (if recusal_asked r then fst (coi_sweep t4 coi) else coi)\<rparr>,
                   map_sum CatalogFailure id r)))"

definition summary_of :: "int \<Rightarrow> impact_report \<Rightarrow> catalog_impact" where
  "summary_of now r = \<lparr>ci_generatedAt = now, ci_deterministicHash = ir_deterministicHash r, ci_risk = ir_risk r,
     ci_approvalBlocked = ir_approvalBlocked r, ci_warnings = ir_warnings r\<rparr>"

definition route_impact ::
  "catalog_env \<Rightarrow> impact_digest \<Rightarrow> int \<Rightarrow> nat \<Rightarrow> consumer list \<Rightarrow> cost_model option \<Rightarrow> stores \<Rightarrow> stores \<times> (route_error + catalog_proposal)" where
  "route_impact env digest now i consumers model s =
     (if i = 0 then (s, Inl InvalidId)
      else if \<not> impactSchema consumers model then (s, Inl InvalidRequest)
      else case getProposal i (st_catalog s) of
        Inl e \<Rightarrow> (s, Inl (CatalogFailure e))
      | Inr p \<Rightarrow>
          let current = currentPolicy (st_catalog s);
              validation = validateCatalogChange (ce_collate env) current (kp_change p)
          in (case simulateCatalogImpact (ce_collate env) digest
                     \<lparr>ii_current = current, ii_nextFeeds = va_nextFeeds validation, ii_diff = va_diff validation,
                      ii_findings = va_findings validation, ii_highImpact = kp_highImpact p, ii_consumers = consumers,
                      ii_costModel = nullish model DEFAULT_COST_MODEL\<rparr> of
                Inl e \<Rightarrow> (s, Inl (ImpactFailure e))
              | Inr report \<Rightarrow>
                  let (c, r) = attachImpact i (summary_of now report) (st_catalog s)
                  in (s\<lparr>st_catalog := c\<rparr>, map_sum CatalogFailure id r)))"

definition route_get_impact :: "nat \<Rightarrow> stores \<Rightarrow> route_error + catalog_impact" where
  "route_get_impact i s =
     (if i = 0 then Inl InvalidId
      else case getProposal i (st_catalog s) of
        Inl e \<Rightarrow> Inl (CatalogFailure e)
      | Inr p \<Rightarrow> (case kp_impact p of None \<Rightarrow> Inl ImpactNotAvailable | Some im \<Rightarrow> Inr im))"

text \<open>The action of the multi-signature store that an action of the plan stands for. Its threshold is an integer.\<close>

fun toProposalAction :: "on_chain_action \<Rightarrow> proposal_action option" where
  "toProposalAction (PlanSetTrustedAsset asset trusted) = Some (SetTrustedAsset asset (if trusted then 1 else 0))"
| "toProposalAction (PlanAddSource source name) = Some (AddSource source name)"
| "toProposalAction (PlanRemoveSource source) = Some (RemoveSource source)"
| "toProposalAction (PlanSetDeviationThreshold bps) = (if isInteger bps then Some (SetDeviationThreshold \<lfloor>bps\<rfloor>) else None)"

definition defaultVerifyOnChainAction :: "proposal_state \<Rightarrow> on_chain_action \<Rightarrow> nat \<Rightarrow> bool" where
  "defaultVerifyOnChainAction ps action onChainProposalId =
     (case getMultiSigProposal onChainProposalId ps of
        None \<Rightarrow> False
      | Some p \<Rightarrow> mp_executed p = 1 \<and> toProposalAction action = Some (mp_action p))"

fun verify_executions :: "(on_chain_action \<Rightarrow> nat \<Rightarrow> bool) \<Rightarrow> on_chain_action list \<Rightarrow> (nat \<times> nat) list \<Rightarrow> (nat \<times> nat) option" where
  "verify_executions verify actions [] = None"
| "verify_executions verify actions ((k, j) # es) =
     (if k < length actions \<and> \<not> verify (actions ! k) j then Some (k, j) else verify_executions verify actions es)"

definition to_execution :: "nat \<times> nat \<Rightarrow> on_chain_execution" where
  "to_execution e = \<lparr>ex_actionIndex = rat_of_nat (fst e), ex_onChainProposalId = rat_of_nat (snd e)\<rparr>"

text \<open>Whether an activation got as far as asking which feeds are frozen, which sweeps the emergency registry.\<close>

fun freeze_asked :: "catalog_error + catalog_proposal \<Rightarrow> bool" where
  "freeze_asked (Inr p) = True"
| "freeze_asked (Inl (EMERGENCY_OVERRIDE_ACTIVE a)) = True"
| "freeze_asked (Inl ON_CHAIN_EXECUTION_INVALID) = True"
| "freeze_asked (Inl ON_CHAIN_EXECUTION_INCOMPLETE) = True"
| "freeze_asked (Inl _) = False"

definition route_activate ::
  "catalog_env \<Rightarrow> (on_chain_action \<Rightarrow> nat \<Rightarrow> bool) \<Rightarrow> int \<Rightarrow> int \<Rightarrow> string option \<Rightarrow> nat \<Rightarrow> (nat \<times> nat) list \<Rightarrow> stores \<Rightarrow> stores
    \<Rightarrow> stores \<times> (route_error + catalog_proposal)" where
  "route_activate env verify t1 t2 apiKey i executions s0 s =
     (if i = 0 then (s, Inl InvalidId)
      else if \<not> activationSchema executions then (s, Inl InvalidRequest)
      else case getProposal i (st_catalog s0) of
        Inl e \<Rightarrow> (s, Inl (CatalogFailure e))
      | Inr p \<Rightarrow>
          (case verify_executions verify (pl_actions (kp_onChainPlan p)) executions of
             Some (k, j) \<Rightarrow> (s, Inl (OnChainActionMismatch k j))
           | None \<Rightarrow>
               let (c, r) = activate env (emergency_isFrozen t2 (st_emergency s)) t1 i (actorOf apiKey)
                              (map to_execution executions) (st_catalog s)
               in (s\<lparr>st_catalog := c, st_emergency := (if freeze_asked r then swept t2 (st_emergency s) else st_emergency s)\<rparr>,
                   map_sum CatalogFailure id r)))"

definition route_rollback ::
  "catalog_env \<Rightarrow> int \<Rightarrow> string option \<Rightarrow> nat \<Rightarrow> string option \<Rightarrow> (string, string) js_map option \<Rightarrow> stores
    \<Rightarrow> stores \<times> (route_error + catalog_proposal)" where
  "route_rollback env now apiKey target description addresses s =
     (if target = 0 \<or> length (nullish description []) > 2000 \<or> \<not> sourceAddressesSchema addresses then (s, Inl InvalidRequest)
      else let (c, r) = createRollbackProposal env now (actorOf apiKey) target description addresses (st_catalog s)
           in (s\<lparr>st_catalog := c\<rparr>, map_sum CatalogFailure id r))"

subsection \<open>Register and emergency handlers\<close>

definition route_declare :: "int \<Rightarrow> string option \<Rightarrow> declare_input \<Rightarrow> stores \<Rightarrow> stores \<times> (route_error + coi_disclosure)" where
  "route_declare now apiKey input s =
     (if dc_counterparty input = [] \<or> length (dc_counterparty input) > 120 \<or> length (nullish (dc_details input) []) > 2000
      then (s, Inl InvalidRequest)
      else let (c, r) = coi_declare now (input\<lparr>dc_actor := actorOf apiKey\<rparr>) (st_coi s)
           in (s\<lparr>st_coi := c\<rparr>, map_sum CoiFailure id r))"

definition route_withdraw :: "int \<Rightarrow> string option \<Rightarrow> string \<Rightarrow> stores \<Rightarrow> stores \<times> (route_error + coi_disclosure)" where
  "route_withdraw now apiKey i s =
     (let (c, r) = coi_withdraw now i (actorOf apiKey) (st_coi s) in (s\<lparr>st_coi := c\<rparr>, map_sum CoiFailure id r))"

definition route_attest :: "int \<Rightarrow> string option \<Rightarrow> string option \<Rightarrow> stores \<Rightarrow> stores \<times> (route_error + coi_attestation)" where
  "route_attest now apiKey statement s =
     (if length (nullish statement []) > 500 then (s, Inl InvalidRequest)
      else let (c, r) = coi_attest now (actorOf apiKey) statement (st_coi s) in (s\<lparr>st_coi := c\<rparr>, map_sum CoiFailure id r))"

definition route_emergency_review ::
  "int \<Rightarrow> int \<Rightarrow> int \<Rightarrow> int \<Rightarrow> int \<Rightarrow> int \<Rightarrow> string option \<Rightarrow> nat \<Rightarrow> review_decision \<Rightarrow> bool \<Rightarrow> stores
    \<Rightarrow> stores \<times> (route_error + emergency_action)" where
  "route_emergency_review t0 t1 t2 t3 t4 t5 apiKey i decision attested s =
     (if i = 0 then (s, Inl InvalidId)
      else case er_get t0 i (st_emergency s) of
        (em, Inl e) \<Rightarrow> (s\<lparr>st_emergency := em\<rparr>, Inl (EmergencyFailure e))
      | (em, Inr existing) \<Rightarrow>
          (case checkEligibility t1 t2 (actorOf apiKey) (recusalRequestFor existing) (st_coi s) of
             (coi, Inl e) \<Rightarrow> (s\<lparr>st_emergency := em, st_coi := coi\<rparr>, Inl (NotEligible e))
           | (coi, Inr _) \<Rightarrow>
               let (em', r) = er_review (coi_isRecused t5 coi) t3 t4 i (actorOf apiKey) decision attested em
               in (s\<lparr>st_emergency := em',
                     st_coi := (if r = Inl CONFLICT_OF_INTEREST \<or> \<not> isl r then fst (coi_sweep t5 coi) else coi)\<rparr>,
                   map_sum EmergencyFailure id r)))"

text \<open>The router gives the registry no reader of the live policy version, so every action records version 1.\<close>

definition route_emergency_open :: "int \<Rightarrow> int \<Rightarrow> string option \<Rightarrow> open_input \<Rightarrow> stores \<Rightarrow> stores \<times> (route_error + emergency_action)" where
  "route_emergency_open t1 t2 apiKey input s =
     (if map_of RESTRICTIVE_KINDS (oi_kind input) = None \<or> oi_reason input = [] \<or> length (oi_reason input) > 500
         \<or> (case oi_asset input of None \<Rightarrow> False | Some a \<Rightarrow> a = [] \<or> length a > 12)
         \<or> (case oi_source input of None \<Rightarrow> False | Some a \<Rightarrow> a = [] \<or> length a > 64)
         \<or> (case oi_durationSeconds input of None \<Rightarrow> False | Some (Fin d) \<Rightarrow> \<not> isInteger d \<or> d \<le> 0 | Some _ \<Rightarrow> True)
      then (s, Inl InvalidRequest)
      else let (em, r) = er_open 1 t1 t2 (input\<lparr>oi_actor := actorOf apiKey\<rparr>) (st_emergency s)
           in (s\<lparr>st_emergency := em\<rparr>, map_sum EmergencyFailure id r))"

definition route_emergency_renew ::
  "int \<Rightarrow> int \<Rightarrow> string option \<Rightarrow> nat \<Rightarrow> expiry_text option \<Rightarrow> js_num option \<Rightarrow> stores \<Rightarrow> stores \<times> (route_error + emergency_action)" where
  "route_emergency_renew t1 t2 apiKey i expiresAt durationSeconds s =
     (if (case durationSeconds of None \<Rightarrow> False | Some (Fin d) \<Rightarrow> \<not> isInteger d \<or> d \<le> 0 | Some _ \<Rightarrow> True) then (s, Inl InvalidRequest)
      else if i = 0 then (s, Inl InvalidId)
      else let (em, r) = er_renew t1 t2 i (actorOf apiKey) expiresAt durationSeconds (st_emergency s)
           in (s\<lparr>st_emergency := em\<rparr>, map_sum EmergencyFailure id r))"

definition route_emergency_revoke :: "int \<Rightarrow> int \<Rightarrow> string option \<Rightarrow> nat \<Rightarrow> string option \<Rightarrow> stores \<Rightarrow> stores \<times> (route_error + emergency_action)" where
  "route_emergency_revoke t1 t2 apiKey i reason s =
     (if length (nullish reason []) > 500 then (s, Inl InvalidRequest)
      else if i = 0 then (s, Inl InvalidId)
      else let (em, r) = er_revoke t1 t2 i (actorOf apiKey) reason (st_emergency s)
           in (s\<lparr>st_emergency := em\<rparr>, map_sum EmergencyFailure id r))"

definition route_emergency_disclose :: "int \<Rightarrow> int \<Rightarrow> string option \<Rightarrow> nat \<Rightarrow> string \<Rightarrow> stores \<Rightarrow> stores \<times> (route_error + emergency_action)" where
  "route_emergency_disclose t1 t2 apiKey i summary0 s =
     (if summary0 = [] \<or> length summary0 > 2000 then (s, Inl InvalidRequest)
      else if i = 0 then (s, Inl InvalidId)
      else let (em, r) = er_publishDisclosure t1 t2 i summary0 (actorOf apiKey) (st_emergency s)
           in (s\<lparr>st_emergency := em\<rparr>, map_sum EmergencyFailure id r))"

subsection \<open>Requests as steps of the catalog\<close>

inductive stores_reachable :: "catalog_env \<Rightarrow> feed_policy list \<Rightarrow> stores \<Rightarrow> bool" for env genesis where
  start: "stores_reachable env genesis (newStores env genesis coi)"
| propose: "stores_reachable env genesis s \<Longrightarrow> stores_reachable env genesis (fst (route_propose env now key d change a s))"
| review: "stores_reachable env genesis s \<Longrightarrow> stores_reachable env genesis (fst (route_review t1 t2 t3 t4 key i decision attested s))"
| impact: "stores_reachable env genesis s \<Longrightarrow> stores_reachable env genesis (fst (route_impact env digest now i consumers model s))"
| activation: "stores_reachable env genesis s \<Longrightarrow> stores_reachable env genesis (fst (route_activate env verify t1 t2 key i executions s0 s))"
| rollback: "stores_reachable env genesis s \<Longrightarrow> stores_reachable env genesis (fst (route_rollback env now key target text' a s))"
| declares: "stores_reachable env genesis s \<Longrightarrow> stores_reachable env genesis (fst (route_declare now key input s))"
| withdraw: "stores_reachable env genesis s \<Longrightarrow> stores_reachable env genesis (fst (route_withdraw now key j s))"
| attest: "stores_reachable env genesis s \<Longrightarrow> stores_reachable env genesis (fst (route_attest now key statement s))"
| emergency_open: "stores_reachable env genesis s \<Longrightarrow> stores_reachable env genesis (fst (route_emergency_open t1 t2 key oi s))"
| emergency_review: "stores_reachable env genesis s \<Longrightarrow>
    stores_reachable env genesis (fst (route_emergency_review t0 t1 t2 t3 t4 t5 key i verdict attested s))"
| emergency_renew: "stores_reachable env genesis s \<Longrightarrow> stores_reachable env genesis (fst (route_emergency_renew t1 t2 key i e dur s))"
| emergency_revoke: "stores_reachable env genesis s \<Longrightarrow> stores_reachable env genesis (fst (route_emergency_revoke t1 t2 key i reason s))"
| emergency_disclose: "stores_reachable env genesis s \<Longrightarrow> stores_reachable env genesis (fst (route_emergency_disclose t1 t2 key i text' s))"

lemma route_catalog:
  "st_catalog (fst (route_declare now key input s)) = st_catalog s"
  "st_catalog (fst (route_withdraw now key j s)) = st_catalog s"
  "st_catalog (fst (route_attest now key statement s)) = st_catalog s"
  "st_catalog (fst (route_emergency_open t1 t2 key oi s)) = st_catalog s"
  "st_catalog (fst (route_emergency_review t0 t1 t2 t3 t4 t5 key i verdict attested s)) = st_catalog s"
  "st_catalog (fst (route_emergency_renew t1 t2 key i e dur s)) = st_catalog s"
  "st_catalog (fst (route_emergency_revoke t1 t2 key i reason s)) = st_catalog s"
  "st_catalog (fst (route_emergency_disclose t1 t2 key i text' s)) = st_catalog s"
  by (simp_all add: route_declare_def route_withdraw_def route_attest_def route_emergency_open_def route_emergency_review_def
      route_emergency_renew_def route_emergency_revoke_def route_emergency_disclose_def Let_def case_prod_unfold split: sum.split)

lemma route_catalog_step:
  "st_catalog (fst (route_propose env now key d change a s)) = st_catalog s
    \<or> catalog_step env (st_catalog s) (st_catalog (fst (route_propose env now key d change a s)))"
  "st_catalog (fst (route_review t1 t2 t3 t4 key i decision attested s)) = st_catalog s
    \<or> catalog_step env (st_catalog s) (st_catalog (fst (route_review t1 t2 t3 t4 key i decision attested s)))"
  "st_catalog (fst (route_impact env digest now i consumers model s)) = st_catalog s
    \<or> catalog_step env (st_catalog s) (st_catalog (fst (route_impact env digest now i consumers model s)))"
  "st_catalog (fst (route_activate env verify t1 t2 key i executions s0 s)) = st_catalog s
    \<or> catalog_step env (st_catalog s) (st_catalog (fst (route_activate env verify t1 t2 key i executions s0 s)))"
  "st_catalog (fst (route_rollback env now key target text' a s)) = st_catalog s
    \<or> catalog_step env (st_catalog s) (st_catalog (fst (route_rollback env now key target text' a s)))"
  by (auto simp: route_propose_def route_review_def route_impact_def route_activate_def route_rollback_def Let_def
      case_prod_unfold catalog_step.intros split: sum.splits option.splits)

lemma stores_catalog_reachable: "stores_reachable env genesis s \<Longrightarrow> catalog_reachable env genesis (st_catalog s)"
proof (induction rule: stores_reachable.induct)
  case (start coi)
  show ?case by (simp add: newStores_def catalog_reachable_init)
next
  case (propose s now key d change a)
  then show ?case using route_catalog_step(1) [of env now key d change a s] by (auto intro: catalog_reachable_step)
next
  case (review s t1 t2 t3 t4 key i decision attested)
  then show ?case using route_catalog_step(2) [of t1 t2 t3 t4 key i decision attested s env] by (auto intro: catalog_reachable_step)
next
  case (impact s digest now i consumers model)
  then show ?case using route_catalog_step(3) [of env digest now i consumers model s] by (auto intro: catalog_reachable_step)
next
  case (activation s verify t1 t2 key i executions s0)
  then show ?case using route_catalog_step(4) [of env verify t1 t2 key i executions s0 s] by (auto intro: catalog_reachable_step)
next
  case (rollback s now key target text' a)
  then show ?case using route_catalog_step(5) [of env now key target text' a s] by (auto intro: catalog_reachable_step)
qed (simp_all add: route_catalog)

subsection \<open>Review and recusal\<close>

lemma map_sum_Inr_iff [simp]: "map_sum f id x = Inr y \<longleftrightarrow> x = Inr y"
  by (cases x) auto

lemma review_accepted_checks:
  assumes "recordReview isRecused now i reviewer decision attested g = (g', Inr q)"
  obtains p where "jm_get (cg_proposals g) i = Some p" "js_trim reviewer \<noteq> []" "js_trim reviewer \<noteq> kp_proposer p"
    "isRecused (js_trim reviewer) (cat_recusalRequest p) = []"
    "kp_reviews q = kp_reviews p @ [\<lparr>cr_reviewer = js_trim reviewer, cr_decision = decision, cr_at = now\<rparr>]"
proof -
  obtain p where p: "jm_get (cg_proposals g) i = Some p" and r: "js_trim reviewer \<noteq> []"
    using assms by (auto simp: recordReview_def requireActor_def split: if_splits option.splits)
  define completes where "completes = (decision = catalog_decision.Approve \<and> approvals p + 1 \<ge> kp_requiredApprovals p)"
  have "review_blocked isRecused (js_trim reviewer) completes attested p = None"
    and q: "q = review_recorded now (js_trim reviewer) decision completes p"
    using assms p r by (auto simp: recordReview_def requireActor_def Let_def completes_def split: if_splits option.splits)
  then have "js_trim reviewer \<noteq> kp_proposer p" "isRecused (js_trim reviewer) (cat_recusalRequest p) = []"
    by (auto simp: review_blocked_def Let_def split: if_splits)
  then show ?thesis using that [OF p r] q by (simp add: review_recorded_def Let_def)
qed

text \<open>A person has a conflict when a disclosure of theirs that was not withdrawn matches the decision.\<close>

definition conflicted :: "coi_register \<Rightarrow> string \<Rightarrow> recusal_request \<Rightarrow> bool" where
  "conflicted r actor request \<longleftrightarrow>
     (\<exists>d \<in> set (jm_values (co_disclosures r)). cd_actor d = actor \<and> cd_status d \<noteq> CoiWithdrawn \<and> coi_matches request d)"

lemma conflicted_sweep: "conflicted (fst (coi_sweep now r)) actor request \<longleftrightarrow> conflicted r actor request"
proof -
  have m: "coi_matches request (lapse now d) = coi_matches request d" for d
    by (cases "cd_scope d") (simp_all add: coi_matches_def lapse_keeps)
  show ?thesis by (auto simp: conflicted_def coi_sweep_def Let_def jm_values_map_values lapse_keeps m)
qed

lemma coi_isRecused_conflicted: "coi_isRecused now r actor request = [] \<longleftrightarrow> \<not> conflicted r actor request"
  using recusalReasons_exact [of now actor request r] by (auto simp: coi_isRecused_def conflicted_def)

lemma eligible_register:
  assumes "checkEligibility t1 t2 actor request r = (r', Inr u)"
  shows "fst (attestationStatus t1 actor r)" "r' = fst (coi_sweep t2 r)" "\<not> conflicted r actor request"
  using assms recusalReasons_exact [of t2 actor request r]
  by (auto simp: checkEligibility_def conflicted_def recusalReasons_def Let_def split: if_splits prod.splits)

text \<open>(C29) A catalog review that the endpoint accepts was made by someone other than the author, who holds a valid
  attestation and has no disclosure, current or expired, that matches a feed or a source of the change; it is
  recorded under their credential.\<close>

theorem accepted_review_independent:
  assumes "route_review t1 t2 t3 t4 apiKey i decision attested s = (s', Inr q)"
  shows "\<exists>p. jm_get (cg_proposals (st_catalog s)) i = Some p \<and> js_trim (actorOf apiKey) \<noteq> kp_proposer p
    \<and> fst (attestationStatus t1 (actorOf apiKey) (st_coi s))
    \<and> \<not> conflicted (st_coi s) (js_trim (actorOf apiKey)) (cat_recusalRequest p)
    \<and> kp_reviews q = kp_reviews p @ [\<lparr>cr_reviewer = js_trim (actorOf apiKey), cr_decision = decision, cr_at = t3\<rparr>]"
proof -
  obtain existing coi u where e: "getProposal i (st_catalog s) = Inr existing"
      "checkEligibility t1 t2 (actorOf apiKey) (review_request existing) (st_coi s) = (coi, Inr u)"
    and r: "snd (recordReview (coi_isRecused t4 coi) t3 i (actorOf apiKey) decision attested (st_catalog s)) = Inr q"
    using assms by (auto simp: route_review_def Let_def split: if_splits sum.splits prod.splits)
  note el = eligible_register [OF e(2)]
  obtain g' where "recordReview (coi_isRecused t4 coi) t3 i (actorOf apiKey) decision attested (st_catalog s) = (g', Inr q)"
    using r by (metis prod.collapse)
  then show ?thesis
  proof (rule review_accepted_checks)
    fix p
    assume "jm_get (cg_proposals (st_catalog s)) i = Some p" "js_trim (actorOf apiKey) \<noteq> kp_proposer p"
      "coi_isRecused t4 coi (js_trim (actorOf apiKey)) (cat_recusalRequest p) = []"
      "kp_reviews q = kp_reviews p @ [\<lparr>cr_reviewer = js_trim (actorOf apiKey), cr_decision = decision, cr_at = t3\<rparr>]"
    then show ?thesis using el by (auto simp: coi_isRecused_conflicted conflicted_sweep)
  qed
qed

subsection \<open>Activation and the multi-signature store\<close>

lemma executions_from_indices:
  "executions_from n seen es = Inr seen' \<Longrightarrow> distinct seen \<Longrightarrow>
    distinct seen' \<and> set seen' = set seen \<union> ex_actionIndex ` set es \<and> (\<forall>e \<in> set es. ex_actionIndex e < rat_of_nat n)"
  by (induction n seen es arbitrary: seen' rule: executions_from.induct) (auto split: if_splits)

text \<open>Complete executions name every action of the plan.\<close>

lemma executions_complete:
  assumes "assertExecutionsComplete p (map to_execution executions) = None" "k < length (pl_actions (kp_onChainPlan p))"
  shows "\<exists>j. (k, j) \<in> set executions"
proof -
  define n where "n = length (pl_actions (kp_onChainPlan p))"
  obtain seen where s: "executions_from n [] (map to_execution executions) = Inr seen" "length seen = n"
    using assms(1) by (auto simp: assertExecutionsComplete_def Let_def n_def split: sum.splits if_splits)
  note ind = executions_from_indices [OF s(1)]
  have im: "set seen = rat_of_nat ` fst ` set executions" using ind by (simp add: to_execution_def image_image)
  have sub: "fst ` set executions \<subseteq> {..<n}" using ind by (auto simp: to_execution_def)
  have "card (fst ` set executions) = card (set seen)" unfolding im by (simp add: card_image inj_on_def)
  also have "\<dots> = n" using ind s(2) distinct_card [of seen] by simp
  finally have "fst ` set executions = {..<n}" using sub by (simp add: card_subset_eq)
  then have "k \<in> fst ` set executions" using assms(2) by (simp add: n_def)
  then show ?thesis by force
qed

lemma verify_executions_None:
  "verify_executions verify actions es = None \<Longrightarrow> (k, j) \<in> set es \<Longrightarrow> k < length actions \<Longrightarrow> verify (actions ! k) j"
  by (induction verify actions es rule: verify_executions.induct) (auto split: if_splits)

definition touched :: "catalog_env \<Rightarrow> catalog_policy \<Rightarrow> policy_change \<Rightarrow> string set" where
  "touched env current change =
     (let d = va_diff (validateCatalogChange (ce_collate env) current change) in set (df_added d @ df_removed d @ df_modified d))"

lemma activation_result:
  assumes "activate env frozen now i actor executions g = (g', Inr q)"
  obtains p where "jm_get (cg_proposals g) i = Some p" "frozen_part q = frozen_part p"
    "assertExecutionsComplete p executions = None" "\<forall>a \<in> touched env (currentPolicy g) (kp_change p). \<not> frozen a"
    "cg_versions g' = cg_versions g @ [applyCatalogChange (ce_collate env) now (kp_id p) (currentPolicy g) (kp_change p)]"
proof -
  obtain p caller where p: "jm_get (cg_proposals g) i = Some p" "requireActor actor = Inr caller"
    and free: "activation_blocked env frozen now (currentPolicy g) p executions = None"
    using assms by (auto simp: activate_def Let_def split: sum.splits option.splits)
  have "find frozen (df_added d @ df_removed d @ df_modified d) = None"
    if "d = va_diff (validateCatalogChange (ce_collate env) (currentPolicy g) (kp_change p))" for d
    using free unfolding that by (auto simp: activation_blocked_def Let_def split: if_splits option.splits)
  then have "\<forall>a \<in> touched env (currentPolicy g) (kp_change p). \<not> frozen a"
    by (auto simp: touched_def Let_def find_None_iff)
  moreover have "frozen_part q = frozen_part p"
      "cg_versions g' = cg_versions g @ [applyCatalogChange (ce_collate env) now (kp_id p) (currentPolicy g) (kp_change p)]"
    using assms p free by (auto simp: activate_def Let_def frozen_part_def)
  ultimately show ?thesis using that p(1) activation_checks(4) [OF free] by blast
qed

text \<open>(C28) When the endpoint activates a change, every action of its on-chain plan is carried by an executed multi-signature
  proposal with exactly that action and the approvals of at least the threshold of different configured signers, no feed the
  change touches is frozen by an emergency action, and the live policy is the former one with the change applied. This holds
  whatever happened to the catalog while the actions were being verified.\<close>

theorem activation_carried_on_chain:
  assumes "getMultiSigConfig (proposal_calls cs) = Some config"
    and "catalog_reachable env genesis (st_catalog s0)" and "(catalog_step env)\<^sup>*\<^sup>* (st_catalog s0) (st_catalog s)"
    and "route_activate env (defaultVerifyOnChainAction (proposal_calls cs)) t1 t2 apiKey i executions s0 s = (s', Inr q)"
  shows "(\<forall>k < length (pl_actions (kp_onChainPlan q)). \<exists>j m. (k, j) \<in> set executions
        \<and> getMultiSigProposal j (proposal_calls cs) = Some m \<and> mp_executed m = 1
        \<and> toProposalAction (pl_actions (kp_onChainPlan q) ! k) = Some (mp_action m)
        \<and> set (mp_approvals m) \<subseteq> set (mc_signers config) \<and> mc_threshold config \<le> int (card (set (mp_approvals m))))
    \<and> (\<forall>a \<in> touched env (currentPolicy (st_catalog s)) (kp_change q). \<not> snd (isFrozen t2 a (st_emergency s)))
    \<and> cp_feeds (currentPolicy (st_catalog s')) = projectFeeds (ce_collate env) (currentPolicy (st_catalog s)) (kp_change q)"
proof -
  define ps where "ps = proposal_calls cs"
  obtain p0 g' where p0: "jm_get (cg_proposals (st_catalog s0)) i = Some p0"
    and ver: "verify_executions (defaultVerifyOnChainAction ps) (pl_actions (kp_onChainPlan p0)) executions = None"
    and act: "activate env (emergency_isFrozen t2 (st_emergency s)) t1 i (actorOf apiKey) (map to_execution executions) (st_catalog s)
               = (g', Inr q)" and g': "st_catalog s' = g'"
    using assms(4) unfolding ps_def [symmetric]
    by (auto simp: route_activate_def getProposal_def Let_def split: if_splits option.splits prod.splits)
  from act show ?thesis
  proof (rule activation_result)
    fix p
    assume p: "jm_get (cg_proposals (st_catalog s)) i = Some p" and q: "frozen_part q = frozen_part p"
      and done': "assertExecutionsComplete p (map to_execution executions) = None"
      and thaw: "\<forall>a \<in> touched env (currentPolicy (st_catalog s)) (kp_change p). \<not> emergency_isFrozen t2 (st_emergency s) a"
      and vs: "cg_versions g' = cg_versions (st_catalog s)
        @ [applyCatalogChange (ce_collate env) t1 (kp_id p) (currentPolicy (st_catalog s)) (kp_change p)]"
    have "frozen_part p = frozen_part p0"
      using frozen_part_steps [OF assms(3) catalog_ok_reachable [OF assms(2)] p0] p by simp
    then have same: "kp_onChainPlan q = kp_onChainPlan p0" "kp_onChainPlan q = kp_onChainPlan p" "kp_change q = kp_change p"
      using q by (simp_all add: frozen_part_def)
    have "\<exists>j m. (k, j) \<in> set executions \<and> getMultiSigProposal j ps = Some m \<and> mp_executed m = 1
        \<and> toProposalAction (pl_actions (kp_onChainPlan q) ! k) = Some (mp_action m)
        \<and> set (mp_approvals m) \<subseteq> set (mc_signers config) \<and> mc_threshold config \<le> int (card (set (mp_approvals m)))"
      if k: "k < length (pl_actions (kp_onChainPlan q))" for k
    proof -
      obtain j where j: "(k, j) \<in> set executions" using executions_complete [OF done'] k same(2) by auto
      have "defaultVerifyOnChainAction ps (pl_actions (kp_onChainPlan q) ! k) j"
        using verify_executions_None [OF ver j] k same(1) by simp
      then obtain m where m: "getMultiSigProposal j ps = Some m" "mp_executed m = 1"
          "toProposalAction (pl_actions (kp_onChainPlan q) ! k) = Some (mp_action m)"
        by (auto simp: defaultVerifyOnChainAction_def split: option.splits)
      have "msig_ok config m"
        using msig_ok_get [OF multisigs_ok_calls [of cs]] assms(1) m(1)
        by (simp add: getMultiSigConfig_def getMultiSigProposal_def ps_def)
      then show ?thesis using j m by (auto simp: msig_ok_def distinct_card)
    qed
    then show ?thesis using thaw vs same g'
      by (auto simp: ps_def emergency_isFrozen_def currentPolicy_def applyCatalogChange_def)
  qed
qed

text \<open>An executed proposal stays a valid proof of its action whatever is executed afterwards, until the signers are
  configured anew: nothing marks it as used, and nothing compares it with the time of the plan.\<close>

lemma on_chain_evidence_never_consumed:
  assumes "defaultVerifyOnChainAction ps action j" "\<And>config. c \<noteq> InitMultiSig config" "j \<le> ps_msigProposalCount ps"
  shows "defaultVerifyOnChainAction (proposal_step c ps) action j"
proof (cases "on_governance c")
  case True
  then show ?thesis using assms(1) governance_keeps_multisigs [OF True, of ps]
    by (simp add: defaultVerifyOnChainAction_def getMultiSigProposal_def)
next
  case False
  then show ?thesis using assms
    by (cases c) (auto simp: defaultVerifyOnChainAction_def getMultiSigProposal_def createMultiSigProposal_def approveProposal_def
        executeMultiSigProposal_def Let_def jm_get_set split: option.splits)
qed

subsection \<open>A concrete run\<close>

abbreviation sample_signers :: "proposal_call list" where
  "sample_signers \<equiv> [InitMultiSig \<lparr>mc_signers = [''a'', ''b''], mc_threshold = 2\<rparr>,
     CreateMultiSig 0 ''a'' (SetDeviationThreshold 50), proposal_call.Approve ''b'' 1, ExecuteMultiSig ''a'' 1]"

definition sample_digest :: impact_digest where
  "sample_digest = (\<lambda>(b, a, c, m). js_digits (length b + length a))"

definition sample_stores :: stores where
  "sample_stores =
     fst (route_attest 0 (Some ''admin_cid'') None
      (fst (route_attest 0 (Some ''admin_bob'') None
        (fst (route_impact sample_env sample_digest 900 1 [] None
          (fst (route_propose sample_env 800 (Some ''admin_ann'') ''align'' \<lparr>ch_baseVersion = 1, ch_kind = StandardChange,
                 ch_upserts = [(hd GENESIS_FEEDS)\<lparr>cf_maxDeviationBps := 50\<rparr>], ch_removals = []\<rparr> None
             (newStores sample_env GENESIS_FEEDS (newCoiRegister None)))))))))"

definition sample_first_review :: "stores \<times> (route_error + catalog_proposal)" where
  "sample_first_review = route_review 1000 1000 1000 1000 (Some ''admin_bob'') 1 catalog_decision.Approve True sample_stores"

definition sample_reviewed :: stores where
  "sample_reviewed = fst (route_review 2000 2000 2000 2000 (Some ''admin_cid'') 1 catalog_decision.Approve True (fst sample_first_review))"

definition sample_activation :: "stores \<times> (route_error + catalog_proposal)" where
  "sample_activation = route_activate sample_env (defaultVerifyOnChainAction (proposal_calls sample_signers)) 86402000 86402000
     (Some ''admin_dan'') 1 [(0, 1)] sample_reviewed sample_reviewed"

lemma sample_first_review_ok: "\<not> isl (snd sample_first_review)"
  by code_simp

lemma sample_activation_ok:
  "(case snd sample_activation of Inl _ \<Rightarrow> None | Inr q \<Rightarrow> Some (pl_actions (kp_onChainPlan q))) = Some [PlanSetDeviationThreshold 50]"
  by code_simp

lemma sample_reachable: "stores_reachable sample_env GENESIS_FEEDS sample_reviewed"
  unfolding sample_reviewed_def sample_first_review_def sample_stores_def by (intro stores_reachable.intros)

theorem accepted_review_independent_witness:
  "\<exists>q. snd sample_first_review = Inr q \<and> kp_reviews q \<noteq> [] \<and> cr_reviewer (last (kp_reviews q)) = js_trim (actorOf (Some ''admin_bob''))"
proof -
  obtain s' q where q: "sample_first_review = (s', Inr q)"
    using sample_first_review_ok by (metis isl_def prod.collapse sum.exhaust_sel sum.collapse(2))
  have "snd sample_first_review = snd (s', (Inr q :: route_error + catalog_proposal))" by (rule arg_cong [OF q])
  then have "snd sample_first_review = Inr q" unfolding snd_conv .
  then show ?thesis using accepted_review_independent [OF q [unfolded sample_first_review_def]]
    by (intro exI [of _ q]) auto
qed

theorem activation_carried_on_chain_witness:
  "\<exists>q. snd sample_activation = Inr q \<and> pl_actions (kp_onChainPlan q) = [PlanSetDeviationThreshold 50]
    \<and> (\<exists>m. getMultiSigProposal 1 (proposal_calls sample_signers) = Some m \<and> mp_executed m = 1
        \<and> 2 \<le> int (card (set (mp_approvals m))))"
proof -
  obtain s' q where q: "sample_activation = (s', Inr q)" and a: "pl_actions (kp_onChainPlan q) = [PlanSetDeviationThreshold 50]"
    using sample_activation_ok by (metis (no_types, lifting) option.inject option.simps(3) old.sum.exhaust prod.collapse sum.case(1,2))
  have "snd sample_activation = snd (s', (Inr q :: route_error + catalog_proposal))" by (rule arg_cong [OF q])
  then have sq: "snd sample_activation = Inr q" unfolding snd_conv .
  have c: "getMultiSigConfig (proposal_calls sample_signers) = Some \<lparr>mc_signers = [''a'', ''b''], mc_threshold = 2\<rparr>"
    by code_simp
  note r = stores_catalog_reachable [OF sample_reachable]
  show ?thesis
    using activation_carried_on_chain [OF c r rtranclp.rtrancl_refl q [unfolded sample_activation_def]] sq a
    by (intro exI [of _ q]) auto
qed

end
