(* ===== verification/Soroban_Env.thy ===== *)
theory Soroban_Env
  imports Js_Prelude "HOL-Library.Word"
begin

text \<open>
  What the contract crate \<open>contracts/price-oracle\<close> shares: the machine integers of Rust with their
  checked and saturating operations, the errors of \<open>errors.rs\<close>, the stored types of \<open>types.rs\<close>, the events
  of \<open>events.rs\<close> and the storage keys used by more than one contract.

  A contract call takes the environment (ledger time and the addresses that authorised the call) and the
  storage, and returns either a failure or its value with the new storage. The host discards every write
  of a failing call, so a failure carries no storage. The crate is built with \<open>overflow-checks\<close>, so an
  overflowing plain operation is a \<open>Trap\<close>. Storage of one contract instance is a record with a field per
  key; an absent key is \<open>None\<close>. The expiry of entries and the rent paid for them are not part of the state.
\<close>

subsection \<open>Machine integers\<close>

type_synonym u32 = "32 word"
type_synonym u64 = "64 word"
type_synonym u128 = "128 word"
type_synonym i128 = "128 word"

definition saturating_add :: "'a::len word \<Rightarrow> 'a word \<Rightarrow> 'a word" where
  "saturating_add x y = (if uint x + uint y < 2 ^ LENGTH('a) then x + y else -1)"

definition saturating_sub :: "'a::len word \<Rightarrow> 'a word \<Rightarrow> 'a word" where
  "saturating_sub x y = (if y \<le> x then x - y else 0)"

definition saturating_mul :: "'a::len word \<Rightarrow> 'a word \<Rightarrow> 'a word" where
  "saturating_mul x y = (if uint x * uint y < 2 ^ LENGTH('a) then x * y else -1)"

definition unsigned_abs :: "'a::len word \<Rightarrow> 'a word" where
  "unsigned_abs x = word_of_int \<bar>sint x\<bar>"

definition in_signed :: "nat \<Rightarrow> int \<Rightarrow> bool" where
  "in_signed w r \<longleftrightarrow> - (2 ^ (w - 1)) \<le> r \<and> r < 2 ^ (w - 1)"

definition checked_signed :: "int \<Rightarrow> 'a::len word option" where
  "checked_signed r = (if in_signed LENGTH('a) r then Some (word_of_int r) else None)"

definition trunc_div :: "int \<Rightarrow> int \<Rightarrow> int" where
  "trunc_div a b = sgn a * sgn b * (\<bar>a\<bar> div \<bar>b\<bar>)"

definition checked_mul :: "'a::len word \<Rightarrow> 'a word \<Rightarrow> 'a word option" where
  "checked_mul x y = checked_signed (sint x * sint y)"

definition checked_div :: "'a::len word \<Rightarrow> 'a word \<Rightarrow> 'a word option" where
  "checked_div x y = (if y = 0 then None else checked_signed (trunc_div (sint x) (sint y)))"

definition checked_pow :: "'a::len word \<Rightarrow> u32 \<Rightarrow> 'a word option" where
  "checked_pow x n = checked_signed (sint x ^ unat n)"

lemma unat_max_word: "unat (-1 :: 'a::len word) = 2 ^ LENGTH('a) - 1"
  by (simp add: unsigned_minus_1_eq_mask mask_eq_exp_minus_1)

lemma uint_add_bound: "uint x + uint y < 2 ^ n \<longleftrightarrow> unat x + unat y < 2 ^ n"
proof -
  have "uint x + uint y < 2 ^ n \<longleftrightarrow> int (unat x + unat y) < int (2 ^ n)" by simp
  then show ?thesis by (simp only: of_nat_less_iff)
qed

lemma uint_mul_bound: "uint x * uint y < 2 ^ n \<longleftrightarrow> unat x * unat y < 2 ^ n"
proof -
  have "uint x * uint y < 2 ^ n \<longleftrightarrow> int (unat x * unat y) < int (2 ^ n)" by simp
  then show ?thesis by (simp only: of_nat_less_iff)
qed

lemma unat_saturating_add: "unat (saturating_add x (y :: 'a::len word)) = min (unat x + unat y) (2 ^ LENGTH('a) - 1)"
  by (auto simp: saturating_add_def uint_add_bound unat_add_lem [THEN iffD1] unat_max_word min_def)

lemma unat_saturating_mul: "unat (saturating_mul x (y :: 'a::len word)) = min (unat x * unat y) (2 ^ LENGTH('a) - 1)"
proof (cases "unat x * unat y < 2 ^ LENGTH('a)")
  case True
  then show ?thesis by (simp add: saturating_mul_def uint_mul_bound unat_mult_lem [THEN iffD1])
next
  case False
  then have "2 ^ LENGTH('a) - 1 \<le> unat x * unat y" by linarith
  with False show ?thesis unfolding saturating_mul_def uint_mul_bound by (simp only: if_False unat_max_word min_absorb2)
qed

lemma unat_saturating_sub: "unat (saturating_sub x y) = unat x - unat y"
  by (auto simp: saturating_sub_def unat_sub word_le_nat_alt)

lemma abs_sint_le: "\<bar>sint (x :: 'a::len word)\<bar> \<le> 2 ^ (LENGTH('a) - 1)"
  using sint_greater_eq [of x] sint_less [of x] by (simp add: abs_le_iff)

lemma unat_unsigned_abs: "int (unat (unsigned_abs (x :: 'a::len word))) = \<bar>sint x\<bar>"
proof -
  have "\<bar>sint x\<bar> < 2 ^ LENGTH('a)"
    by (rule le_less_trans [OF abs_sint_le]) (simp add: power_strict_increasing)
  then show ?thesis unfolding unsigned_abs_def by (simp add: uint_word_of_int_eq take_bit_int_eq_self)
qed

lemma checked_signed_Some:
  "checked_signed r = Some (w :: 'a::len word) \<longleftrightarrow> in_signed LENGTH('a) r \<and> sint w = r"
proof -
  have "sint (word_of_int r :: 'a word) = r" if "in_signed LENGTH('a) r"
    using that by (simp add: in_signed_def sint_word_ariths signed_take_bit_int_eq_self sint_sbintrunc')
  moreover have "word_of_int r = w" if "sint w = r" using that by auto
  ultimately show ?thesis by (auto simp: checked_signed_def)
qed

subsection \<open>errors.rs\<close>

datatype (plugins del: size "quickcheck") oracle_error =
    UnauthorizedSource | AdminOnly | AssetNotFound | PriceTooOld | InvalidDecimals | AlreadyInitialized
  | SourceAlreadyExists | PriceDeviationTooLarge | NotASigner | ProposalNotFound | ProposalAlreadyExecuted
  | AlreadyApproved | InvalidThreshold | ThresholdNotMet | MultiSigNotInitialized
  | GovernanceNotInitialized | GovernanceAlreadyInitialized | InsufficientVotingPower | ProposalDefeated
  | ProposalCancelled | VotingNotActive | AlreadyVoted | TimeLockNotElapsed | GuardianOnly
  | InvalidGovernanceConfig | InvalidMerkleProof | BatchNonceMismatch | BatchRootNotFound
  | UpgradeNotProposed | UpgradeTimelockNotElapsed | UpgradeAlreadyApproved | InvalidPrice
  | ContractPaused | BatchEntryAlreadyApplied | StakeTokenMismatch | StakeTokenNotRecorded
  | TreasuryNotConfigured | InvalidSlashAmount | NoStakeToSlash | InvalidStakeAmount | InvalidTtlBounds
  | TtlSubFloor | NoPendingAdmin | AdminTransferWindowElapsed | ProposalExpired | EvidenceVersionMismatch
  | EvidenceMismatch | EvidenceMissing | SnapshotUnavailable
  | Undeclared string

text \<open>
  \<open>Undeclared n\<close> stands for a variant \<open>n\<close> that the crate returns but \<open>errors.rs\<close> does not list. A call
  fails with an error of the contract, because an address did not authorise it, or by a trap of the host.
\<close>

datatype failure = Contract oracle_error | NoAuth string | Trap

definition and_then :: "'e + 'a \<Rightarrow> ('a \<Rightarrow> 'e + 'b) \<Rightarrow> 'e + 'b" where
  "and_then r f = (case r of Inl e \<Rightarrow> Inl e | Inr x \<Rightarrow> f x)"

definition ok_or :: "'a option \<Rightarrow> oracle_error \<Rightarrow> failure + 'a" where
  "ok_or x e = (case x of None \<Rightarrow> Inl (Contract e) | Some v \<Rightarrow> Inr v)"

definition plain_add :: "'a::len word \<Rightarrow> 'a word \<Rightarrow> failure + 'a word" where
  "plain_add x y = (if uint x + uint y < 2 ^ LENGTH('a) then Inr (x + y) else Inl Trap)"

definition plain_signed :: "int \<Rightarrow> failure + 'a::len word" where
  "plain_signed r = (case checked_signed r of None \<Rightarrow> Inl Trap | Some w \<Rightarrow> Inr w)"

lemma and_then_simps [simp]: "and_then (Inl e) f = Inl e" "and_then (Inr x) f = f x"
  by (simp_all add: and_then_def)

lemma and_then_Inr: "and_then r f = Inr y \<longleftrightarrow> (\<exists>x. r = Inr x \<and> f x = Inr y)"
  by (cases r) simp_all

lemma ok_or_Inr [simp]: "ok_or x e = Inr v \<longleftrightarrow> x = Some v"
  by (cases x) (simp_all add: ok_or_def)

lemma ok_or_simps [simp]: "ok_or (Some v) e = Inr v" "ok_or None e = Inl (Contract e)"
  by (simp_all add: ok_or_def)

lemma plain_add_Inr: "plain_add x y = Inr z \<longleftrightarrow> unat x + unat y < 2 ^ LENGTH('a) \<and> z = x + (y :: 'a::len word)"
  by (auto simp: plain_add_def uint_add_bound)

lemma plain_add_unat: "plain_add x y = Inr z \<Longrightarrow> unat z = unat x + unat (y :: 'a::len word)"
  by (auto simp: plain_add_Inr unat_add_lem [THEN iffD1])

lemma plain_signed_Inr: "plain_signed r = Inr (w :: 'a::len word) \<longleftrightarrow> in_signed LENGTH('a) r \<and> sint w = r"
proof -
  have "plain_signed r = Inr w \<longleftrightarrow> checked_signed r = Some w" by (simp add: plain_signed_def split: option.splits)
  then show ?thesis by (simp add: checked_signed_Some)
qed

subsection \<open>Environment\<close>

type_synonym address = string
type_synonym bytes = "8 word list"

record env =
  env_timestamp :: u64
  env_auth :: "address list"

definition require_auth :: "env \<Rightarrow> address \<Rightarrow> failure + unit" where
  "require_auth env a = (if a \<in> set (env_auth env) then Inr () else Inl (NoAuth a))"

lemma require_auth_Inr [simp]: "require_auth env a = Inr u \<longleftrightarrow> a \<in> set (env_auth env)"
  by (simp add: require_auth_def)

subsection \<open>types.rs and events.rs\<close>

record price_data_point =
  dp_asset :: string
  dp_price :: i128
  dp_decimals :: u32
  dp_timestamp :: u64
  dp_source :: address

record asset_price =
  ap_asset :: string
  ap_price :: i128
  ap_decimals :: u32
  ap_price_usd :: "i128 option"
  ap_timestamp :: u64
  ap_source :: address
  ap_num_sources :: u32
  ap_is_trusted :: bool

record source_reputation =
  sr_score :: u32
  sr_total_submissions :: u32
  sr_accurate_submissions :: u32
  sr_last_updated :: u64

record chain_multisig_config =
  cm_signers :: "address list"
  cm_threshold :: u32

record chain_governance_config =
  cg_token :: address
  cg_voting_period :: u64
  cg_timelock_delay :: u64
  cg_quorum :: i128
  cg_proposal_threshold :: i128
  cg_guardian :: address

datatype chain_action =
    AddSource address string | RemoveSource address | SetTrustedAsset string bool | TransferAdmin address
  | SetDeviationThreshold u32 | ResetReputation address | AddSigner address | RemoveSigner address
  | SetThreshold u32 | SetAdmin address | AddOracleSource address string | RemoveOracleSource address
  | UpdateGovernanceConfig chain_governance_config | Pause | Unpause | SetStakeTreasury address
  | UpdateAssetDecimals string u32 | CommitFeedCatalog u32 bytes

record feed_catalog_commitment =
  cc_version :: u32
  cc_catalog_hash :: bytes
  cc_updated_at :: u64
  cc_publisher :: address

datatype (plugins del: size "quickcheck") chain_event =
    UpgradeProposed address bytes u64 | UpgradeApproved address u32 | UpgradeExecuted bytes u32
  | CanarySet address u32 | CanaryPromoted address u32 | ImplementationUpdated address address u32
  | PriceSubmitted string address i128 u64 | BatchSubmitted address u64 bytes
  | BatchEntryApplied string u64 i128 | SourceStaked address i128 | SourceSlashed address string i128
  | GovernanceProposed address u32 | GovVoted u32 address bool | GovQueued u32 u64
  | GovernanceProposalExecuted u32 u64 | GovCancelled u32 address | GovernanceEmergencyExecuted address u32
  | FeedCatalogCommitted address u32 bytes u64 | TtlExtended string address u32 u32
  | AdminTransferProposed address address u64 | AdminTransferAccepted address address u64
  | AdminTransferCancelled address address u64 | DeviationThresholdSet u32 | ReputationReset address
  | SourceAdded address string | SourceRemoved address | TrustedAssetSet string bool | StakeTreasurySet address
  | QueryFeeSet address i128 | WhitelistUpdated address address bool | FeesWithdrawn address address i128
  | FeedPaused address string string u64 | FeedUnpaused address string u64
  | WritePathPaused address string string u64 | WritePathUnpaused address string u64

subsection \<open>storage.rs, the keys that several contracts use\<close>

definition MAX_HISTORY_LEN :: nat where "MAX_HISTORY_LEN = 100"

record oracle_storage =
  st_Admin :: "address option"
  st_Source :: "address \<rightharpoonup> bool"
  st_SourceName :: "address \<rightharpoonup> string"
  st_SourceCount :: "u32 option"
  st_LatestPrice :: "string \<rightharpoonup> price_data_point"
  st_AllAssets :: "string list option"
  st_PriceHistory :: "string \<rightharpoonup> price_data_point list"
  st_TrustedAsset :: "string \<rightharpoonup> bool"
  st_DeviationThreshold :: "u32 option"
  st_SourceReputation :: "address \<rightharpoonup> source_reputation"
  st_MultiSigConfig :: "chain_multisig_config option"
  st_events :: "(u64 \<times> chain_event) list"

definition publish :: "env \<Rightarrow> chain_event \<Rightarrow> 'a oracle_storage_scheme \<Rightarrow> 'a oracle_storage_scheme" where
  "publish env e s = s\<lparr>st_events := st_events s @ [(env_timestamp env, e)]\<rparr>"

definition verify_admin :: "address \<Rightarrow> 'a oracle_storage_scheme \<Rightarrow> failure + unit" where
  "verify_admin admin s =
     (case st_Admin s of
        None \<Rightarrow> Inl (Contract AdminOnly)
      | Some stored \<Rightarrow> if stored \<noteq> admin then Inl (Contract AdminOnly) else Inr ())"

definition is_authorized_source :: "address \<Rightarrow> 'a oracle_storage_scheme \<Rightarrow> bool" where
  "is_authorized_source source s \<longleftrightarrow> st_Source s source \<noteq> None"

definition get_source_count :: "'a oracle_storage_scheme \<Rightarrow> u32" where
  "get_source_count s = nullish (st_SourceCount s) 0"

definition add_source :: "address \<Rightarrow> string \<Rightarrow> 'a oracle_storage_scheme \<Rightarrow> failure + 'a oracle_storage_scheme" where
  "add_source source name s =
     (let already_present = (st_Source s source \<noteq> None);
          s1 = s\<lparr>st_Source := (st_Source s)(source \<mapsto> True)\<rparr>
      in if \<not> already_present then
           and_then (plain_add (get_source_count s1) 1) (\<lambda>count.
             Inr (s1\<lparr>st_SourceName := (st_SourceName s1)(source \<mapsto> name), st_SourceCount := Some count\<rparr>))
         else Inr s1)"

definition remove_source :: "address \<Rightarrow> 'a oracle_storage_scheme \<Rightarrow> 'a oracle_storage_scheme" where
  "remove_source source s =
     (if st_Source s source = None then s
      else let s1 = s\<lparr>st_Source := (st_Source s)(source := None), st_SourceName := (st_SourceName s)(source := None)\<rparr>;
               count = get_source_count s1
           in if count > 0 then s1\<lparr>st_SourceCount := Some (count - 1)\<rparr> else s1)"

definition get_all_assets :: "'a oracle_storage_scheme \<Rightarrow> string list" where
  "get_all_assets s = nullish (st_AllAssets s) []"

definition set_latest_price :: "string \<Rightarrow> price_data_point \<Rightarrow> 'a oracle_storage_scheme \<Rightarrow> 'a oracle_storage_scheme" where
  "set_latest_price asset dp s =
     (let is_new = (st_LatestPrice s asset = None);
          s1 = s\<lparr>st_LatestPrice := (st_LatestPrice s)(asset \<mapsto> dp)\<rparr>
      in if is_new then s1\<lparr>st_AllAssets := Some (get_all_assets s1 @ [asset])\<rparr> else s1)"

definition get_price_history :: "string \<Rightarrow> 'a oracle_storage_scheme \<Rightarrow> price_data_point list" where
  "get_price_history asset s = nullish (st_PriceHistory s asset) []"

definition is_trusted_asset :: "string \<Rightarrow> 'a oracle_storage_scheme \<Rightarrow> bool" where
  "is_trusted_asset asset s = nullish (st_TrustedAsset s asset) False"

definition set_trusted_asset :: "string \<Rightarrow> bool \<Rightarrow> 'a oracle_storage_scheme \<Rightarrow> 'a oracle_storage_scheme" where
  "set_trusted_asset asset trusted s = s\<lparr>st_TrustedAsset := (st_TrustedAsset s)(asset \<mapsto> trusted)\<rparr>"

lemma verify_admin_Inr [simp]: "verify_admin a s = Inr u \<longleftrightarrow> st_Admin s = Some a"
  by (auto simp: verify_admin_def split: option.splits)

lemma publish_sel [simp]:
  "st_Admin (publish env e s) = st_Admin s" "st_Source (publish env e s) = st_Source s"
  "st_SourceName (publish env e s) = st_SourceName s" "st_SourceCount (publish env e s) = st_SourceCount s"
  "st_LatestPrice (publish env e s) = st_LatestPrice s" "st_AllAssets (publish env e s) = st_AllAssets s"
  "st_PriceHistory (publish env e s) = st_PriceHistory s" "st_TrustedAsset (publish env e s) = st_TrustedAsset s"
  "st_DeviationThreshold (publish env e s) = st_DeviationThreshold s"
  "st_SourceReputation (publish env e s) = st_SourceReputation s"
  "st_MultiSigConfig (publish env e s) = st_MultiSigConfig s"
  "st_events (publish env e s) = st_events s @ [(env_timestamp env, e)]"
  by (simp_all add: publish_def)

definition as_admin :: "env \<Rightarrow> address \<Rightarrow> 'a oracle_storage_scheme \<Rightarrow> failure + 'b \<Rightarrow> failure + 'b" where
  "as_admin env admin s rest =
     and_then (require_auth env admin) (\<lambda>_. and_then (verify_admin admin s) (\<lambda>_. rest))"

lemma as_admin_Inr: "as_admin env admin s rest = Inr y \<longleftrightarrow> admin \<in> set (env_auth env) \<and> st_Admin s = Some admin \<and> rest = Inr y"
  by (auto simp: as_admin_def and_then_Inr)

end
