(* ===== verification/Oracle_Utils.thy ===== *)
theory Oracle_Utils
  imports Soroban_Env
begin

text \<open>
  The helpers of \<open>contracts/price-oracle/src/utils.rs\<close> at their machine widths: the bounded price history,
  the deviation guard, source reputation with its decay, and the conversion to dollars.
\<close>

definition REPUTATION_ACCURACY_THRESHOLD_BPS :: u128 where "REPUTATION_ACCURACY_THRESHOLD_BPS = 2000"
definition REPUTATION_DECAY_PERIOD_SECS :: u64 where "REPUTATION_DECAY_PERIOD_SECS = 604800"
definition REPUTATION_DECAY_NUMERATOR :: u32 where "REPUTATION_DECAY_NUMERATOR = 95"
definition REPUTATION_DECAY_DENOMINATOR :: u32 where "REPUTATION_DECAY_DENOMINATOR = 100"

definition append_history :: "string \<Rightarrow> price_data_point \<Rightarrow> 'a oracle_storage_scheme \<Rightarrow> 'a oracle_storage_scheme" where
  "append_history asset dp s =
     (let history = get_price_history asset s
      in if length history \<ge> MAX_HISTORY_LEN then
           (let trimmed = map (\<lambda>i. history ! i) [1..<length history]
            in s\<lparr>st_PriceHistory := (st_PriceHistory s)(asset \<mapsto> trimmed @ [dp])\<rparr>)
         else s\<lparr>st_PriceHistory := (st_PriceHistory s)(asset \<mapsto> history @ [dp])\<rparr>)"

definition deviation_exceeds :: "i128 \<Rightarrow> i128 \<Rightarrow> u32 \<Rightarrow> bool" where
  "deviation_exceeds new_price prev_price threshold_bps =
     (if prev_price = 0 then False
      else let prev_abs = unsigned_abs prev_price;
               diff = (if (0 \<le> sint new_price) = (0 \<le> sint prev_price)
                       then let new_abs = unsigned_abs new_price
                            in if new_abs \<ge> prev_abs then new_abs - prev_abs else prev_abs - new_abs
                       else saturating_add (unsigned_abs new_price) prev_abs);
               deviation_bps = saturating_mul diff 10000 div prev_abs
           in deviation_bps > (ucast threshold_bps :: u128))"

definition update_reputation ::
  "address \<Rightarrow> i128 \<Rightarrow> string \<Rightarrow> u64 \<Rightarrow> 'a oracle_storage_scheme \<Rightarrow> 'a oracle_storage_scheme" where
  "update_reputation source new_price asset timestamp s =
     (let is_accurate = (case st_LatestPrice s asset of
                           None \<Rightarrow> True
                         | Some prev \<Rightarrow> \<not> deviation_exceeds new_price (dp_price prev)
                                          (ucast REPUTATION_ACCURACY_THRESHOLD_BPS));
          rep = nullish (st_SourceReputation s source)
            \<lparr>sr_score = 10000, sr_total_submissions = 0, sr_accurate_submissions = 0, sr_last_updated = timestamp\<rparr>;
          total = saturating_add (sr_total_submissions rep) 1;
          accurate = (if is_accurate then saturating_add (sr_accurate_submissions rep) 1
                      else sr_accurate_submissions rep);
          score = (if total = 0 then 10000 else saturating_mul accurate 10000 div total)
      in s\<lparr>st_SourceReputation := (st_SourceReputation s)(source \<mapsto>
            \<lparr>sr_score = score, sr_total_submissions = total, sr_accurate_submissions = accurate,
             sr_last_updated = timestamp\<rparr>)\<rparr>)"

primrec decay_loop :: "nat \<Rightarrow> u32 \<Rightarrow> u32" where
  "decay_loop 0 score = score"
| "decay_loop (Suc n) score =
     decay_loop n (saturating_mul score REPUTATION_DECAY_NUMERATOR div REPUTATION_DECAY_DENOMINATOR)"

definition apply_reputation_decay :: "u64 \<Rightarrow> source_reputation \<Rightarrow> source_reputation" where
  "apply_reputation_decay now rep =
     (let elapsed = saturating_sub now (sr_last_updated rep)
      in if elapsed < REPUTATION_DECAY_PERIOD_SECS then rep
         else let periods = (ucast (min (elapsed div REPUTATION_DECAY_PERIOD_SECS) 40) :: u32)
              in rep\<lparr>sr_score := decay_loop (unat periods) (sr_score rep)\<rparr>)"

definition calculate_usd_price :: "string \<Rightarrow> i128 \<Rightarrow> u32 \<Rightarrow> 'a oracle_storage_scheme \<Rightarrow> i128 option" where
  "calculate_usd_price asset price decimals s =
     (if asset = ''XLM'' then Some price
      else if asset = ''USDC'' then checked_pow 10 decimals
      else case st_LatestPrice s ''XLM'' of
             None \<Rightarrow> None
           | Some xlm_price \<Rightarrow>
               (let scale = saturating_add decimals (dp_decimals xlm_price)
                in case checked_pow 10 scale of
                     None \<Rightarrow> None
                   | Some divisor \<Rightarrow>
                       (case checked_mul price (dp_price xlm_price) of
                          None \<Rightarrow> None
                        | Some product \<Rightarrow> checked_div product divisor)))"

definition vec_contains_address :: "address list \<Rightarrow> address \<Rightarrow> bool" where
  "vec_contains_address vec target = list_ex (\<lambda>addr. addr = target) vec"

lemma vec_contains_address [simp]: "vec_contains_address vec a \<longleftrightarrow> a \<in> set vec"
  by (auto simp: vec_contains_address_def list_ex_iff)

subsection \<open>History\<close>

lemma map_nth_from_1: "map (\<lambda>i. xs ! i) [1..<length xs] = tl xs"
  by (rule nth_equalityI) (simp_all add: nth_tl)

lemma append_history_get:
  "get_price_history a (append_history asset dp s) =
     (if a = asset
      then (if length (get_price_history asset s) \<ge> MAX_HISTORY_LEN then tl (get_price_history asset s)
            else get_price_history asset s) @ [dp]
      else get_price_history a s)"
  by (auto simp: append_history_def Let_def get_price_history_def map_nth_from_1 [unfolded One_nat_def])

lemma append_history_window:
  assumes "length (get_price_history asset s) \<le> MAX_HISTORY_LEN"
  shows "get_price_history asset (append_history asset dp s) =
     (let h = get_price_history asset s @ [dp] in drop (length h - MAX_HISTORY_LEN) h)"
proof (cases "length (get_price_history asset s) = MAX_HISTORY_LEN")
  case True
  then show ?thesis
    by (cases "get_price_history asset s") (simp_all add: append_history_get MAX_HISTORY_LEN_def Let_def)
next
  case False
  with assms show ?thesis by (simp add: append_history_get Let_def)
qed

subsection \<open>Deviation guard\<close>

lemma uint_unsigned_abs: "uint (unsigned_abs x) = \<bar>sint x\<bar>"
  using unat_unsigned_abs [of x] by simp

lemma signed_diff:
  fixes x y :: "'a::len word"
  shows "int (unat (if (0 \<le> sint x) = (0 \<le> sint y)
       then let a = unsigned_abs x in if a \<ge> unsigned_abs y then a - unsigned_abs y else unsigned_abs y - a
       else saturating_add (unsigned_abs x) (unsigned_abs y))) = \<bar>sint x - sint y\<bar>"
proof (cases "(0 \<le> sint x) = (0 \<le> sint y)")
  case True
  then show ?thesis
    by (auto simp: Let_def word_le_def not_le uint_unsigned_abs uint_sub_lem [THEN iffD1])
next
  case False
  let ?n = "LENGTH('a)"
  have "\<bar>sint x\<bar> + \<bar>sint y\<bar> < 2 * 2 ^ (?n - 1)"
    using False sint_greater_eq [of x] sint_less [of x] sint_greater_eq [of y] sint_less [of y] by auto
  also have "2 * 2 ^ (?n - 1) = (2 :: int) ^ ?n" by (metis len_gt_0 power_minus_mult mult.commute)
  finally have "int (unat (unsigned_abs x) + unat (unsigned_abs y)) < int (2 ^ ?n)"
    by (simp add: uint_unsigned_abs)
  then have "unat (unsigned_abs x) + unat (unsigned_abs y) < 2 ^ ?n" by (simp only: of_nat_less_iff)
  then have "unat (saturating_add (unsigned_abs x) (unsigned_abs y)) = unat (unsigned_abs x) + unat (unsigned_abs y)"
    by (simp add: unat_saturating_add)
  with False show ?thesis by (auto simp: uint_unsigned_abs)
qed

lemma deviation_exceeds_int:
  "deviation_exceeds new_price prev_price threshold_bps \<longleftrightarrow>
     prev_price \<noteq> 0 \<and>
     uint threshold_bps < min (\<bar>sint new_price - sint prev_price\<bar> * 10000) (2 ^ 128 - 1) div \<bar>sint prev_price\<bar>"
proof (cases "prev_price = 0")
  case False
  define diff where "diff = (if (0 \<le> sint new_price) = (0 \<le> sint prev_price)
       then let a = unsigned_abs new_price in if a \<ge> unsigned_abs prev_price then a - unsigned_abs prev_price
            else unsigned_abs prev_price - a
       else saturating_add (unsigned_abs new_price) (unsigned_abs prev_price))"
  have d: "int (unat diff) = \<bar>sint new_price - sint prev_price\<bar>" unfolding diff_def by (rule signed_diff)
  have "int (unat (saturating_mul diff 10000)) = int (min (unat diff * 10000) (2 ^ 128 - 1))"
    by (simp add: unat_saturating_mul)
  also have "\<dots> = min (int (unat diff) * 10000) (2 ^ 128 - 1)" by (simp only: of_nat_min of_nat_mult) simp
  finally have m: "uint (saturating_mul diff 10000) = min (\<bar>sint new_price - sint prev_price\<bar> * 10000) (2 ^ 128 - 1)"
    by (simp only: d uint_nat)
  have "deviation_exceeds new_price prev_price threshold_bps \<longleftrightarrow>
      saturating_mul diff 10000 div unsigned_abs prev_price > (ucast threshold_bps :: u128)"
    using False by (simp add: deviation_exceeds_def diff_def Let_def)
  also have "\<dots> \<longleftrightarrow> uint threshold_bps < uint (saturating_mul diff 10000) div \<bar>sint prev_price\<bar>"
    by (simp add: word_less_def uint_div uint_unsigned_abs uint_up_ucast is_up)
  finally show ?thesis using False by (simp only: m simp_thms not_False_eq_True)
qed (simp add: deviation_exceeds_def)

lemma deviation_in_range:
  assumes "\<bar>sint new_price - sint prev_price\<bar> * 10000 < 2 ^ 128" "prev_price \<noteq> 0"
  shows "deviation_exceeds new_price prev_price t \<longleftrightarrow>
     uint t < \<bar>sint new_price - sint prev_price\<bar> * 10000 div \<bar>sint prev_price\<bar>"
  using assms deviation_exceeds_int [of new_price prev_price t] by (simp add: min_absorb1)


text \<open>
  The cut-off hides large moves of large prices: a fall from \<open>2 ^ 126\<close> to zero counts as three basis points.
\<close>
lemma deviation_cut_off_hides_crash: "\<not> deviation_exceeds 0 (2 ^ 126) 3"
  by (simp add: deviation_exceeds_int)

subsection \<open>Reputation\<close>

definition reputation_ok :: "source_reputation \<Rightarrow> bool" where
  "reputation_ok r \<longleftrightarrow> sr_accurate_submissions r \<le> sr_total_submissions r \<and> 0 < sr_total_submissions r
     \<and> unat (sr_score r) = min (unat (sr_accurate_submissions r) * 10000) (2 ^ 32 - 1) div unat (sr_total_submissions r)"

lemma reputation_score_le: "reputation_ok r \<Longrightarrow> unat (sr_score r) \<le> 10000"
proof -
  assume r: "reputation_ok r"
  let ?t = "unat (sr_total_submissions r)"
  have "min (unat (sr_accurate_submissions r) * 10000) (2 ^ 32 - 1) \<le> ?t * 10000"
    using r by (auto simp: reputation_ok_def word_le_nat_alt intro: min.coboundedI1)
  moreover have "0 < ?t" using r by (simp add: reputation_ok_def word_less_nat_alt)
  ultimately have "min (unat (sr_accurate_submissions r) * 10000) (2 ^ 32 - 1) div ?t \<le> ?t * 10000 div ?t"
    by (intro div_le_mono)
  then show ?thesis using r \<open>0 < ?t\<close> by (simp add: reputation_ok_def)
qed

lemma u32_bound: "unat (x :: u32) \<le> 2 ^ 32 - 1"
proof -
  have "unat x < 2 ^ LENGTH(32)" by (rule unsigned_less)
  then show ?thesis by simp
qed

lemma update_reputation_other: "a \<noteq> source \<Longrightarrow> st_SourceReputation (update_reputation source p asset ts s) a = st_SourceReputation s a"
  by (simp add: update_reputation_def Let_def)

lemma update_reputation_ok:
  assumes "\<And>r. st_SourceReputation s source = Some r \<Longrightarrow> reputation_ok r"
  shows "\<exists>r. st_SourceReputation (update_reputation source p asset ts s) source = Some r \<and> reputation_ok r"
proof -
  define r0 where "r0 = nullish (st_SourceReputation s source)
     \<lparr>sr_score = 10000, sr_total_submissions = 0, sr_accurate_submissions = 0, sr_last_updated = ts\<rparr>"
  have le: "unat (sr_accurate_submissions r0) \<le> unat (sr_total_submissions r0)"
    using assms by (cases "st_SourceReputation s source") (auto simp: r0_def reputation_ok_def word_le_nat_alt)
  define total where "total = saturating_add (sr_total_submissions r0) 1"
  have t: "unat total = min (unat (sr_total_submissions r0) + 1) (2 ^ 32 - 1)"
    by (simp add: total_def unat_saturating_add)
  then have pos: "0 < unat total" by simp
  define acc where "acc = (if (case st_LatestPrice s asset of None \<Rightarrow> True
      | Some prev \<Rightarrow> \<not> deviation_exceeds p (dp_price prev) (ucast REPUTATION_ACCURACY_THRESHOLD_BPS))
      then saturating_add (sr_accurate_submissions r0) 1 else sr_accurate_submissions r0)"
  have a: "unat acc \<le> unat total"
    using le u32_bound [of "sr_total_submissions r0"] by (auto simp: acc_def t unat_saturating_add)
  define r where "r = \<lparr>sr_score = saturating_mul acc 10000 div total, sr_total_submissions = total,
     sr_accurate_submissions = acc, sr_last_updated = ts\<rparr>"
  have "total \<noteq> 0" using pos by auto
  then have eq: "st_SourceReputation (update_reputation source p asset ts s) source = Some r"
    by (simp add: update_reputation_def Let_def r_def acc_def total_def r0_def)
  have "reputation_ok r"
    using a pos by (simp add: reputation_ok_def r_def word_le_nat_alt word_less_nat_alt unat_div unat_saturating_mul)
  with eq show ?thesis by blast
qed

lemma perfect_score_saturates:
  "reputation_ok r \<Longrightarrow> sr_accurate_submissions r = sr_total_submissions r \<Longrightarrow>
     (unat (sr_score r) = 10000) = (unat (sr_total_submissions r) \<le> 429496)"
proof -
  assume r: "reputation_ok r" and eq: "sr_accurate_submissions r = sr_total_submissions r"
  let ?t = "unat (sr_total_submissions r)"
  have pos: "0 < ?t" using r by (simp add: reputation_ok_def word_less_nat_alt)
  have score: "unat (sr_score r) = min (?t * 10000) (2 ^ 32 - 1) div ?t" using r eq by (simp add: reputation_ok_def)
  show ?thesis
  proof (cases "?t \<le> 429496")
    case True
    then have "?t * 10000 \<le> 429496 * 10000" by (rule mult_le_mono1)
    then have "min (?t * 10000) (2 ^ 32 - 1) = ?t * 10000" by simp
    then show ?thesis using True pos by (simp add: score)
  next
    case False
    then have "(2 ^ 32 - 1 :: nat) < ?t * 10000" by simp
    then have "min (?t * 10000) (2 ^ 32 - 1) div ?t < 10000"
      using pos by (simp add: min_absorb2 div_less_iff_less_mult mult.commute)
    then show ?thesis using False by (simp add: score)
  qed
qed

lemma decay_step:
  assumes "unat score \<le> 10000"
  shows "unat (saturating_mul score REPUTATION_DECAY_NUMERATOR div REPUTATION_DECAY_DENOMINATOR) = unat score * 95 div 100"
proof -
  have "unat score * 95 \<le> 10000 * 95" using assms by (rule mult_le_mono1)
  then have "min (unat score * 95) (2 ^ 32 - 1) = unat score * 95" by simp
  then show ?thesis
    by (simp add: REPUTATION_DECAY_NUMERATOR_def REPUTATION_DECAY_DENOMINATOR_def unat_div unat_saturating_mul)
qed

lemma decay_loop_exact:
  "unat score \<le> 10000 \<Longrightarrow> unat (decay_loop n score) = ((\<lambda>x. x * 95 div 100) ^^ n) (unat score)"
proof (induction n arbitrary: score)
  case (Suc n)
  have "unat score * 95 div 100 \<le> 10000" using Suc.prems by simp
  then show ?case
    using Suc.prems by (simp only: decay_loop.simps Suc.IH decay_step funpow_Suc_right o_apply)
qed simp

lemma decay_below: "((\<lambda>x. x * 95 div 100) ^^ n) (x :: nat) \<le> x"
  by (induction n) (auto intro: order_trans)

lemma apply_reputation_decay_score:
  assumes "unat (sr_score r) \<le> 10000"
  shows "unat (sr_score (apply_reputation_decay now r)) =
     ((\<lambda>x. x * 95 div 100) ^^ min ((unat now - unat (sr_last_updated r)) div 604800) 40) (unat (sr_score r))"
proof (cases "saturating_sub now (sr_last_updated r) < REPUTATION_DECAY_PERIOD_SECS")
  case True
  then have "unat now - unat (sr_last_updated r) < 604800"
    by (simp add: word_less_nat_alt unat_saturating_sub REPUTATION_DECAY_PERIOD_SECS_def)
  then have "(unat now - unat (sr_last_updated r)) div 604800 = 0" by simp
  with True show ?thesis by (simp only: apply_reputation_decay_def Let_def if_True) simp
next
  case False
  let ?p = "saturating_sub now (sr_last_updated r) div REPUTATION_DECAY_PERIOD_SECS"
  have p: "unat ?p = (unat now - unat (sr_last_updated r)) div 604800"
    by (simp add: unat_div unat_saturating_sub REPUTATION_DECAY_PERIOD_SECS_def)
  have m: "unat (min ?p 40) = min (unat ?p) 40" by (auto simp: min_def word_le_nat_alt)
  then have "unat (ucast (min ?p 40) :: u32) = min (unat ?p) 40"
    by (simp add: unsigned_ucast_eq take_bit_nat_eq_self)
  moreover have "sr_score (apply_reputation_decay now r) = decay_loop (unat (ucast (min ?p 40) :: u32)) (sr_score r)"
    using False by (simp add: apply_reputation_decay_def Let_def)
  ultimately show ?thesis by (simp only: decay_loop_exact [OF assms] p)
qed

text \<open>
  Decay multiplies a sound score by 95 hundredths, rounded down, once per full week since the last
  update and at most forty times, and never raises the score.
\<close>
theorem reputation_decay_exact:
  assumes "reputation_ok r"
  shows "unat (sr_score (apply_reputation_decay now r)) =
       ((\<lambda>x. x * 95 div 100) ^^ min ((unat now - unat (sr_last_updated r)) div 604800) 40) (unat (sr_score r))
     \<and> sr_score (apply_reputation_decay now r) \<le> sr_score r"
  unfolding word_le_nat_alt apply_reputation_decay_score [OF reputation_score_le [OF assms], of now]
  by (intro conjI HOL.refl decay_below)

subsection \<open>Conversion\<close>

lemma in_signed_pow: "in_signed 128 (10 ^ n) \<longleftrightarrow> n \<le> 38"
proof (cases "n \<le> 38")
  case True
  then have "(10 :: int) ^ n \<le> 10 ^ 38" by (intro power_increasing) simp_all
  also have "(10 :: int) ^ 38 < 2 ^ 127" by simp
  finally have "(10 :: int) ^ n < 2 ^ 127" .
  moreover have "- (2 ^ 127) \<le> (10 :: int) ^ n" by (rule order_trans [of _ 0]) simp_all
  ultimately show ?thesis using True by (simp add: in_signed_def)
next
  case False
  have "(2 :: int) ^ 127 \<le> 10 ^ 39" by simp
  also have "(10 :: int) ^ 39 \<le> 10 ^ n" using False by (intro power_increasing) simp_all
  finally have "\<not> (10 :: int) ^ n < 2 ^ 127" by (simp only: not_less)
  then show ?thesis using False by (simp add: in_signed_def)
qed

lemma checked_pow_10: "checked_pow (10 :: i128) n = Some w \<longleftrightarrow> unat n \<le> 38 \<and> sint w = 10 ^ unat n"
  by (simp add: checked_pow_def checked_signed_Some in_signed_pow)

lemma trunc_div_bound:
  assumes "0 < b" "in_signed w a"
  shows "in_signed w (trunc_div a b)"
proof -
  have "\<bar>a\<bar> div b \<le> \<bar>a\<bar> div 1" using assms by (intro zdiv_mono2) simp_all
  then have le: "0 \<le> \<bar>a\<bar> div b" "\<bar>a\<bar> div b \<le> \<bar>a\<bar>" using assms by (simp_all add: pos_imp_zdiv_nonneg_iff)
  have "trunc_div a b = (if a < 0 then - (\<bar>a\<bar> div b) else \<bar>a\<bar> div b)"
    using assms by (auto simp: trunc_div_def sgn_if)
  then show ?thesis using le assms(2) unfolding in_signed_def by (auto split: if_splits)
qed

lemma scaled_quotient:
  "(\<exists>d p. checked_pow (10 :: i128) k = Some d \<and> checked_mul x y = Some p \<and> checked_div p d = Some v) \<longleftrightarrow>
     unat k \<le> 38 \<and> in_signed 128 (sint x * sint y) \<and> sint v = trunc_div (sint x * sint y) (10 ^ unat k)"
    (is "?L \<longleftrightarrow> ?R")
proof
  assume ?L
  then show ?R
    by (auto simp: checked_pow_10 checked_mul_def checked_div_def checked_signed_Some split: if_splits)
next
  assume R: ?R
  obtain d where d: "checked_pow (10 :: i128) k = Some d"
    using R by (auto simp: checked_pow_def checked_signed_def in_signed_pow)
  obtain p where p: "checked_mul x y = Some p" using R by (auto simp: checked_mul_def checked_signed_def)
  have eqs: "sint d = 10 ^ unat k" "sint p = sint x * sint y"
    using d p by (auto simp: checked_pow_10 checked_mul_def checked_signed_Some)
  then have "d \<noteq> 0" by auto
  moreover have "in_signed 128 (trunc_div (sint x * sint y) (10 ^ unat k))" using R by (intro trunc_div_bound) simp_all
  ultimately have "checked_div p d = Some v" using R by (simp add: checked_div_def checked_signed_Some eqs)
  with d p show ?L by blast
qed


subsection \<open>Invariants of the stored sources, prices and reputations\<close>

definition sources_ok :: "'a oracle_storage_scheme \<Rightarrow> bool" where
  "sources_ok s \<longleftrightarrow> finite (dom (st_Source s)) \<and> unat (get_source_count s) = card (dom (st_Source s))
     \<and> dom (st_SourceName s) = dom (st_Source s)"

definition prices_ok :: "'a oracle_storage_scheme \<Rightarrow> bool" where
  "prices_ok s \<longleftrightarrow> distinct (get_all_assets s) \<and> set (get_all_assets s) = dom (st_LatestPrice s)
     \<and> (\<forall>a. length (get_price_history a s) \<le> MAX_HISTORY_LEN)
     \<and> (\<forall>a dp. st_LatestPrice s a = Some dp \<longrightarrow> dp_asset dp = a \<and> get_price_history a s \<noteq> []
              \<and> last (get_price_history a s) = dp)"

definition reputations_ok :: "'a oracle_storage_scheme \<Rightarrow> bool" where
  "reputations_ok s \<longleftrightarrow> (\<forall>a r. st_SourceReputation s a = Some r \<longrightarrow> reputation_ok r)"

definition storage_ok :: "'a oracle_storage_scheme \<Rightarrow> bool" where
  "storage_ok s \<longleftrightarrow> sources_ok s \<and> prices_ok s \<and> reputations_ok s"

definition data_part :: "'a oracle_storage_scheme \<Rightarrow> _" where
  "data_part s = (st_Source s, st_SourceName s, st_SourceCount s, st_LatestPrice s, st_AllAssets s,
     st_PriceHistory s, st_SourceReputation s)"

lemma storage_ok_cong: "data_part s' = data_part s \<Longrightarrow> storage_ok s' = storage_ok s"
  by (simp add: data_part_def storage_ok_def sources_ok_def prices_ok_def reputations_ok_def get_source_count_def
      get_all_assets_def get_price_history_def)

lemma storage_ok_publish [simp]: "storage_ok (publish env e s) = storage_ok s"
  by (rule storage_ok_cong) (simp add: data_part_def)

lemma storage_frame [simp]:
  "st_Source (update_reputation a p x ts s) = st_Source s"
  "st_SourceName (update_reputation a p x ts s) = st_SourceName s"
  "st_SourceCount (update_reputation a p x ts s) = st_SourceCount s"
  "st_LatestPrice (update_reputation a p x ts s) = st_LatestPrice s"
  "st_AllAssets (update_reputation a p x ts s) = st_AllAssets s"
  "st_PriceHistory (update_reputation a p x ts s) = st_PriceHistory s"
  "st_Source (set_latest_price x dp s) = st_Source s"
  "st_SourceName (set_latest_price x dp s) = st_SourceName s"
  "st_SourceCount (set_latest_price x dp s) = st_SourceCount s"
  "st_SourceReputation (set_latest_price x dp s) = st_SourceReputation s"
  "st_PriceHistory (set_latest_price x dp s) = st_PriceHistory s"
  "st_Source (append_history x dp s) = st_Source s"
  "st_SourceName (append_history x dp s) = st_SourceName s"
  "st_SourceCount (append_history x dp s) = st_SourceCount s"
  "st_SourceReputation (append_history x dp s) = st_SourceReputation s"
  "st_LatestPrice (append_history x dp s) = st_LatestPrice s"
  "st_AllAssets (append_history x dp s) = st_AllAssets s"
  "st_LatestPrice (remove_source a s) = st_LatestPrice s"
  "st_AllAssets (remove_source a s) = st_AllAssets s"
  "st_PriceHistory (remove_source a s) = st_PriceHistory s"
  "st_SourceReputation (remove_source a s) = st_SourceReputation s"
  by (simp_all add: update_reputation_def set_latest_price_def append_history_def remove_source_def Let_def)

lemma add_source_ok:
  assumes add: "add_source a n s = Inr s'" and ok: "storage_ok s"
  shows "storage_ok s'"
proof -
  have "st_LatestPrice s' = st_LatestPrice s" "st_AllAssets s' = st_AllAssets s"
    "st_PriceHistory s' = st_PriceHistory s" "st_SourceReputation s' = st_SourceReputation s"
    using add by (auto simp: add_source_def Let_def and_then_Inr split: if_splits)
  then have "prices_ok s'" "reputations_ok s'"
    using ok by (simp_all add: storage_ok_def prices_ok_def reputations_ok_def get_all_assets_def get_price_history_def)
  moreover have "sources_ok s'"
  proof (cases "st_Source s a")
    case None
    with add obtain count where c: "plain_add (get_source_count s) 1 = Inr count"
      "dom (st_Source s') = insert a (dom (st_Source s))" "dom (st_SourceName s') = insert a (dom (st_SourceName s))"
      "get_source_count s' = count"
      by (auto simp: add_source_def Let_def and_then_Inr get_source_count_def)
    have "a \<notin> dom (st_Source s)" using None by (simp add: domIff)
    then show ?thesis
      using ok plain_add_unat [OF c(1)] by (simp add: storage_ok_def sources_ok_def c(2-4))
  next
    case (Some b)
    with add have "dom (st_Source s') = dom (st_Source s)" "st_SourceName s' = st_SourceName s"
      "get_source_count s' = get_source_count s"
      by (auto simp: add_source_def get_source_count_def split: if_splits)
    then show ?thesis using ok by (simp add: storage_ok_def sources_ok_def)
  qed
  ultimately show ?thesis by (simp add: storage_ok_def)
qed

lemma remove_source_ok:
  assumes "storage_ok s"
  shows "storage_ok (remove_source a s)"
proof (cases "st_Source s a")
  case None
  then show ?thesis using assms by (simp add: remove_source_def)
next
  case (Some b)
  have fin: "finite (dom (st_Source s))" and cnt: "unat (get_source_count s) = card (dom (st_Source s))"
    using assms by (simp_all add: storage_ok_def sources_ok_def)
  have a: "a \<in> dom (st_Source s)" using Some by (simp add: domIff)
  then have "0 < card (dom (st_Source s))" using fin by (auto simp only: card_gt_0_iff)
  then have pos: "0 < get_source_count s" using cnt by (simp only: word_less_nat_alt unat_0)
  then have new: "dom (st_Source (remove_source a s)) = dom (st_Source s) - {a}"
    "dom (st_SourceName (remove_source a s)) = dom (st_SourceName s) - {a}"
    "get_source_count (remove_source a s) = get_source_count s - 1"
    using Some by (simp_all add: remove_source_def Let_def get_source_count_def)
  have "unat (get_source_count s - 1) = unat (get_source_count s) - 1"
    using pos by (simp add: unat_sub word_le_nat_alt word_less_nat_alt)
  then have "sources_ok (remove_source a s)"
    using assms a fin cnt by (simp add: storage_ok_def sources_ok_def new)
  then show ?thesis
    using assms by (simp add: storage_ok_def prices_ok_def reputations_ok_def get_all_assets_def get_price_history_def)
qed

lemma record_price_ok:
  assumes ok: "storage_ok s" and dp: "dp_asset dp = x"
  shows "storage_ok (append_history x dp (set_latest_price x dp (update_reputation a p x ts s)))" (is "storage_ok ?s")
proof -
  have "reputation_ok r" if "st_SourceReputation (update_reputation a p x ts s) b = Some r" for b r
  proof (cases "b = a")
    case True
    have "\<exists>r. st_SourceReputation (update_reputation a p x ts s) a = Some r \<and> reputation_ok r"
      using ok by (intro update_reputation_ok) (simp add: storage_ok_def reputations_ok_def)
    then show ?thesis using that True by auto
  next
    case False
    then show ?thesis
      using that ok by (auto simp: update_reputation_other storage_ok_def reputations_ok_def)
  qed
  then have "reputations_ok ?s" by (simp add: reputations_ok_def)
  moreover have "sources_ok ?s" using ok by (simp add: storage_ok_def sources_ok_def get_source_count_def)
  moreover have "prices_ok ?s"
  proof -
    have h: "get_price_history b (set_latest_price x dp (update_reputation a p x ts s)) = get_price_history b s" for b
      by (simp add: get_price_history_def)
    have assets: "get_all_assets ?s = (if st_LatestPrice s x = None then get_all_assets s @ [x] else get_all_assets s)"
      "st_LatestPrice ?s = (st_LatestPrice s)(x \<mapsto> dp)"
      by (simp_all add: append_history_def set_latest_price_def update_reputation_def Let_def get_all_assets_def)
    have len: "length (get_price_history b s) \<le> MAX_HISTORY_LEN" for b
      using ok by (simp add: storage_ok_def prices_ok_def)
    have "length (get_price_history b ?s) \<le> MAX_HISTORY_LEN" for b
      using len [of x] len [of b] by (auto simp: append_history_get h MAX_HISTORY_LEN_def)
    then show ?thesis
      using ok dp unfolding prices_ok_def assets by (auto simp: append_history_get h storage_ok_def prices_ok_def)
  qed
  ultimately show ?thesis by (simp add: storage_ok_def)
qed

end
