(* ===== verification/Oracle_Proxy.thy ===== *)
theory Oracle_Proxy
  imports Oracle_Utils
begin

text \<open>
  The upgradeable entry point \<open>contracts/price-oracle/src/proxy.rs\<close> with the keys of \<open>storage.rs\<close> that only
  it uses: timelocked upgrades under a quorum of signers, canary registration, price submission, and the
  committed version of the feed catalog. Replacing the installed code is a field of the state. What the
  host makes of a request to extend a lifetime is the argument \<open>host_ttl\<close>: previous lifetime, threshold and
  target give the new lifetime.
\<close>

definition UPGRADE_TIMELOCK_SECS :: u64 where "UPGRADE_TIMELOCK_SECS = 172800"
definition MIN_TTL_THRESHOLD_LEDGERS :: u32 where "MIN_TTL_THRESHOLD_LEDGERS = 17280"
definition MAX_TTL_EXTEND_TO_LEDGERS :: u32 where "MAX_TTL_EXTEND_TO_LEDGERS = 3110400"

record proxy_storage = oracle_storage +
  px_Implementation :: "address option"
  px_PreviousImplementation :: "address option"
  px_ContractVersion :: "u32 option"
  px_StorageLayoutVersion :: "u32 option"
  px_PendingUpgradeHash :: "bytes option"
  px_PendingUpgradeEta :: "u64 option"
  px_UpgradeApprovals :: "address list option"
  px_CanaryImplementation :: "address option"
  px_CanaryTrafficShareBps :: "u32 option"
  px_FeedCatalogCommitment :: "feed_catalog_commitment option"
  px_wasm :: bytes
  px_instance_ttl :: u32
  px_history_ttl :: "string \<Rightarrow> u32"

type_synonym 'v proxy_result = "failure + 'v \<times> proxy_storage"

subsection \<open>storage.rs, the keys of the proxy\<close>

definition get_contract_version :: "proxy_storage \<Rightarrow> u32" where
  "get_contract_version s = nullish (px_ContractVersion s) 0"

definition get_storage_layout_version :: "proxy_storage \<Rightarrow> u32" where
  "get_storage_layout_version s = nullish (px_StorageLayoutVersion s) 1"

definition set_pending_upgrade :: "bytes \<Rightarrow> u64 \<Rightarrow> proxy_storage \<Rightarrow> proxy_storage" where
  "set_pending_upgrade wasm_hash eta s =
     s\<lparr>px_PendingUpgradeHash := Some wasm_hash, px_PendingUpgradeEta := Some eta, px_UpgradeApprovals := Some []\<rparr>"

definition clear_pending_upgrade :: "proxy_storage \<Rightarrow> proxy_storage" where
  "clear_pending_upgrade s =
     s\<lparr>px_PendingUpgradeHash := None, px_PendingUpgradeEta := None, px_UpgradeApprovals := None\<rparr>"

definition get_upgrade_approvals :: "proxy_storage \<Rightarrow> address list" where
  "get_upgrade_approvals s = nullish (px_UpgradeApprovals s) []"

definition record_upgrade_approval :: "address \<Rightarrow> proxy_storage \<Rightarrow> proxy_storage" where
  "record_upgrade_approval signer s = s\<lparr>px_UpgradeApprovals := Some (get_upgrade_approvals s @ [signer])\<rparr>"

definition set_canary :: "address \<Rightarrow> u32 \<Rightarrow> proxy_storage \<Rightarrow> proxy_storage" where
  "set_canary implementation bps s =
     s\<lparr>px_CanaryImplementation := Some implementation, px_CanaryTrafficShareBps := Some bps\<rparr>"

definition get_canary :: "proxy_storage \<Rightarrow> (address \<times> u32) option" where
  "get_canary s = (case px_CanaryImplementation s of
     None \<Rightarrow> None | Some implementation \<Rightarrow> Some (implementation, nullish (px_CanaryTrafficShareBps s) 0))"

definition clear_canary :: "proxy_storage \<Rightarrow> proxy_storage" where
  "clear_canary s = s\<lparr>px_CanaryImplementation := None, px_CanaryTrafficShareBps := None\<rparr>"

definition extend_price_history_ttl ::
  "(u32 \<Rightarrow> u32 \<Rightarrow> u32 \<Rightarrow> u32) \<Rightarrow> env \<Rightarrow> address \<Rightarrow> string \<Rightarrow> u32 \<Rightarrow> u32 \<Rightarrow> proxy_storage \<Rightarrow> unit proxy_result" where
  "extend_price_history_ttl host_ttl env caller asset threshold extend_to s =
     and_then (require_auth env caller) (\<lambda>_.
       if extend_to < threshold \<or> threshold < MIN_TTL_THRESHOLD_LEDGERS \<or> extend_to > MAX_TTL_EXTEND_TO_LEDGERS
       then Inl (Contract InvalidTtlBounds)
       else if st_PriceHistory s asset = None then Inl (Contract AssetNotFound)
       else let prev_ttl = px_history_ttl s asset
            in if prev_ttl = 0 then Inl (Contract TtlSubFloor)
               else let new_ttl = host_ttl prev_ttl threshold extend_to;
                        s1 = s\<lparr>px_history_ttl := (px_history_ttl s)(asset := new_ttl)\<rparr>
                    in if new_ttl \<le> prev_ttl \<and> prev_ttl < threshold then Inl (Contract TtlSubFloor)
                       else Inr ((), publish env (TtlExtended asset caller prev_ttl new_ttl) s1))"

definition extend_instance_ttl ::
  "(u32 \<Rightarrow> u32 \<Rightarrow> u32 \<Rightarrow> u32) \<Rightarrow> env \<Rightarrow> address \<Rightarrow> u32 \<Rightarrow> u32 \<Rightarrow> proxy_storage \<Rightarrow> unit proxy_result" where
  "extend_instance_ttl host_ttl env caller threshold extend_to s =
     and_then (require_auth env caller) (\<lambda>_.
       if extend_to < threshold \<or> threshold < MIN_TTL_THRESHOLD_LEDGERS \<or> extend_to > MAX_TTL_EXTEND_TO_LEDGERS
       then Inl (Contract InvalidTtlBounds)
       else let prev_ttl = px_instance_ttl s
            in if prev_ttl = 0 then Inl (Contract TtlSubFloor)
               else let new_ttl = host_ttl prev_ttl threshold extend_to;
                        s1 = s\<lparr>px_instance_ttl := new_ttl\<rparr>
                    in if new_ttl \<le> prev_ttl \<and> prev_ttl < threshold then Inl (Contract TtlSubFloor)
                       else Inr ((), publish env (TtlExtended ''instance'' caller prev_ttl new_ttl) s1))"

subsection \<open>Upgrades\<close>

definition proxy_initialize :: "address \<Rightarrow> address \<Rightarrow> proxy_storage \<Rightarrow> unit proxy_result" where
  "proxy_initialize admin implementation s =
     Inr ((), s\<lparr>st_Admin := Some admin, px_Implementation := Some implementation,
       px_ContractVersion := Some 1, px_StorageLayoutVersion := Some 1\<rparr>)"

definition proxy_init_multisig :: "env \<Rightarrow> address \<Rightarrow> address list \<Rightarrow> u32 \<Rightarrow> proxy_storage \<Rightarrow> unit proxy_result" where
  "proxy_init_multisig env admin signers threshold s = as_admin env admin s
     (if threshold = 0 \<or> unat threshold > length signers then Inl (Contract InvalidThreshold)
      else Inr ((), s\<lparr>st_MultiSigConfig := Some \<lparr>cm_signers = signers, cm_threshold = threshold\<rparr>\<rparr>))"

definition propose_upgrade :: "env \<Rightarrow> address \<Rightarrow> bytes \<Rightarrow> proxy_storage \<Rightarrow> u64 proxy_result" where
  "propose_upgrade env admin new_wasm_hash s = as_admin env admin s
     (and_then (ok_or (st_MultiSigConfig s) MultiSigNotInitialized) (\<lambda>_.
      and_then (plain_add (env_timestamp env) UPGRADE_TIMELOCK_SECS) (\<lambda>eta.
        Inr (eta, publish env (UpgradeProposed admin new_wasm_hash eta) (set_pending_upgrade new_wasm_hash eta s)))))"

definition approve_upgrade :: "env \<Rightarrow> address \<Rightarrow> proxy_storage \<Rightarrow> u32 proxy_result" where
  "approve_upgrade env signer s =
     and_then (require_auth env signer) (\<lambda>_.
     and_then (ok_or (st_MultiSigConfig s) MultiSigNotInitialized) (\<lambda>config.
       if \<not> vec_contains_address (cm_signers config) signer then Inl (Contract NotASigner)
       else and_then (ok_or (px_PendingUpgradeHash s) UpgradeNotProposed) (\<lambda>_.
         let approvals = get_upgrade_approvals s
         in if vec_contains_address approvals signer then Inl (Contract UpgradeAlreadyApproved)
            else let s1 = record_upgrade_approval signer s;
                     count = of_nat (length (get_upgrade_approvals s1))
                 in Inr (count, publish env (UpgradeApproved signer count) s1))))"

definition execute_upgrade :: "env \<Rightarrow> address \<Rightarrow> proxy_storage \<Rightarrow> unit proxy_result" where
  "execute_upgrade env caller s =
     and_then (require_auth env caller) (\<lambda>_.
     and_then (ok_or (px_PendingUpgradeHash s) UpgradeNotProposed) (\<lambda>new_wasm_hash.
       let eta = nullish (px_PendingUpgradeEta s) (-1)
       in if env_timestamp env < eta then Inl (Contract UpgradeTimelockNotElapsed)
          else and_then (ok_or (st_MultiSigConfig s) MultiSigNotInitialized) (\<lambda>config.
            let approvals = get_upgrade_approvals s
            in if length approvals < unat (cm_threshold config) then Inl (Contract ThresholdNotMet)
               else and_then (plain_add (get_contract_version s) 1) (\<lambda>version.
                 let s1 = clear_pending_upgrade (s\<lparr>px_ContractVersion := Some version\<rparr>);
                     s2 = publish env (UpgradeExecuted new_wasm_hash version) s1
                 in Inr ((), s2\<lparr>px_wasm := new_wasm_hash\<rparr>)))))"

definition cancel_upgrade :: "env \<Rightarrow> address \<Rightarrow> proxy_storage \<Rightarrow> unit proxy_result" where
  "cancel_upgrade env admin s = as_admin env admin s (Inr ((), clear_pending_upgrade s))"

definition proxy_set_canary :: "env \<Rightarrow> address \<Rightarrow> address \<Rightarrow> u32 \<Rightarrow> proxy_storage \<Rightarrow> unit proxy_result" where
  "proxy_set_canary env admin canary traffic_share_bps s = as_admin env admin s
     (if traffic_share_bps > 10000 then Inl (Contract InvalidThreshold)
      else Inr ((), publish env (CanarySet canary traffic_share_bps) (set_canary canary traffic_share_bps s)))"

definition retire_implementation :: "proxy_storage \<Rightarrow> proxy_storage" where
  "retire_implementation s = (case px_Implementation s of
     Some old \<Rightarrow> s\<lparr>px_PreviousImplementation := Some old\<rparr> | None \<Rightarrow> s)"

definition promote_canary :: "env \<Rightarrow> address \<Rightarrow> proxy_storage \<Rightarrow> unit proxy_result" where
  "promote_canary env admin s = as_admin env admin s
     (and_then (ok_or (get_canary s) UpgradeNotProposed) (\<lambda>(canary, _).
        let s1 = (retire_implementation s)\<lparr>px_Implementation := Some canary\<rparr>
        in and_then (plain_add (get_contract_version s1) 1) (\<lambda>version.
             Inr ((), publish env (CanaryPromoted canary version)
               (clear_canary (s1\<lparr>px_ContractVersion := Some version\<rparr>))))))"

definition upgrade :: "env \<Rightarrow> address \<Rightarrow> address \<Rightarrow> proxy_storage \<Rightarrow> unit proxy_result" where
  "upgrade env admin new_implementation s = as_admin env admin s
     (let s1 = (retire_implementation s)\<lparr>px_Implementation := Some new_implementation\<rparr>
      in and_then (plain_add (get_contract_version s1) 1) (\<lambda>version.
           Inr ((), publish env (ImplementationUpdated admin new_implementation version)
             (s1\<lparr>px_ContractVersion := Some version\<rparr>))))"

definition proxy_set_storage_layout_version :: "env \<Rightarrow> address \<Rightarrow> u32 \<Rightarrow> proxy_storage \<Rightarrow> unit proxy_result" where
  "proxy_set_storage_layout_version env admin version s = as_admin env admin s
     (Inr ((), s\<lparr>px_StorageLayoutVersion := Some version\<rparr>))"

definition proxy_set_admin :: "env \<Rightarrow> address \<Rightarrow> address \<Rightarrow> proxy_storage \<Rightarrow> unit proxy_result" where
  "proxy_set_admin env current_admin new_admin s = as_admin env current_admin s
     (Inr ((), s\<lparr>st_Admin := Some new_admin\<rparr>))"

definition proxy_set_deviation_threshold :: "env \<Rightarrow> address \<Rightarrow> u32 \<Rightarrow> proxy_storage \<Rightarrow> unit proxy_result" where
  "proxy_set_deviation_threshold env admin threshold_bps s = as_admin env admin s
     (Inr ((), s\<lparr>st_DeviationThreshold := Some threshold_bps\<rparr>))"

subsection \<open>Prices, sources and the feed catalog\<close>

definition proxy_get_source_reputation :: "env \<Rightarrow> address \<Rightarrow> proxy_storage \<Rightarrow> source_reputation option" where
  "proxy_get_source_reputation env source s =
     (case st_SourceReputation s source of None \<Rightarrow> None
      | Some rep \<Rightarrow> Some (apply_reputation_decay (env_timestamp env) rep))"

definition proxy_reset_reputation :: "env \<Rightarrow> address \<Rightarrow> address \<Rightarrow> proxy_storage \<Rightarrow> unit proxy_result" where
  "proxy_reset_reputation env admin source s = as_admin env admin s
     (Inr ((), s\<lparr>st_SourceReputation := (st_SourceReputation s)(source := None)\<rparr>))"

definition proxy_submit_price ::
  "env \<Rightarrow> address \<Rightarrow> string \<Rightarrow> i128 \<Rightarrow> u32 \<Rightarrow> u64 \<Rightarrow> proxy_storage \<Rightarrow> price_data_point proxy_result" where
  "proxy_submit_price env source asset price decimals timestamp s =
     and_then (require_auth env source) (\<lambda>_.
       if \<not> is_authorized_source source s then Inl (Contract UnauthorizedSource)
       else if (case st_DeviationThreshold s of
                  None \<Rightarrow> False
                | Some threshold_bps \<Rightarrow>
                    (case st_LatestPrice s asset of
                       None \<Rightarrow> False
                     | Some prev \<Rightarrow> deviation_exceeds price (dp_price prev) threshold_bps))
            then Inl (Contract PriceDeviationTooLarge)
       else let s1 = update_reputation source price asset timestamp s;
                data_point = \<lparr>dp_asset = asset, dp_price = price, dp_decimals = decimals,
                  dp_timestamp = timestamp, dp_source = source\<rparr>;
                s2 = set_latest_price asset data_point s1;
                s3 = append_history asset data_point s2
            in Inr (data_point, publish env (PriceSubmitted asset source price timestamp) s3))"

definition proxy_get_price :: "string \<Rightarrow> proxy_storage \<Rightarrow> asset_price option" where
  "proxy_get_price asset s =
     (case st_LatestPrice s asset of
        None \<Rightarrow> None
      | Some dp \<Rightarrow> Some \<lparr>ap_asset = dp_asset dp, ap_price = dp_price dp, ap_decimals = dp_decimals dp,
          ap_price_usd = calculate_usd_price (dp_asset dp) (dp_price dp) (dp_decimals dp) s,
          ap_timestamp = dp_timestamp dp, ap_source = dp_source dp, ap_num_sources = get_source_count s,
          ap_is_trusted = is_trusted_asset asset s\<rparr>)"

definition proxy_get_price_history :: "string \<Rightarrow> u32 \<Rightarrow> proxy_storage \<Rightarrow> price_data_point list" where
  "proxy_get_price_history asset limit s =
     (let all_history = get_price_history asset s;
          len = length all_history;
          start = (if len > unat limit then len - unat limit else 0)
      in map (\<lambda>i. all_history ! i) [start..<len])"

definition add_oracle_source :: "env \<Rightarrow> address \<Rightarrow> address \<Rightarrow> string \<Rightarrow> proxy_storage \<Rightarrow> unit proxy_result" where
  "add_oracle_source env admin source name s = as_admin env admin s
     (and_then (add_source source name s) (\<lambda>s1. Inr ((), s1)))"

definition remove_oracle_source :: "env \<Rightarrow> address \<Rightarrow> address \<Rightarrow> proxy_storage \<Rightarrow> unit proxy_result" where
  "remove_oracle_source env admin source s = as_admin env admin s (Inr ((), remove_source source s))"

definition proxy_set_trusted_asset :: "env \<Rightarrow> address \<Rightarrow> string \<Rightarrow> bool \<Rightarrow> proxy_storage \<Rightarrow> unit proxy_result" where
  "proxy_set_trusted_asset env admin asset trusted s = as_admin env admin s
     (Inr ((), set_trusted_asset asset trusted s))"

definition commit_feed_catalog :: "env \<Rightarrow> address \<Rightarrow> u32 \<Rightarrow> bytes \<Rightarrow> proxy_storage \<Rightarrow> unit proxy_result" where
  "commit_feed_catalog env admin version catalog_hash s = as_admin env admin s
     (if version = 0 then Inl (Contract (Undeclared ''InvalidCatalogVersion''))
      else if (case px_FeedCatalogCommitment s of None \<Rightarrow> False | Some existing \<Rightarrow> version \<le> cc_version existing)
           then Inl (Contract (Undeclared ''InvalidCatalogVersion''))
      else let s1 = s\<lparr>px_FeedCatalogCommitment := Some \<lparr>cc_version = version, cc_catalog_hash = catalog_hash,
                 cc_updated_at = env_timestamp env, cc_publisher = admin\<rparr>\<rparr>
           in Inr ((), publish env (FeedCatalogCommitted admin version catalog_hash (env_timestamp env)) s1))"

definition get_feed_catalog_version :: "proxy_storage \<Rightarrow> u32" where
  "get_feed_catalog_version s = (case px_FeedCatalogCommitment s of None \<Rightarrow> 0 | Some c \<Rightarrow> cc_version c)"

subsection \<open>Histories of calls\<close>

datatype proxy_call =
    Initialize address address | InitMultisig address "address list" u32 | ProposeUpgrade address bytes
  | ApproveUpgrade address | ExecuteUpgrade address | CancelUpgrade address | SetCanary address address u32
  | PromoteCanary address | Upgrade address address | SetLayoutVersion address u32 | SetProxyAdmin address address
  | SetDeviation address u32 | ResetSourceReputation address address
  | SubmitPrice address string i128 u32 u64 | AddSourceCall address address string
  | RemoveSourceCall address address | SetTrusted address string bool | CommitCatalog address u32 bytes
  | ExtendInstance address u32 u32 | ExtendHistory address string u32 u32

definition stored :: "'v proxy_result \<Rightarrow> failure + proxy_storage" where
  "stored r = and_then r (\<lambda>(_, s). Inr s)"

fun proxy_call_exec :: "(u32 \<Rightarrow> u32 \<Rightarrow> u32 \<Rightarrow> u32) \<Rightarrow> env \<Rightarrow> proxy_call \<Rightarrow> proxy_storage \<Rightarrow> failure + proxy_storage" where
  "proxy_call_exec h env (Initialize a i) s = stored (proxy_initialize a i s)"
| "proxy_call_exec h env (InitMultisig a ss t) s = stored (proxy_init_multisig env a ss t s)"
| "proxy_call_exec h env (ProposeUpgrade a w) s = stored (propose_upgrade env a w s)"
| "proxy_call_exec h env (ApproveUpgrade a) s = stored (approve_upgrade env a s)"
| "proxy_call_exec h env (ExecuteUpgrade a) s = stored (execute_upgrade env a s)"
| "proxy_call_exec h env (CancelUpgrade a) s = stored (cancel_upgrade env a s)"
| "proxy_call_exec h env (SetCanary a c b) s = stored (proxy_set_canary env a c b s)"
| "proxy_call_exec h env (PromoteCanary a) s = stored (promote_canary env a s)"
| "proxy_call_exec h env (Upgrade a i) s = stored (upgrade env a i s)"
| "proxy_call_exec h env (SetLayoutVersion a v) s = stored (proxy_set_storage_layout_version env a v s)"
| "proxy_call_exec h env (SetProxyAdmin a b) s = stored (proxy_set_admin env a b s)"
| "proxy_call_exec h env (SetDeviation a t) s = stored (proxy_set_deviation_threshold env a t s)"
| "proxy_call_exec h env (ResetSourceReputation a b) s = stored (proxy_reset_reputation env a b s)"
| "proxy_call_exec h env (SubmitPrice a x p d t) s = stored (proxy_submit_price env a x p d t s)"
| "proxy_call_exec h env (AddSourceCall a b n) s = stored (add_oracle_source env a b n s)"
| "proxy_call_exec h env (RemoveSourceCall a b) s = stored (remove_oracle_source env a b s)"
| "proxy_call_exec h env (SetTrusted a x b) s = stored (proxy_set_trusted_asset env a x b s)"
| "proxy_call_exec h env (CommitCatalog a v c) s = stored (commit_feed_catalog env a v c s)"
| "proxy_call_exec h env (ExtendInstance a t e) s = stored (extend_instance_ttl h env a t e s)"
| "proxy_call_exec h env (ExtendHistory a x t e) s = stored (extend_price_history_ttl h env a x t e s)"

definition fresh_proxy :: proxy_storage where
  "fresh_proxy = \<lparr>st_Admin = None, st_Source = Map.empty, st_SourceName = Map.empty, st_SourceCount = None,
     st_LatestPrice = Map.empty, st_AllAssets = None, st_PriceHistory = Map.empty, st_TrustedAsset = Map.empty,
     st_DeviationThreshold = None, st_SourceReputation = Map.empty, st_MultiSigConfig = None, st_events = [],
     px_Implementation = None, px_PreviousImplementation = None, px_ContractVersion = None,
     px_StorageLayoutVersion = None, px_PendingUpgradeHash = None, px_PendingUpgradeEta = None,
     px_UpgradeApprovals = None, px_CanaryImplementation = None, px_CanaryTrafficShareBps = None,
     px_FeedCatalogCommitment = None, px_wasm = [], px_instance_ttl = 0, px_history_ttl = (\<lambda>_. 0)\<rparr>"

text \<open>
  A history is any sequence of successful calls, each kept with its environment and the storage it found;
  a failing call leaves the storage as it was.
\<close>

inductive proxy_run ::
  "(u32 \<Rightarrow> u32 \<Rightarrow> u32 \<Rightarrow> u32) \<Rightarrow> (env \<times> proxy_call \<times> proxy_storage) list \<Rightarrow> proxy_storage \<Rightarrow> bool" for h where
  start: "proxy_run h [] fresh_proxy"
| call: "proxy_run h tr s \<Longrightarrow> proxy_call_exec h env c s = Inr s' \<Longrightarrow> proxy_run h (tr @ [(env, c, s)]) s'"

lemma stored_Inr: "stored r = Inr s \<longleftrightarrow> (\<exists>v. r = Inr (v, s))"
  by (auto simp: stored_def and_then_Inr)

named_theorems proxy_ops \<open>definitions of the operations of the proxy\<close>

declare proxy_initialize_def [proxy_ops] proxy_init_multisig_def [proxy_ops] propose_upgrade_def [proxy_ops]
  approve_upgrade_def [proxy_ops] execute_upgrade_def [proxy_ops] cancel_upgrade_def [proxy_ops]
  proxy_set_canary_def [proxy_ops] promote_canary_def [proxy_ops] upgrade_def [proxy_ops]
  proxy_set_storage_layout_version_def [proxy_ops] proxy_set_admin_def [proxy_ops]
  proxy_set_deviation_threshold_def [proxy_ops] proxy_reset_reputation_def [proxy_ops]
  proxy_submit_price_def [proxy_ops] add_oracle_source_def [proxy_ops] remove_oracle_source_def [proxy_ops]
  proxy_set_trusted_asset_def [proxy_ops] commit_feed_catalog_def [proxy_ops]
  extend_instance_ttl_def [proxy_ops] extend_price_history_ttl_def [proxy_ops]

lemmas proxy_results = stored_Inr as_admin_Inr and_then_Inr Let_def

lemmas proxy_setters = set_pending_upgrade_def clear_pending_upgrade_def record_upgrade_approval_def set_canary_def
  clear_canary_def retire_implementation_def set_trusted_asset_def publish_def

lemma price_frame [simp]:
  "px_FeedCatalogCommitment (update_reputation a p x ts s) = px_FeedCatalogCommitment s"
  "px_PendingUpgradeHash (update_reputation a p x ts s) = px_PendingUpgradeHash s"
  "px_PendingUpgradeEta (update_reputation a p x ts s) = px_PendingUpgradeEta s"
  "px_UpgradeApprovals (update_reputation a p x ts s) = px_UpgradeApprovals s"
  "st_events (update_reputation a p x ts s) = st_events s"
  "st_MultiSigConfig (update_reputation a p x ts s) = st_MultiSigConfig s"
  "px_FeedCatalogCommitment (set_latest_price x dp s) = px_FeedCatalogCommitment s"
  "px_PendingUpgradeHash (set_latest_price x dp s) = px_PendingUpgradeHash s"
  "px_PendingUpgradeEta (set_latest_price x dp s) = px_PendingUpgradeEta s"
  "px_UpgradeApprovals (set_latest_price x dp s) = px_UpgradeApprovals s"
  "st_events (set_latest_price x dp s) = st_events s"
  "st_MultiSigConfig (set_latest_price x dp s) = st_MultiSigConfig s"
  "px_FeedCatalogCommitment (append_history x dp s) = px_FeedCatalogCommitment s"
  "px_PendingUpgradeHash (append_history x dp s) = px_PendingUpgradeHash s"
  "px_PendingUpgradeEta (append_history x dp s) = px_PendingUpgradeEta s"
  "px_UpgradeApprovals (append_history x dp s) = px_UpgradeApprovals s"
  "st_events (append_history x dp s) = st_events s"
  "st_MultiSigConfig (append_history x dp s) = st_MultiSigConfig s"
  "px_FeedCatalogCommitment (remove_source a s) = px_FeedCatalogCommitment s"
  "px_PendingUpgradeHash (remove_source a s) = px_PendingUpgradeHash s"
  "px_PendingUpgradeEta (remove_source a s) = px_PendingUpgradeEta s"
  "px_UpgradeApprovals (remove_source a s) = px_UpgradeApprovals s"
  "st_events (remove_source a s) = st_events s"
  "st_MultiSigConfig (remove_source a s) = st_MultiSigConfig s"
  by (simp_all add: update_reputation_def set_latest_price_def append_history_def remove_source_def Let_def)

lemma add_source_frame:
  "add_source a n s = Inr s' \<Longrightarrow> px_FeedCatalogCommitment s' = px_FeedCatalogCommitment s
     \<and> px_PendingUpgradeHash s' = px_PendingUpgradeHash s \<and> px_PendingUpgradeEta s' = px_PendingUpgradeEta s
     \<and> px_UpgradeApprovals s' = px_UpgradeApprovals s \<and> st_events s' = st_events s
     \<and> st_MultiSigConfig s' = st_MultiSigConfig s"
  by (auto simp: add_source_def Let_def and_then_Inr split: if_splits)

subsection \<open>Versions of the feed catalog\<close>

definition catalog_log :: "proxy_storage \<Rightarrow> u32 list" where
  "catalog_log s = concat (map (\<lambda>(_, e). case e of FeedCatalogCommitted _ v _ _ \<Rightarrow> [v] | _ \<Rightarrow> []) (st_events s))"

lemma catalog_log_publish [simp]:
  "catalog_log (publish env e s) = catalog_log s @ (case e of FeedCatalogCommitted _ v _ _ \<Rightarrow> [v] | _ \<Rightarrow> [])"
  by (simp add: catalog_log_def)

lemma catalog_log_cong: "st_events s = st_events s' \<Longrightarrow> catalog_log s = catalog_log s'"
  by (simp add: catalog_log_def)

lemma catalog_frame:
  assumes "proxy_call_exec h env c s = Inr s'" and "\<And>a v w. c \<noteq> CommitCatalog a v w"
  shows "px_FeedCatalogCommitment s' = px_FeedCatalogCommitment s \<and> catalog_log s' = catalog_log s"
  using assms
  by (cases c) (auto simp: catalog_log_def proxy_ops proxy_results proxy_setters dest!: add_source_frame split: if_splits option.splits)

text \<open>
  Over any history of calls, the committed versions of the feed catalog strictly increase, and the
  version the contract reports is the last one committed.
\<close>
theorem catalog_commitments_increase:
  assumes "proxy_run h tr s"
  shows "sorted_wrt (<) (0 # catalog_log s) \<and> get_feed_catalog_version s = last (0 # catalog_log s)"
  using assms
proof induction
  case start
  then show ?case by (simp add: fresh_proxy_def catalog_log_def get_feed_catalog_version_def)
next
  case (call tr s env c s')
  show ?case
  proof (cases "\<exists>a v w. c = CommitCatalog a v w")
    case False
    with catalog_frame [OF call.hyps(2)] call.IH show ?thesis by (simp add: get_feed_catalog_version_def)
  next
    case True
    then obtain a v w where c: "c = CommitCatalog a v w" by blast
    have new: "get_feed_catalog_version s < v" "catalog_log s' = catalog_log s @ [v]" "get_feed_catalog_version s' = v"
      using call.hyps(2) by (auto simp: c commit_feed_catalog_def proxy_results get_feed_catalog_version_def
          catalog_log_def word_neq_0_conv publish_def split: if_splits option.splits)
    have "x < v" if "x \<in> set (0 # catalog_log s)" for x
    proof -
      have "x \<le> last (0 # catalog_log s)"
        using call.IH that by (cases "catalog_log s" rule: rev_cases) (auto simp: sorted_wrt_append)
      then show ?thesis using new(1) call.IH by simp
    qed
    then have "sorted_wrt (<) ((0 # catalog_log s) @ [v])" using call.IH by (simp only: sorted_wrt_append) simp
    then show ?thesis by (simp add: new)
  qed
qed

subsection \<open>Upgrades need time and signers\<close>

fun upgrade_call :: "proxy_call \<Rightarrow> bool" where
  "upgrade_call (ProposeUpgrade a w) = True"
| "upgrade_call (ExecuteUpgrade a) = True"
| "upgrade_call (CancelUpgrade a) = True"
| "upgrade_call _ = False"

definition approved_in :: "(env \<times> proxy_call \<times> proxy_storage) list \<Rightarrow> address \<Rightarrow> bool" where
  "approved_in tr x \<longleftrightarrow> (\<exists>env s config. (env, ApproveUpgrade x, s) \<in> set tr \<and> x \<in> set (env_auth env)
     \<and> st_MultiSigConfig s = Some config \<and> x \<in> set (cm_signers config))"

definition pending_ok :: "(env \<times> proxy_call \<times> proxy_storage) list \<Rightarrow> proxy_storage \<Rightarrow> bool" where
  "pending_ok tr s \<longleftrightarrow> (\<forall>w. px_PendingUpgradeHash s = Some w \<longrightarrow>
     (\<exists>pre env admin sp post eta. tr = pre @ (env, ProposeUpgrade admin w, sp) # post
        \<and> admin \<in> set (env_auth env) \<and> st_Admin sp = Some admin
        \<and> plain_add (env_timestamp env) UPGRADE_TIMELOCK_SECS = Inr eta \<and> px_PendingUpgradeEta s = Some eta
        \<and> distinct (get_upgrade_approvals s) \<and> (\<forall>x\<in>set (get_upgrade_approvals s). approved_in post x)
        \<and> (\<forall>(_, c, _)\<in>set post. \<not> upgrade_call c)))"

lemma upgrade_frame:
  assumes "proxy_call_exec h env c s = Inr s'" "\<not> upgrade_call c" "\<And>a. c \<noteq> ApproveUpgrade a"
  shows "px_PendingUpgradeHash s' = px_PendingUpgradeHash s \<and> px_PendingUpgradeEta s' = px_PendingUpgradeEta s
     \<and> get_upgrade_approvals s' = get_upgrade_approvals s"
  using assms
  by (cases c) (auto simp: get_upgrade_approvals_def proxy_ops proxy_results proxy_setters
      dest!: add_source_frame split: if_splits option.splits)

lemma approved_in_append: "approved_in (tr @ tr') x \<longleftrightarrow> approved_in tr x \<or> approved_in tr' x"
  unfolding approved_in_def set_append by blast

lemma pending_ok_extend:
  assumes ok: "pending_ok tr s" and h: "px_PendingUpgradeHash s' = px_PendingUpgradeHash s"
    and e: "px_PendingUpgradeEta s' = px_PendingUpgradeEta s" and c: "\<not> upgrade_call c"
    and d: "distinct (get_upgrade_approvals s) \<Longrightarrow> distinct (get_upgrade_approvals s')"
    and a: "\<And>x. x \<in> set (get_upgrade_approvals s') \<Longrightarrow> x \<in> set (get_upgrade_approvals s) \<or> approved_in [(env, c, s)] x"
  shows "pending_ok (tr @ [(env, c, s)]) s'"
  unfolding pending_ok_def
proof (intro allI impI)
  fix w
  assume "px_PendingUpgradeHash s' = Some w"
  then obtain pre env' admin sp post eta where old: "tr = pre @ (env', ProposeUpgrade admin w, sp) # post"
    "admin \<in> set (env_auth env')" "st_Admin sp = Some admin"
    "plain_add (env_timestamp env') UPGRADE_TIMELOCK_SECS = Inr eta" "px_PendingUpgradeEta s = Some eta"
    "distinct (get_upgrade_approvals s)" "\<forall>x\<in>set (get_upgrade_approvals s). approved_in post x"
    "\<forall>(_, c, _)\<in>set post. \<not> upgrade_call c"
    using ok h unfolding pending_ok_def by metis
  have "tr @ [(env, c, s)] = pre @ (env', ProposeUpgrade admin w, sp) # (post @ [(env, c, s)])" using old(1) by simp
  moreover have "approved_in (post @ [(env, c, s)]) x" if "x \<in> set (get_upgrade_approvals s')" for x
    using a [OF that] old(7) by (auto simp: approved_in_append)
  moreover have "\<forall>(_, c', _)\<in>set (post @ [(env, c, s)]). \<not> upgrade_call c'" using old(8) c by auto
  ultimately show "\<exists>pre env'' admin sp post eta. tr @ [(env, c, s)] = pre @ (env'', ProposeUpgrade admin w, sp) # post
      \<and> admin \<in> set (env_auth env'') \<and> st_Admin sp = Some admin
      \<and> plain_add (env_timestamp env'') UPGRADE_TIMELOCK_SECS = Inr eta \<and> px_PendingUpgradeEta s' = Some eta
      \<and> distinct (get_upgrade_approvals s') \<and> (\<forall>x\<in>set (get_upgrade_approvals s'). approved_in post x)
      \<and> (\<forall>(_, c, _)\<in>set post. \<not> upgrade_call c)"
    using old(2-5) e d [OF old(6)] by metis
qed

lemma pending_ok_run: "proxy_run h tr s \<Longrightarrow> pending_ok tr s"
proof (induction rule: proxy_run.induct)
  case start
  then show ?case by (simp add: pending_ok_def fresh_proxy_def)
next
  case (call tr s env c s')
  consider (approve) a where "c = ApproveUpgrade a" | (propose) a w where "c = ProposeUpgrade a w"
    | (clear) "upgrade_call c" "\<And>a w. c \<noteq> ProposeUpgrade a w" | (other) "\<not> upgrade_call c" "\<And>a. c \<noteq> ApproveUpgrade a"
    by (cases "upgrade_call c") blast+
  then show ?case
  proof cases
    case approve
    with call.hyps(2) obtain config where "a \<in> set (env_auth env)" "st_MultiSigConfig s = Some config"
      "a \<in> set (cm_signers config)" "a \<notin> set (get_upgrade_approvals s)"
      "px_PendingUpgradeHash s' = px_PendingUpgradeHash s" "px_PendingUpgradeEta s' = px_PendingUpgradeEta s"
      "get_upgrade_approvals s' = get_upgrade_approvals s @ [a]"
      by (auto simp: approve_upgrade_def proxy_results record_upgrade_approval_def publish_def
          get_upgrade_approvals_def split: if_splits)
    then show ?thesis by (intro pending_ok_extend [OF call.IH]) (auto simp: approve approved_in_def)
  next
    case propose
    with call.hyps(2) show ?thesis
      by (fastforce simp: pending_ok_def propose_upgrade_def proxy_results set_pending_upgrade_def publish_def
          get_upgrade_approvals_def)
  next
    case clear
    then have "px_PendingUpgradeHash s' = None"
      using call.hyps(2) by (cases c) (auto simp: execute_upgrade_def cancel_upgrade_def proxy_results
          clear_pending_upgrade_def publish_def split: if_splits)
    then show ?thesis by (simp add: pending_ok_def)
  next
    case other
    with upgrade_frame [OF call.hyps(2)] show ?thesis by (intro pending_ok_extend [OF call.IH]) auto
  qed
qed

text \<open>
  (C30) Code installed by \<open>execute_upgrade\<close> was proposed by the admin at least 48 hours before, no proposal,
  cancellation or upgrade came in between, and since then at least the threshold of different signers
  authorised an approval while they were configured.
\<close>
theorem executed_upgrade_carried:
  assumes run: "proxy_run h tr s" and exec: "execute_upgrade env caller s = Inr ((), s')"
  shows "\<exists>pre penv admin sp post config.
     tr = pre @ (penv, ProposeUpgrade admin (px_wasm s'), sp) # post \<and> (\<forall>(_, c, _)\<in>set post. \<not> upgrade_call c)
     \<and> admin \<in> set (env_auth penv) \<and> st_Admin sp = Some admin
     \<and> unat (env_timestamp penv) + 172800 \<le> unat (env_timestamp env)
     \<and> st_MultiSigConfig s = Some config
     \<and> (\<exists>xs. distinct xs \<and> unat (cm_threshold config) \<le> length xs \<and> (\<forall>x\<in>set xs. approved_in post x))"
proof -
  from exec obtain w config where w: "px_PendingUpgradeHash s = Some w" "px_wasm s' = w"
    "st_MultiSigConfig s = Some config" "unat (cm_threshold config) \<le> length (get_upgrade_approvals s)"
    "\<not> env_timestamp env < nullish (px_PendingUpgradeEta s) (-1)"
    by (auto simp: execute_upgrade_def proxy_results split: if_splits)
  from pending_ok_run [OF run] w(1) obtain pre penv admin sp post eta where p:
    "tr = pre @ (penv, ProposeUpgrade admin w, sp) # post" "admin \<in> set (env_auth penv)" "st_Admin sp = Some admin"
    "plain_add (env_timestamp penv) UPGRADE_TIMELOCK_SECS = Inr eta" "px_PendingUpgradeEta s = Some eta"
    "distinct (get_upgrade_approvals s)" "\<forall>x\<in>set (get_upgrade_approvals s). approved_in post x"
    "\<forall>(_, c, _)\<in>set post. \<not> upgrade_call c"
    unfolding pending_ok_def by metis
  have "unat (env_timestamp penv) + 172800 \<le> unat (env_timestamp env)"
    using w(5) plain_add_unat [OF p(4)] by (simp add: p(5) not_less word_le_nat_alt UPGRADE_TIMELOCK_SECS_def)
  then show ?thesis using w p by blast
qed

subsection \<open>Stored data\<close>

fun data_call :: "proxy_call \<Rightarrow> bool" where
  "data_call (SubmitPrice a x p d t) = True"
| "data_call (AddSourceCall a b n) = True"
| "data_call (RemoveSourceCall a b) = True"
| "data_call (ResetSourceReputation a b) = True"
| "data_call _ = False"

lemma data_frame:
  assumes "proxy_call_exec h env c s = Inr s'" "\<not> data_call c"
  shows "data_part s' = data_part s"
  using assms
  by (cases c) (auto simp: data_part_def proxy_ops proxy_results proxy_setters split: if_splits option.splits)

lemma storage_ok_step:
  assumes "proxy_call_exec h env c s = Inr s'" "storage_ok s"
  shows "storage_ok s'"
proof (cases "data_call c")
  case False
  then show ?thesis using storage_ok_cong [OF data_frame [OF assms(1)]] assms(2) by blast
next
  case True
  then show ?thesis
  proof (cases c)
    case (SubmitPrice a x p d t)
    let ?dp = "\<lparr>dp_asset = x, dp_price = p, dp_decimals = d, dp_timestamp = t, dp_source = a\<rparr>"
    have "s' = publish env (PriceSubmitted x a p t) (append_history x ?dp (set_latest_price x ?dp (update_reputation a p x t s)))"
      using assms(1) by (auto simp: SubmitPrice proxy_submit_price_def proxy_results split: if_splits)
    moreover have "storage_ok (append_history x ?dp (set_latest_price x ?dp (update_reputation a p x t s)))"
      by (rule record_price_ok [OF assms(2)]) simp
    ultimately show ?thesis by simp
  next
    case (AddSourceCall a b n)
    then show ?thesis using assms by (auto simp: add_oracle_source_def proxy_results intro: add_source_ok)
  next
    case (RemoveSourceCall a b)
    then show ?thesis using assms by (auto simp: remove_oracle_source_def proxy_results intro: remove_source_ok)
  next
    case (ResetSourceReputation a b)
    then have "s' = s\<lparr>st_SourceReputation := (st_SourceReputation s)(b := None)\<rparr>"
      using assms by (simp add: proxy_reset_reputation_def proxy_results)
    then show ?thesis using assms(2)
      by (simp add: storage_ok_def sources_ok_def prices_ok_def reputations_ok_def get_source_count_def
          get_all_assets_def get_price_history_def)
  qed simp_all
qed

text \<open>
  (C31) Over any history of calls the source counter counts the registered sources, the asset list names
  exactly the priced assets once each, every price history holds at most a hundred points and ends in the
  latest price, and every reputation is sound.
\<close>
theorem proxy_storage_ok:
  assumes "proxy_run h tr s"
  shows "storage_ok s"
  using assms
proof induction
  case start
  then show ?case
    by (simp add: fresh_proxy_def storage_ok_def sources_ok_def prices_ok_def reputations_ok_def get_source_count_def
        get_all_assets_def get_price_history_def)
next
  case (call tr s env c s')
  show ?case by (rule storage_ok_step [OF call.hyps(2) call.IH])
qed

subsection \<open>A sample history\<close>

fun proxy_replay :: "(u32 \<Rightarrow> u32 \<Rightarrow> u32 \<Rightarrow> u32) \<Rightarrow> (env \<times> proxy_call) list \<Rightarrow>
    (env \<times> proxy_call \<times> proxy_storage) list \<Rightarrow> proxy_storage \<Rightarrow> (env \<times> proxy_call \<times> proxy_storage) list \<times> proxy_storage" where
  "proxy_replay h [] tr s = (tr, s)"
| "proxy_replay h ((env, c) # cs) tr s =
     (case proxy_call_exec h env c s of
        Inl _ \<Rightarrow> proxy_replay h cs tr s
      | Inr s' \<Rightarrow> proxy_replay h cs (tr @ [(env, c, s)]) s')"

lemma proxy_replay_run: "proxy_run h tr s \<Longrightarrow> proxy_run h (fst (proxy_replay h cs tr s)) (snd (proxy_replay h cs tr s))"
  by (induction h cs tr s rule: proxy_replay.induct) (auto intro: proxy_run.intros split: sum.splits)

lemmas proxy_replay_fresh = proxy_replay_run [OF proxy_run.start]

definition ledger :: "u64 \<Rightarrow> address list \<Rightarrow> env" where
  "ledger t as = \<lparr>env_timestamp = t, env_auth = as\<rparr>"

definition proxy_sample_calls :: "(env \<times> proxy_call) list" where
  "proxy_sample_calls = [(ledger 10 [], Initialize ''adm'' ''impl''), (ledger 11 [''adm''], InitMultisig ''adm'' [''s1'', ''s2''] 2),
     (ledger 12 [''adm''], AddSourceCall ''adm'' ''src'' ''Source''), (ledger 13 [''src''], SubmitPrice ''src'' ''BTC'' 100 2 13),
     (ledger 14 [''src''], SubmitPrice ''src'' ''BTC'' 130 2 14), (ledger 15 [''adm''], CommitCatalog ''adm'' 3 [7]),
     (ledger 16 [''adm''], CommitCatalog ''adm'' 3 [8]), (ledger 17 [''adm''], CommitCatalog ''adm'' 5 [9]),
     (ledger 20 [''adm''], ProposeUpgrade ''adm'' [42]), (ledger 21 [''s1''], ApproveUpgrade ''s1''),
     (ledger 22 [''s1''], ApproveUpgrade ''s1''), (ledger 23 [''s2''], ApproveUpgrade ''s2'')]"

definition proxy_sample :: "(env \<times> proxy_call \<times> proxy_storage) list \<times> proxy_storage" where
  "proxy_sample = proxy_replay (\<lambda>_ _ e. e) proxy_sample_calls [] fresh_proxy"

lemma proxy_sample_reached: "proxy_run (\<lambda>_ _ e. e) (fst proxy_sample) (snd proxy_sample)"
  unfolding proxy_sample_def by (rule proxy_replay_fresh)

lemma proxy_sample_facts:
  "catalog_log (snd proxy_sample) = [3, 5] \<and> get_all_assets (snd proxy_sample) = [''BTC'']
   \<and> get_source_count (snd proxy_sample) = 1 \<and> length (get_price_history ''BTC'' (snd proxy_sample)) = 2
   \<and> (case execute_upgrade (ledger 172820 [''x'']) ''x'' (snd proxy_sample) of Inl _ \<Rightarrow> False | Inr (_, s) \<Rightarrow> px_wasm s = [42])
   \<and> (case execute_upgrade (ledger 172819 [''x'']) ''x'' (snd proxy_sample) of
         Inl e \<Rightarrow> e = Contract UpgradeTimelockNotElapsed | Inr _ \<Rightarrow> False)"
  by code_simp

theorem catalog_commitments_increase_witness:
  "sorted_wrt (<) (0 # catalog_log (snd proxy_sample)) \<and> get_feed_catalog_version (snd proxy_sample) = 5"
  using catalog_commitments_increase [OF proxy_sample_reached] proxy_sample_facts by simp

lemma proxy_sample_config: "map_option cm_threshold (st_MultiSigConfig (snd proxy_sample)) = Some 2"
  by code_simp

theorem executed_upgrade_carried_witness:
  "\<exists>s' pre penv admin sp post. execute_upgrade (ledger 172820 [''x'']) ''x'' (snd proxy_sample) = Inr ((), s')
     \<and> px_wasm s' = [42] \<and> fst proxy_sample = pre @ (penv, ProposeUpgrade admin (px_wasm s'), sp) # post
     \<and> unat (env_timestamp penv) + 172800 \<le> 172820
     \<and> (\<exists>xs. distinct xs \<and> 2 \<le> length xs \<and> (\<forall>x\<in>set xs. approved_in post x))"
proof -
  obtain s' where s': "execute_upgrade (ledger 172820 [''x'']) ''x'' (snd proxy_sample) = Inr ((), s')" "px_wasm s' = [42]"
    using proxy_sample_facts by (auto split: sum.splits)
  obtain pre penv admin sp post config where
    "fst proxy_sample = pre @ (penv, ProposeUpgrade admin (px_wasm s'), sp) # post"
    "unat (env_timestamp penv) + 172800 \<le> unat (env_timestamp (ledger 172820 [''x'']))"
    "st_MultiSigConfig (snd proxy_sample) = Some config"
    "\<exists>xs. distinct xs \<and> unat (cm_threshold config) \<le> length xs \<and> (\<forall>x\<in>set xs. approved_in post x)"
    using executed_upgrade_carried [OF proxy_sample_reached s'(1)] by blast
  moreover have "unat (env_timestamp (ledger 172820 [''x''])) = 172820" by (simp add: ledger_def)
  moreover have "unat (cm_threshold config) = 2" if "st_MultiSigConfig (snd proxy_sample) = Some config" for config
    using proxy_sample_config that by simp
  ultimately show ?thesis using s' by metis
qed

theorem proxy_storage_ok_witness:
  "storage_ok (snd proxy_sample) \<and> get_all_assets (snd proxy_sample) = [''BTC''] \<and> get_source_count (snd proxy_sample) = 1"
  using proxy_storage_ok [OF proxy_sample_reached] proxy_sample_facts by simp

text \<open>
  Observations on the code as it is: \<open>initialize\<close> asks for no authorisation and may be called again, and the
  proxy stores prices that the main contract would refuse, negative ones among them.
\<close>
lemma anyone_takes_over: "\<exists>s'. proxy_initialize attacker impl s = Inr ((), s') \<and> st_Admin s' = Some attacker"
  by (simp add: proxy_initialize_def)

lemma negative_price_accepted:
  "is_authorized_source a s \<Longrightarrow> st_DeviationThreshold s = None \<Longrightarrow> a \<in> set (env_auth env) \<Longrightarrow>
     \<exists>s'. proxy_submit_price env a x (-1) d t s = Inr (\<lparr>dp_asset = x, dp_price = -1, dp_decimals = d,
       dp_timestamp = t, dp_source = a\<rparr>, s')"
  by (simp add: proxy_submit_price_def require_auth_def Let_def)

end
