(* ===== verification/Oracle_Multisig.thy ===== *)
theory Oracle_Multisig
  imports Oracle_Utils
begin

text \<open>
  The multi-signature admin contract \<open>contracts/price-oracle/src/multisig.rs\<close>: proposals collect approvals of
  configured signers and are executed once the threshold is met, changing the signers where the action says so.
\<close>

record chain_proposal =
  mq_id :: u32
  mq_action :: chain_action
  mq_approvals :: "address list"
  mq_executed :: u32
  mq_cancelled :: u32
  mq_created_at :: u64
  mq_proposer :: address

record msig_storage = oracle_storage +
  ms_ProposalCount :: "u32 option"
  ms_MultiSigProposal :: "u32 \<rightharpoonup> chain_proposal"

type_synonym 'v msig_result = "failure + 'v \<times> msig_storage"

definition get_msig_proposal_count :: "msig_storage \<Rightarrow> u32" where
  "get_msig_proposal_count s = nullish (ms_ProposalCount s) 0"

definition set_multisig_proposal :: "chain_proposal \<Rightarrow> msig_storage \<Rightarrow> msig_storage" where
  "set_multisig_proposal p s = s\<lparr>ms_MultiSigProposal := (ms_MultiSigProposal s)(mq_id p \<mapsto> p)\<rparr>"

definition msig_initialize :: "address list \<Rightarrow> u32 \<Rightarrow> msig_storage \<Rightarrow> unit msig_result" where
  "msig_initialize signers threshold s =
     (if threshold = 0 \<or> unat threshold > length signers then Inl (Contract InvalidThreshold)
      else Inr ((), s\<lparr>st_MultiSigConfig := Some \<lparr>cm_signers = signers, cm_threshold = threshold\<rparr>,
                      ms_ProposalCount := Some 0\<rparr>))"

definition msig_create_proposal :: "env \<Rightarrow> address \<Rightarrow> chain_action \<Rightarrow> msig_storage \<Rightarrow> u32 msig_result" where
  "msig_create_proposal env proposer action s =
     and_then (require_auth env proposer) (\<lambda>_.
     and_then (ok_or (st_MultiSigConfig s) MultiSigNotInitialized) (\<lambda>config.
       if \<not> vec_contains_address (cm_signers config) proposer then Inl (Contract NotASigner)
       else let id = get_msig_proposal_count s;
                proposal = \<lparr>mq_id = id, mq_action = action, mq_approvals = [proposer], mq_executed = 0,
                  mq_cancelled = 0, mq_created_at = env_timestamp env, mq_proposer = proposer\<rparr>;
                s1 = set_multisig_proposal proposal s
            in and_then (plain_add id 1) (\<lambda>next_id. Inr (id, s1\<lparr>ms_ProposalCount := Some next_id\<rparr>))))"

definition msig_approve_proposal :: "env \<Rightarrow> address \<Rightarrow> u32 \<Rightarrow> msig_storage \<Rightarrow> unit msig_result" where
  "msig_approve_proposal env signer proposal_id s =
     and_then (require_auth env signer) (\<lambda>_.
     and_then (ok_or (st_MultiSigConfig s) MultiSigNotInitialized) (\<lambda>config.
       if \<not> vec_contains_address (cm_signers config) signer then Inl (Contract NotASigner)
       else and_then (ok_or (ms_MultiSigProposal s proposal_id) ProposalNotFound) (\<lambda>proposal.
         if mq_executed proposal = 1 then Inl (Contract ProposalAlreadyExecuted)
         else if vec_contains_address (mq_approvals proposal) signer then Inl (Contract AlreadyApproved)
         else Inr ((), set_multisig_proposal (proposal\<lparr>mq_approvals := mq_approvals proposal @ [signer]\<rparr>) s))))"

fun apply_local_multisig_action :: "chain_action \<Rightarrow> msig_storage \<Rightarrow> msig_storage" where
  "apply_local_multisig_action (AddSigner new_signer) s =
     (case st_MultiSigConfig s of
        None \<Rightarrow> s
      | Some config \<Rightarrow>
          if \<not> vec_contains_address (cm_signers config) new_signer
          then s\<lparr>st_MultiSigConfig := Some (config\<lparr>cm_signers := cm_signers config @ [new_signer]\<rparr>)\<rparr> else s)"
| "apply_local_multisig_action (RemoveSigner signer) s =
     (case st_MultiSigConfig s of
        None \<Rightarrow> s
      | Some config \<Rightarrow> s\<lparr>st_MultiSigConfig := Some (config\<lparr>cm_signers := filter (\<lambda>x. x \<noteq> signer) (cm_signers config)\<rparr>)\<rparr>)"
| "apply_local_multisig_action (SetThreshold new_threshold) s =
     (case st_MultiSigConfig s of
        None \<Rightarrow> s
      | Some config \<Rightarrow> s\<lparr>st_MultiSigConfig := Some (config\<lparr>cm_threshold := new_threshold\<rparr>)\<rparr>)"
| "apply_local_multisig_action _ s = s"

definition msig_execute_proposal :: "env \<Rightarrow> address \<Rightarrow> u32 \<Rightarrow> msig_storage \<Rightarrow> chain_action msig_result" where
  "msig_execute_proposal env signer proposal_id s =
     and_then (require_auth env signer) (\<lambda>_.
     and_then (ok_or (st_MultiSigConfig s) MultiSigNotInitialized) (\<lambda>config.
       if \<not> vec_contains_address (cm_signers config) signer then Inl (Contract NotASigner)
       else and_then (ok_or (ms_MultiSigProposal s proposal_id) ProposalNotFound) (\<lambda>proposal.
         if mq_executed proposal = 1 then Inl (Contract ProposalAlreadyExecuted)
         else if length (mq_approvals proposal) < unat (cm_threshold config) then Inl (Contract ThresholdNotMet)
         else let s1 = apply_local_multisig_action (mq_action proposal) s
              in Inr (mq_action proposal, set_multisig_proposal (proposal\<lparr>mq_executed := 1\<rparr>) s1))))"

definition msig_get_signers :: "msig_storage \<Rightarrow> address list" where
  "msig_get_signers s = (case st_MultiSigConfig s of Some c \<Rightarrow> cm_signers c | None \<Rightarrow> [])"

definition msig_get_threshold :: "msig_storage \<Rightarrow> u32" where
  "msig_get_threshold s = (case st_MultiSigConfig s of Some c \<Rightarrow> cm_threshold c | None \<Rightarrow> 0)"

subsection \<open>Histories of calls\<close>

datatype msig_call =
    Init "address list" u32 | Create address chain_action | Approve address u32 | Execute address u32

fun msig_call_exec :: "env \<Rightarrow> msig_call \<Rightarrow> msig_storage \<Rightarrow> failure + msig_storage" where
  "msig_call_exec env (Init ss t) s = and_then (msig_initialize ss t s) (\<lambda>(_, s'). Inr s')"
| "msig_call_exec env (Create a act) s = and_then (msig_create_proposal env a act s) (\<lambda>(_, s'). Inr s')"
| "msig_call_exec env (Approve a i) s = and_then (msig_approve_proposal env a i s) (\<lambda>(_, s'). Inr s')"
| "msig_call_exec env (Execute a i) s = and_then (msig_execute_proposal env a i s) (\<lambda>(_, s'). Inr s')"

definition fresh_msig :: msig_storage where
  "fresh_msig = \<lparr>st_Admin = None, st_Source = Map.empty, st_SourceName = Map.empty, st_SourceCount = None,
     st_LatestPrice = Map.empty, st_AllAssets = None, st_PriceHistory = Map.empty, st_TrustedAsset = Map.empty,
     st_DeviationThreshold = None, st_SourceReputation = Map.empty, st_MultiSigConfig = None, st_events = [],
     ms_ProposalCount = None, ms_MultiSigProposal = Map.empty\<rparr>"

inductive msig_run :: "(env \<times> msig_call \<times> msig_storage) list \<Rightarrow> msig_storage \<Rightarrow> bool" where
  start: "msig_run [] fresh_msig"
| call: "msig_run tr s \<Longrightarrow> msig_call_exec env c s = Inr s' \<Longrightarrow> msig_run (tr @ [(env, c, s)]) s'"

subsection \<open>Execution is carried by signers\<close>

definition signed_by :: "address \<Rightarrow> env \<Rightarrow> msig_storage \<Rightarrow> bool" where
  "signed_by x env s \<longleftrightarrow> x \<in> set (env_auth env) \<and> x \<in> set (msig_get_signers s)"

definition creation :: "u32 \<Rightarrow> env \<times> msig_call \<times> msig_storage \<Rightarrow> bool" where
  "creation i st = (case st of (_, Create _ _, s) \<Rightarrow> get_msig_proposal_count s = i | _ \<Rightarrow> False)"

definition execution :: "u32 \<Rightarrow> env \<times> msig_call \<times> msig_storage \<Rightarrow> bool" where
  "execution i st = (case st of (_, Execute _ j, _) \<Rightarrow> j = i | _ \<Rightarrow> False)"

definition approval :: "u32 \<Rightarrow> address \<Rightarrow> env \<times> msig_call \<times> msig_storage \<Rightarrow> bool" where
  "approval i x st = (case st of (env, Approve y j, s) \<Rightarrow> j = i \<and> y = x \<and> signed_by x env s | _ \<Rightarrow> False)"

definition proposal_ok :: "(env \<times> msig_call \<times> msig_storage) list \<Rightarrow> u32 \<Rightarrow> chain_proposal \<Rightarrow> bool" where
  "proposal_ok tr i p \<longleftrightarrow> mq_id p = i \<and> distinct (mq_approvals p) \<and>
     (\<exists>pre env a sp post. tr = pre @ (env, Create a (mq_action p), sp) # post
        \<and> get_msig_proposal_count sp = i \<and> signed_by a env sp
        \<and> (\<forall>st\<in>set post. \<not> creation i st) \<and> (mq_executed p \<noteq> 1 \<longrightarrow> (\<forall>st\<in>set post. \<not> execution i st))
        \<and> (\<forall>x\<in>set (mq_approvals p). x = a \<or> (\<exists>st\<in>set post. approval i x st)))"

lemma proposal_ok_extend:
  assumes ok: "proposal_ok tr i p" and p': "mq_id p' = i" "distinct (mq_approvals p')" "mq_action p' = mq_action p"
    and new: "\<not> creation i st" "mq_executed p' \<noteq> 1 \<Longrightarrow> mq_executed p \<noteq> 1 \<and> \<not> execution i st"
    and a: "\<And>x. x \<in> set (mq_approvals p') \<Longrightarrow> x \<in> set (mq_approvals p) \<or> approval i x st"
  shows "proposal_ok (tr @ [st]) i p'"
proof -
  from ok obtain pre env a sp post where o: "tr = pre @ (env, Create a (mq_action p), sp) # post"
    "get_msig_proposal_count sp = i" "signed_by a env sp" "\<forall>st\<in>set post. \<not> creation i st"
    "mq_executed p \<noteq> 1 \<longrightarrow> (\<forall>st\<in>set post. \<not> execution i st)"
    "\<forall>x\<in>set (mq_approvals p). x = a \<or> (\<exists>st\<in>set post. approval i x st)"
    unfolding proposal_ok_def by blast
  have "tr @ [st] = pre @ (env, Create a (mq_action p'), sp) # (post @ [st])" using o(1) p'(3) by simp
  moreover have "\<forall>st'\<in>set (post @ [st]). \<not> creation i st'" using o(4) new(1) by simp
  moreover have "mq_executed p' \<noteq> 1 \<longrightarrow> (\<forall>st'\<in>set (post @ [st]). \<not> execution i st')" using o(5) new(2) by auto
  moreover have "\<forall>x\<in>set (mq_approvals p'). x = a \<or> (\<exists>st'\<in>set (post @ [st]). approval i x st')"
    using a o(6) by fastforce
  ultimately show ?thesis unfolding proposal_ok_def using p'(1,2) o(2,3) by blast
qed

lemma local_action_frame [simp]:
  "ms_MultiSigProposal (apply_local_multisig_action act s) = ms_MultiSigProposal s"
  "ms_ProposalCount (apply_local_multisig_action act s) = ms_ProposalCount s"
  by (cases act; simp split: option.splits)+

lemma msig_proposals_ok:
  assumes "msig_run tr s" "ms_MultiSigProposal s i = Some p"
  shows "proposal_ok tr i p"
  using assms
proof (induction arbitrary: i p)
  case start
  then show ?case by (simp add: fresh_msig_def)
next
  case (call tr s env c s')
  show ?case
  proof (cases c)
    case (Init ss t)
    with call.hyps(2) have "ms_MultiSigProposal s' = ms_MultiSigProposal s"
      by (auto simp: and_then_Inr msig_initialize_def split: if_splits)
    with call.prems have old: "proposal_ok tr i p" by (simp add: call.IH)
    show ?thesis by (rule proposal_ok_extend [OF old])
        (use old in \<open>auto simp: proposal_ok_def Init creation_def execution_def\<close>)
  next
    case (Create a act)
    with call.hyps(2) have s': "signed_by a env s"
      "ms_MultiSigProposal s' = (ms_MultiSigProposal s)(get_msig_proposal_count s \<mapsto>
         \<lparr>mq_id = get_msig_proposal_count s, mq_action = act, mq_approvals = [a], mq_executed = 0,
          mq_cancelled = 0, mq_created_at = env_timestamp env, mq_proposer = a\<rparr>)"
      by (auto simp: and_then_Inr msig_create_proposal_def set_multisig_proposal_def signed_by_def
          msig_get_signers_def Let_def split: if_splits)
    show ?thesis
    proof (cases "i = get_msig_proposal_count s")
      case True
      with call.prems s' show ?thesis by (auto simp: proposal_ok_def Create intro!: exI [of _ tr])
    next
      case False
      with call.prems s'(2) have old: "proposal_ok tr i p" by (simp add: call.IH)
      show ?thesis by (rule proposal_ok_extend [OF old])
          (use old False in \<open>auto simp: proposal_ok_def Create creation_def execution_def\<close>)
    qed
  next
    case (Approve a j)
    with call.hyps(2) obtain q where q: "signed_by a env s" "ms_MultiSigProposal s j = Some q"
      "mq_executed q \<noteq> 1" "a \<notin> set (mq_approvals q)"
      "ms_MultiSigProposal s' = (ms_MultiSigProposal s)(mq_id q \<mapsto> q\<lparr>mq_approvals := mq_approvals q @ [a]\<rparr>)"
      by (auto simp: and_then_Inr msig_approve_proposal_def set_multisig_proposal_def signed_by_def
          msig_get_signers_def split: if_splits)
    have okq: "proposal_ok tr j q" by (rule call.IH [OF q(2)])
    show ?thesis
    proof (cases "i = j")
      case True
      have "mq_id q = j" using okq by (simp add: proposal_ok_def)
      with call.prems q(5) True have p: "p = q\<lparr>mq_approvals := mq_approvals q @ [a]\<rparr>" by simp
      show ?thesis unfolding True by (rule proposal_ok_extend [OF okq])
          (use okq q in \<open>auto simp: proposal_ok_def p Approve creation_def execution_def approval_def\<close>)
    next
      case False
      have "mq_id q = j" using okq by (simp add: proposal_ok_def)
      with call.prems q(5) False have old: "proposal_ok tr i p" by (simp add: call.IH)
      show ?thesis by (rule proposal_ok_extend [OF old])
          (use old in \<open>auto simp: proposal_ok_def Approve creation_def execution_def\<close>)
    qed
  next
    case (Execute a j)
    with call.hyps(2) obtain q where q: "ms_MultiSigProposal s j = Some q"
      "ms_MultiSigProposal s' = (ms_MultiSigProposal s)(mq_id q \<mapsto> q\<lparr>mq_executed := 1\<rparr>)"
      by (auto simp: and_then_Inr msig_execute_proposal_def set_multisig_proposal_def Let_def split: if_splits)
    have okq: "proposal_ok tr j q" by (rule call.IH [OF q(1)])
    then have j: "mq_id q = j" by (simp add: proposal_ok_def)
    show ?thesis
    proof (cases "i = j")
      case True
      with call.prems q(2) j have p: "p = q\<lparr>mq_executed := 1\<rparr>" by simp
      show ?thesis unfolding True by (rule proposal_ok_extend [OF okq])
          (use okq in \<open>auto simp: proposal_ok_def p Execute creation_def\<close>)
    next
      case False
      with call.prems q(2) j have old: "proposal_ok tr i p" by (simp add: call.IH)
      show ?thesis by (rule proposal_ok_extend [OF old])
          (use old False in \<open>auto simp: proposal_ok_def Execute creation_def execution_def\<close>)
    qed
  qed
qed

text \<open>
  (C34) A proposal that \<open>execute_proposal\<close> carries out was created under its number by a configured signer
  and not executed or replaced since; at least the threshold of different addresses stand behind it, each
  a configured signer who authorised its creation or its approval, and a signer authorised the execution.
\<close>
theorem msig_execution_carried:
  assumes run: "msig_run tr s" and exec: "msig_execute_proposal env signer i s = Inr (action, s')"
  shows "signed_by signer env s \<and>
     (\<exists>pre penv a sp post xs. tr = pre @ (penv, Create a action, sp) # post
        \<and> get_msig_proposal_count sp = i \<and> (\<forall>st\<in>set post. \<not> creation i st \<and> \<not> execution i st)
        \<and> distinct xs \<and> unat (msig_get_threshold s) \<le> length xs
        \<and> (\<forall>x\<in>set xs. x = a \<and> signed_by a penv sp \<or> (\<exists>st\<in>set post. approval i x st)))"
proof -
  from exec obtain p where p: "ms_MultiSigProposal s i = Some p" "mq_executed p \<noteq> 1" "action = mq_action p"
    "unat (msig_get_threshold s) \<le> length (mq_approvals p)" "signed_by signer env s"
    by (auto simp: msig_execute_proposal_def and_then_Inr Let_def msig_get_threshold_def signed_by_def
        msig_get_signers_def split: if_splits)
  from msig_proposals_ok [OF run p(1)] show ?thesis using p(2-5) unfolding proposal_ok_def by metis
qed

definition msig_sample :: "(env \<times> msig_call) list" where
  "msig_sample = [(\<lparr>env_timestamp = 1, env_auth = []\<rparr>, Init [''s1'', ''s2'', ''s3''] 2),
     (\<lparr>env_timestamp = 2, env_auth = [''s1'']\<rparr>, Create ''s1'' (AddSigner ''s4'')),
     (\<lparr>env_timestamp = 3, env_auth = [''s2'']\<rparr>, Approve ''s2'' 0)]"

fun msig_replay :: "(env \<times> msig_call) list \<Rightarrow> (env \<times> msig_call \<times> msig_storage) list \<Rightarrow> msig_storage \<Rightarrow>
    (env \<times> msig_call \<times> msig_storage) list \<times> msig_storage" where
  "msig_replay [] tr s = (tr, s)"
| "msig_replay ((env, c) # cs) tr s =
     (case msig_call_exec env c s of Inl _ \<Rightarrow> msig_replay cs tr s | Inr s' \<Rightarrow> msig_replay cs (tr @ [(env, c, s)]) s')"

lemma msig_replay_run: "msig_run tr s \<Longrightarrow> msig_run (fst (msig_replay cs tr s)) (snd (msig_replay cs tr s))"
  by (induction cs tr s rule: msig_replay.induct) (auto intro: msig_run.intros split: sum.splits)

definition msig_sample_state :: msig_storage where
  "msig_sample_state = snd (msig_replay msig_sample [] fresh_msig)"

lemma msig_sample_facts:
  "(case msig_execute_proposal \<lparr>env_timestamp = 4, env_auth = [''s3'']\<rparr> ''s3'' 0 msig_sample_state of
      Inl _ \<Rightarrow> False
    | Inr (a, s) \<Rightarrow> a = AddSigner ''s4'' \<and> msig_get_signers s = [''s1'', ''s2'', ''s3'', ''s4''])
   \<and> msig_get_threshold msig_sample_state = 2"
  by code_simp

theorem msig_execution_carried_witness:
  "\<exists>pre penv a sp post xs. fst (msig_replay msig_sample [] fresh_msig) = pre @ (penv, Create a (AddSigner ''s4''), sp) # post
     \<and> distinct xs \<and> 2 \<le> length xs
     \<and> (\<forall>x\<in>set xs. x = a \<and> signed_by a penv sp \<or> (\<exists>st\<in>set post. approval 0 x st))"
proof -
  have run: "msig_run (fst (msig_replay msig_sample [] fresh_msig)) msig_sample_state"
    unfolding msig_sample_state_def by (rule msig_replay_run [OF msig_run.start])
  obtain s' where "msig_execute_proposal \<lparr>env_timestamp = 4, env_auth = [''s3'']\<rparr> ''s3'' 0 msig_sample_state
      = Inr (AddSigner ''s4'', s')"
    using msig_sample_facts by (auto split: sum.splits)
  from msig_execution_carried [OF run this] msig_sample_facts show ?thesis by fastforce
qed

text \<open>
  Observations on the code as it is: \<open>initialize\<close> asks for no authorisation and may be called again, and the
  last signer can be removed, after which every call that changes state fails but \<open>initialize\<close>.
\<close>
lemma anyone_reinitialises:
  "\<exists>s'. msig_initialize [attacker] 1 s = Inr ((), s') \<and> msig_get_signers s' = [attacker] \<and> msig_get_threshold s' = 1"
  by (simp add: msig_initialize_def msig_get_signers_def msig_get_threshold_def)

lemma last_signer_removable:
  assumes "st_MultiSigConfig s = Some config" "cm_signers config = [x]"
    and "\<And>ss t. c \<noteq> Init ss t"
  shows "msig_call_exec env c (apply_local_multisig_action (RemoveSigner x) s) \<noteq> Inr s'"
  using assms(3) by (cases c) (auto simp: and_then_Inr msig_create_proposal_def msig_approve_proposal_def
      msig_execute_proposal_def assms(1,2))

end
