(* ===== verification/Oracle_Voting.thy ===== *)
theory Oracle_Voting
  imports Oracle_Utils
begin

text \<open>
  Token-voting governance, \<open>contracts/price-oracle/src/governance.rs\<close>: proposals, votes weighted by token
  balance, the queue behind a timelock, cancellation and the guardian's override. The balance of an account
  in the voting token is the argument \<open>balance\<close> of each call, since another contract holds it.
\<close>

datatype chain_status = Active | Queued | Ready | Executed | Defeated | Cancelled

record gov_proposal =
  gq_id :: u32
  gq_proposer :: address
  gq_action :: chain_action
  gq_description :: string
  gq_votes_for :: i128
  gq_votes_against :: i128
  gq_voting_start :: u64
  gq_voting_end :: u64
  gq_execution_time :: u64
  gq_status :: chain_status

record gov_storage = oracle_storage +
  gv_GovernanceConfig :: "chain_governance_config option"
  gv_GovernanceProposalCount :: "u32 option"
  gv_GovernanceProposal :: "u32 \<rightharpoonup> gov_proposal"
  gv_Vote :: "u32 \<times> address \<rightharpoonup> bool"

type_synonym 'v gov_result = "failure + 'v \<times> gov_storage"
type_synonym balances = "address \<Rightarrow> address \<Rightarrow> i128"

definition get_proposal_count :: "gov_storage \<Rightarrow> u32" where
  "get_proposal_count s = nullish (gv_GovernanceProposalCount s) 0"

definition set_gov_proposal :: "gov_proposal \<Rightarrow> gov_storage \<Rightarrow> gov_storage" where
  "set_gov_proposal p s = s\<lparr>gv_GovernanceProposal := (gv_GovernanceProposal s)(gq_id p \<mapsto> p)\<rparr>"

definition has_voted :: "u32 \<Rightarrow> address \<Rightarrow> gov_storage \<Rightarrow> bool" where
  "has_voted i voter s \<longleftrightarrow> gv_Vote s (i, voter) \<noteq> None"

definition require_gov :: "gov_storage \<Rightarrow> failure + chain_governance_config" where
  "require_gov s = ok_or (gv_GovernanceConfig s) GovernanceNotInitialized"

definition voting_power :: "balances \<Rightarrow> chain_governance_config \<Rightarrow> address \<Rightarrow> i128" where
  "voting_power balance config account = balance (cg_token config) account"

definition resolve_proposal :: "u64 \<Rightarrow> gov_proposal \<Rightarrow> chain_governance_config \<Rightarrow> failure + gov_proposal" where
  "resolve_proposal now proposal config =
     (if gq_status proposal = Active then
        if now \<ge> gq_voting_end proposal then
          and_then (plain_signed (sint (gq_votes_for proposal) + sint (gq_votes_against proposal))) (\<lambda>total :: i128.
            let quorum_met = (sint total \<ge> sint (cg_quorum config))
            in if quorum_met \<and> sint (gq_votes_for proposal) > sint (gq_votes_against proposal)
               then and_then (plain_add (gq_voting_end proposal) (cg_timelock_delay config)) (\<lambda>t.
                      Inr (proposal\<lparr>gq_status := Queued, gq_execution_time := t\<rparr>))
               else Inr (proposal\<lparr>gq_status := Defeated\<rparr>))
        else Inr proposal
      else Inr proposal)"

fun apply_action :: "chain_action \<Rightarrow> gov_storage \<Rightarrow> failure + gov_storage" where
  "apply_action (SetAdmin new_admin) s = Inr (s\<lparr>st_Admin := Some new_admin\<rparr>)"
| "apply_action (TransferAdmin new_admin) s = Inr (s\<lparr>st_Admin := Some new_admin\<rparr>)"
| "apply_action (AddOracleSource source name) s = add_source source name s"
| "apply_action (AddSource source name) s = add_source source name s"
| "apply_action (RemoveOracleSource source) s = Inr (remove_source source s)"
| "apply_action (RemoveSource source) s = Inr (remove_source source s)"
| "apply_action (SetTrustedAsset asset trusted) s = Inr (set_trusted_asset asset trusted s)"
| "apply_action (UpdateGovernanceConfig new_config) s = Inr (s\<lparr>gv_GovernanceConfig := Some new_config\<rparr>)"
| "apply_action _ s = Inr s"

definition validate_config :: "chain_governance_config \<Rightarrow> failure + unit" where
  "validate_config config =
     (if cg_voting_period config = 0 \<or> sint (cg_quorum config) \<le> 0 \<or> sint (cg_proposal_threshold config) \<le> 0
      then Inl (Contract InvalidGovernanceConfig) else Inr ())"

definition gov_initialize :: "env \<Rightarrow> address \<Rightarrow> chain_governance_config \<Rightarrow> gov_storage \<Rightarrow> unit gov_result" where
  "gov_initialize env admin config s =
     and_then (require_auth env admin) (\<lambda>_.
       if gv_GovernanceConfig s \<noteq> None then Inl (Contract GovernanceAlreadyInitialized)
       else and_then (validate_config config) (\<lambda>_.
         Inr ((), s\<lparr>st_Admin := Some admin, gv_GovernanceConfig := Some config\<rparr>)))"

definition gov_propose ::
  "env \<Rightarrow> balances \<Rightarrow> address \<Rightarrow> chain_action \<Rightarrow> string \<Rightarrow> gov_storage \<Rightarrow> u32 gov_result" where
  "gov_propose env balance proposer action description s =
     and_then (require_auth env proposer) (\<lambda>_.
     and_then (require_gov s) (\<lambda>config.
       if sint (voting_power balance config proposer) < sint (cg_proposal_threshold config)
       then Inl (Contract InsufficientVotingPower)
       else and_then (plain_add (get_proposal_count s) 1) (\<lambda>id.
         let s1 = s\<lparr>gv_GovernanceProposalCount := Some id\<rparr>;
             now = env_timestamp env
         in and_then (plain_add now (cg_voting_period config)) (\<lambda>voting_end.
            and_then (plain_add voting_end (cg_timelock_delay config)) (\<lambda>execution_time.
              let proposal = \<lparr>gq_id = id, gq_proposer = proposer, gq_action = action, gq_description = description,
                    gq_votes_for = 0, gq_votes_against = 0, gq_voting_start = now, gq_voting_end = voting_end,
                    gq_execution_time = execution_time, gq_status = Active\<rparr>
              in Inr (id, publish env (GovernanceProposed proposer id) (set_gov_proposal proposal s1)))))))"

definition gov_vote :: "env \<Rightarrow> balances \<Rightarrow> address \<Rightarrow> u32 \<Rightarrow> bool \<Rightarrow> gov_storage \<Rightarrow> unit gov_result" where
  "gov_vote env balance voter proposal_id support s =
     and_then (require_auth env voter) (\<lambda>_.
     and_then (require_gov s) (\<lambda>config.
     and_then (ok_or (gv_GovernanceProposal s proposal_id) ProposalNotFound) (\<lambda>proposal.
       let now = env_timestamp env
       in if gq_status proposal \<noteq> Active \<or> now < gq_voting_start proposal \<or> now \<ge> gq_voting_end proposal
          then Inl (Contract VotingNotActive)
          else if has_voted proposal_id voter s then Inl (Contract AlreadyVoted)
          else let power = voting_power balance config voter
               in and_then (if support
                    then and_then (plain_signed (sint (gq_votes_for proposal) + sint power)) (\<lambda>v.
                           Inr (proposal\<lparr>gq_votes_for := v\<rparr>))
                    else and_then (plain_signed (sint (gq_votes_against proposal) + sint power)) (\<lambda>v.
                           Inr (proposal\<lparr>gq_votes_against := v\<rparr>))) (\<lambda>proposal'.
                    let s1 = s\<lparr>gv_Vote := (gv_Vote s)((proposal_id, voter) \<mapsto> support)\<rparr>
                    in Inr ((), publish env (GovVoted proposal_id voter support) (set_gov_proposal proposal' s1))))))"

definition not_queued :: "chain_status \<Rightarrow> failure" where
  "not_queued status = Contract (case status of
     Executed \<Rightarrow> ProposalAlreadyExecuted | Cancelled \<Rightarrow> ProposalCancelled | Defeated \<Rightarrow> ProposalDefeated
   | _ \<Rightarrow> VotingNotActive)"

definition gov_queue :: "env \<Rightarrow> u32 \<Rightarrow> gov_storage \<Rightarrow> unit gov_result" where
  "gov_queue env proposal_id s =
     and_then (require_gov s) (\<lambda>config.
     and_then (ok_or (gv_GovernanceProposal s proposal_id) ProposalNotFound) (\<lambda>stored.
     and_then (resolve_proposal (env_timestamp env) stored config) (\<lambda>proposal.
       if gq_status proposal = Queued \<or> gq_status proposal = Ready
       then Inr ((), publish env (GovQueued proposal_id (gq_execution_time proposal)) (set_gov_proposal proposal s))
       else Inl (not_queued (gq_status proposal)))))"

definition gov_execute :: "env \<Rightarrow> u32 \<Rightarrow> gov_storage \<Rightarrow> unit gov_result" where
  "gov_execute env proposal_id s =
     and_then (require_gov s) (\<lambda>config.
     and_then (ok_or (gv_GovernanceProposal s proposal_id) ProposalNotFound) (\<lambda>stored.
     and_then (resolve_proposal (env_timestamp env) stored config) (\<lambda>proposal.
       if \<not> (gq_status proposal = Queued \<or> gq_status proposal = Ready) then Inl (not_queued (gq_status proposal))
       else if env_timestamp env < gq_execution_time proposal then Inl (Contract TimeLockNotElapsed)
       else let s1 = set_gov_proposal (proposal\<lparr>gq_status := Executed\<rparr>) s
            in and_then (apply_action (gq_action proposal) s1) (\<lambda>s2.
                 Inr ((), publish env (GovernanceProposalExecuted proposal_id (env_timestamp env)) s2)))))"

definition gov_cancel :: "env \<Rightarrow> address \<Rightarrow> u32 \<Rightarrow> gov_storage \<Rightarrow> unit gov_result" where
  "gov_cancel env caller proposal_id s =
     and_then (require_auth env caller) (\<lambda>_.
     and_then (require_gov s) (\<lambda>_.
     and_then (ok_or (gv_GovernanceProposal s proposal_id) ProposalNotFound) (\<lambda>proposal.
       if gq_status proposal = Executed then Inl (Contract ProposalAlreadyExecuted)
       else if gq_status proposal = Cancelled then Inl (Contract ProposalCancelled)
       else let is_proposer = (gq_proposer proposal = caller);
                is_admin = (verify_admin caller s = Inr ())
            in if \<not> is_proposer \<and> \<not> is_admin then Inl (Contract AdminOnly)
               else Inr ((), publish env (GovCancelled proposal_id caller)
                 (set_gov_proposal (proposal\<lparr>gq_status := Cancelled\<rparr>) s)))))"

definition gov_emergency_execute :: "env \<Rightarrow> address \<Rightarrow> u32 \<Rightarrow> gov_storage \<Rightarrow> unit gov_result" where
  "gov_emergency_execute env guardian proposal_id s =
     and_then (require_auth env guardian) (\<lambda>_.
     and_then (require_gov s) (\<lambda>config.
       if guardian \<noteq> cg_guardian config then Inl (Contract GuardianOnly)
       else and_then (ok_or (gv_GovernanceProposal s proposal_id) ProposalNotFound) (\<lambda>proposal.
         if gq_status proposal = Executed then Inl (Contract ProposalAlreadyExecuted)
         else if gq_status proposal = Cancelled then Inl (Contract ProposalCancelled)
         else let s1 = set_gov_proposal (proposal\<lparr>gq_status := Executed\<rparr>) s
              in and_then (apply_action (gq_action proposal) s1) (\<lambda>s2.
                   Inr ((), publish env (GovernanceEmergencyExecuted guardian proposal_id) s2)))))"

definition gov_get_proposal :: "env \<Rightarrow> u32 \<Rightarrow> gov_storage \<Rightarrow> failure + gov_proposal option" where
  "gov_get_proposal env proposal_id s =
     (case gv_GovernanceProposal s proposal_id of
        None \<Rightarrow> Inr None
      | Some proposal \<Rightarrow>
          if gq_status proposal = Active then
            (case gv_GovernanceConfig s of
               None \<Rightarrow> Inr (Some proposal)
             | Some config \<Rightarrow> and_then (resolve_proposal (env_timestamp env) proposal config) (\<lambda>p. Inr (Some p)))
          else Inr (Some proposal))"

subsection \<open>Histories of calls\<close>

datatype gov_call =
    Bootstrap address chain_governance_config | Propose address chain_action string | CastVote address u32 bool
  | Queue u32 | ExecuteQueued u32 | Cancel address u32 | EmergencyExecute address u32

fun gov_call_exec :: "env \<Rightarrow> balances \<Rightarrow> gov_call \<Rightarrow> gov_storage \<Rightarrow> failure + gov_storage" where
  "gov_call_exec env b (Bootstrap a cfg) s = and_then (gov_initialize env a cfg s) (\<lambda>(_, s'). Inr s')"
| "gov_call_exec env b (Propose a act d) s = and_then (gov_propose env b a act d s) (\<lambda>(_, s'). Inr s')"
| "gov_call_exec env b (CastVote v i yes) s = and_then (gov_vote env b v i yes s) (\<lambda>(_, s'). Inr s')"
| "gov_call_exec env b (Queue i) s = and_then (gov_queue env i s) (\<lambda>(_, s'). Inr s')"
| "gov_call_exec env b (ExecuteQueued i) s = and_then (gov_execute env i s) (\<lambda>(_, s'). Inr s')"
| "gov_call_exec env b (Cancel a i) s = and_then (gov_cancel env a i s) (\<lambda>(_, s'). Inr s')"
| "gov_call_exec env b (EmergencyExecute a i) s = and_then (gov_emergency_execute env a i s) (\<lambda>(_, s'). Inr s')"

definition fresh_gov :: gov_storage where
  "fresh_gov = \<lparr>st_Admin = None, st_Source = Map.empty, st_SourceName = Map.empty, st_SourceCount = None,
     st_LatestPrice = Map.empty, st_AllAssets = None, st_PriceHistory = Map.empty, st_TrustedAsset = Map.empty,
     st_DeviationThreshold = None, st_SourceReputation = Map.empty, st_MultiSigConfig = None, st_events = [],
     gv_GovernanceConfig = None, gv_GovernanceProposalCount = None, gv_GovernanceProposal = Map.empty,
     gv_Vote = Map.empty\<rparr>"

type_synonym gov_step = "env \<times> balances \<times> gov_call \<times> gov_storage"

inductive gov_run :: "gov_step list \<Rightarrow> gov_storage \<Rightarrow> bool" where
  start: "gov_run [] fresh_gov"
| call: "gov_run tr s \<Longrightarrow> gov_call_exec env b c s = Inr s' \<Longrightarrow> gov_run (tr @ [(env, b, c, s)]) s'"

subsection \<open>Execution is carried by votes\<close>

definition vote_of :: "u32 \<Rightarrow> gov_step \<Rightarrow> (address \<times> bool \<times> int) list" where
  "vote_of i st = (case st of
     (env, b, CastVote v j yes, s) \<Rightarrow>
       (case gv_GovernanceConfig s of
          Some config \<Rightarrow> if j = i then [(v, yes, sint (voting_power b config v))] else []
        | None \<Rightarrow> [])
   | _ \<Rightarrow> [])"

definition votes_on :: "u32 \<Rightarrow> gov_step list \<Rightarrow> (address \<times> bool \<times> int) list" where
  "votes_on i tr = concat (map (vote_of i) tr)"

definition tally :: "bool \<Rightarrow> (address \<times> bool \<times> int) list \<Rightarrow> int" where
  "tally yes vs = sum_list (map (snd \<circ> snd) (filter (\<lambda>v. fst (snd v) = yes) vs))"

definition passed :: "gov_proposal \<Rightarrow> chain_governance_config \<Rightarrow> bool" where
  "passed p config \<longleftrightarrow> sint (cg_quorum config) \<le> sint (gq_votes_for p) + sint (gq_votes_against p)
     \<and> sint (gq_votes_for p) > sint (gq_votes_against p)
     \<and> unat (gq_execution_time p) = unat (gq_voting_end p) + unat (cg_timelock_delay config)"

definition resolved_in :: "gov_step list \<Rightarrow> u64 \<Rightarrow> chain_governance_config \<Rightarrow> bool" where
  "resolved_in tr t config \<longleftrightarrow> (\<exists>(env, _, _, s)\<in>set tr. t \<le> env_timestamp env \<and> gv_GovernanceConfig s = Some config)"

definition gov_proposal_ok :: "gov_step list \<Rightarrow> gov_storage \<Rightarrow> u32 \<Rightarrow> gov_proposal \<Rightarrow> bool" where
  "gov_proposal_ok tr s i p \<longleftrightarrow> gq_id p = i \<and> i \<le> get_proposal_count s
     \<and> sint (gq_votes_for p) = tally True (votes_on i tr) \<and> sint (gq_votes_against p) = tally False (votes_on i tr)
     \<and> (gq_status p = Queued \<longrightarrow> (\<exists>config. passed p config \<and> resolved_in tr (gq_voting_end p) config))
     \<and> gq_status p \<noteq> Ready"

definition voters_ok :: "gov_step list \<Rightarrow> gov_storage \<Rightarrow> u32 \<Rightarrow> bool" where
  "voters_ok tr s i \<longleftrightarrow> distinct (map fst (votes_on i tr)) \<and> (\<forall>v. has_voted i v s \<longleftrightarrow> v \<in> fst ` set (votes_on i tr))
     \<and> (gv_GovernanceProposal s i = None \<longrightarrow> votes_on i tr = [])"

lemma votes_on_snoc [simp]: "votes_on i (tr @ [st]) = votes_on i tr @ vote_of i st"
  by (simp add: votes_on_def)

lemma tally_append [simp]: "tally yes (vs @ ws) = tally yes vs + tally yes ws"
  by (simp add: tally_def)

lemma tally_simps [simp]: "tally yes [] = 0" "tally yes [(v, yes', n)] = (if yes' = yes then n else 0)"
  by (simp_all add: tally_def)

lemma resolved_in_snoc: "resolved_in tr t config \<Longrightarrow> resolved_in (tr @ tr') t config"
  by (auto simp: resolved_in_def)

lemma apply_action_frame:
  assumes "apply_action act s = Inr s'"
  shows "gv_GovernanceProposal s' = gv_GovernanceProposal s" "gv_Vote s' = gv_Vote s"
    "gv_GovernanceProposalCount s' = gv_GovernanceProposalCount s"
  using assms by (cases act; auto simp: add_source_def remove_source_def set_trusted_asset_def Let_def and_then_Inr
      split: if_splits)+

lemma resolve_proposal_cases:
  assumes "resolve_proposal now p config = Inr q" "gq_status p \<noteq> Ready" "gq_status q = Queued \<or> gq_status q = Ready"
  shows "gq_status q = Queued"
    "q = p \<or> passed q config \<and> gq_voting_end p \<le> now"
    "gq_id q = gq_id p" "gq_votes_for q = gq_votes_for p" "gq_votes_against q = gq_votes_against p"
    "gq_voting_end q = gq_voting_end p" "gq_action q = gq_action p"
  using assms by (auto simp: resolve_proposal_def and_then_Inr Let_def passed_def plain_signed_Inr
      dest!: plain_add_unat split: if_splits)

definition gov_inv :: "gov_step list \<Rightarrow> gov_storage \<Rightarrow> bool" where
  "gov_inv tr s \<longleftrightarrow> (\<forall>i p. gv_GovernanceProposal s i = Some p \<longrightarrow> gov_proposal_ok tr s i p) \<and> (\<forall>i. voters_ok tr s i)"

lemma gov_proposal_ok_snoc:
  "gov_proposal_ok tr s i p \<Longrightarrow> vote_of i st = [] \<Longrightarrow> get_proposal_count s \<le> get_proposal_count s' \<Longrightarrow>
     gov_proposal_ok (tr @ [st]) s' i p"
  by (auto simp: gov_proposal_ok_def intro: resolved_in_snoc)

lemma gov_inv_update:
  assumes inv: "gov_inv tr s" and v: "gv_Vote s' = gv_Vote s" "\<And>j. vote_of j st = []"
    and c: "get_proposal_count s \<le> get_proposal_count s'"
    and u: "gv_GovernanceProposal s' = (gv_GovernanceProposal s)(i \<mapsto> q)" and q: "gov_proposal_ok (tr @ [st]) s' i q"
  shows "gov_inv (tr @ [st]) s'"
proof -
  have "gov_proposal_ok (tr @ [st]) s' j p" if "gv_GovernanceProposal s' j = Some p" for j p
    using that q inv v(2) c by (cases "j = i") (auto simp: u gov_inv_def intro: gov_proposal_ok_snoc)
  moreover have "voters_ok (tr @ [st]) s' j" for j
  proof -
    have "voters_ok tr s j" using inv by (simp add: gov_inv_def)
    then show ?thesis by (auto simp: voters_ok_def has_voted_def v u split: if_splits)
  qed
  ultimately show ?thesis by (simp add: gov_inv_def)
qed

lemma gov_inv_status:
  assumes inv: "gov_inv tr s" and v: "gv_Vote s' = gv_Vote s" "\<And>j. vote_of j st = []"
    and c: "gv_GovernanceProposalCount s' = gv_GovernanceProposalCount s"
    and p: "gv_GovernanceProposal s i = Some p" and q: "gq_id q = gq_id p" "gq_votes_for q = gq_votes_for p"
      "gq_votes_against q = gq_votes_against p" "gq_status q \<noteq> Ready"
      "gq_status q = Queued \<Longrightarrow> \<exists>config. passed q config \<and> resolved_in (tr @ [st]) (gq_voting_end q) config"
    and u: "gv_GovernanceProposal s' = (gv_GovernanceProposal s)(gq_id q \<mapsto> q)"
  shows "gov_inv (tr @ [st]) s'"
proof -
  have ok: "gov_proposal_ok tr s i p" using inv p by (simp add: gov_inv_def)
  have cnt: "get_proposal_count s' = get_proposal_count s" by (simp add: get_proposal_count_def c)
  have "gq_id q = i" using ok q(1) by (simp add: gov_proposal_ok_def)
  moreover have "gov_proposal_ok (tr @ [st]) s' i q"
    using ok q by (simp add: gov_proposal_ok_def cnt v)
  ultimately show ?thesis using gov_inv_update [OF inv v, of i q] u cnt by simp
qed

lemma gov_inv_propose:
  assumes inv: "gov_inv tr s" and called: "gov_propose env b a act d s = Inr (i, s')"
  shows "gov_inv (tr @ [(env, b, Propose a act d, s)]) s'"
proof -
  define q where "q = the (gv_GovernanceProposal s' i)"
  from called have q: "plain_add (get_proposal_count s) 1 = Inr i" "gq_id q = i" "gq_votes_for q = 0"
    "gq_votes_against q = 0" "gq_status q = Active" "gv_Vote s' = gv_Vote s" "get_proposal_count s' = i"
    "gv_GovernanceProposal s' = (gv_GovernanceProposal s)(i \<mapsto> q)"
    by (auto simp: q_def gov_propose_def and_then_Inr Let_def set_gov_proposal_def publish_def get_proposal_count_def
        split: if_splits)
  have less: "get_proposal_count s < i" using plain_add_unat [OF q(1)] by (simp add: word_less_nat_alt)
  have "gv_GovernanceProposal s i = None"
  proof (rule ccontr)
    assume "gv_GovernanceProposal s i \<noteq> None"
    then obtain p where "gv_GovernanceProposal s i = Some p" by blast
    then have "i \<le> get_proposal_count s" using inv by (simp add: gov_inv_def gov_proposal_ok_def)
    with less show False by simp
  qed
  then have "votes_on i tr = []" using inv by (simp add: gov_inv_def voters_ok_def)
  moreover have vo: "vote_of j (env, b, Propose a act d, s) = []" for j by (simp add: vote_of_def)
  ultimately have "gov_proposal_ok (tr @ [(env, b, Propose a act d, s)]) s' i q" using q by (simp add: gov_proposal_ok_def)
  then show ?thesis using gov_inv_update [OF inv q(6) vo, of i q] q(7,8) less by simp
qed

lemma gov_inv_vote:
  assumes inv: "gov_inv tr s" and vote: "gov_vote env b v i yes s = Inr (u, s')"
  shows "gov_inv (tr @ [(env, b, CastVote v i yes, s)]) s'" (is "gov_inv (tr @ [?st]) s'")
proof -
  define p config where "p = the (gv_GovernanceProposal s i)" and "config = the (gv_GovernanceConfig s)"
  define q where "q = the (gv_GovernanceProposal s' (gq_id p))"
  from vote have q: "gv_GovernanceConfig s = Some config" "gv_GovernanceProposal s i = Some p"
    "gq_status p = Active" "\<not> has_voted i v s" "gq_id q = gq_id p" "gq_status q = Active"
    "sint (gq_votes_for q) = sint (gq_votes_for p) + (if yes then sint (voting_power b config v) else 0)"
    "sint (gq_votes_against q) = sint (gq_votes_against p) + (if yes then 0 else sint (voting_power b config v))"
    "gv_Vote s' = (gv_Vote s)((i, v) \<mapsto> yes)" "get_proposal_count s' = get_proposal_count s"
    "gv_GovernanceProposal s' = (gv_GovernanceProposal s)(gq_id p \<mapsto> q)"
    by (auto simp: p_def config_def q_def gov_vote_def require_gov_def and_then_Inr Let_def set_gov_proposal_def
        publish_def get_proposal_count_def plain_signed_Inr split: if_splits)
  have ok: "gov_proposal_ok tr s i p" and vok: "voters_ok tr s j" for j using inv q(2) by (auto simp: gov_inv_def)
  then have id: "gq_id p = i" by (simp add: gov_proposal_ok_def)
  have vo: "vote_of j ?st = (if j = i then [(v, yes, sint (voting_power b config v))] else [])" for j
    by (simp add: vote_of_def q(1))
  have "gov_proposal_ok (tr @ [?st]) s' j r" if "gv_GovernanceProposal s' j = Some r" for j r
  proof (cases "j = i")
    case True
    then have "r = q" using that q(11) id by simp
    then show ?thesis using ok q id True by (simp add: gov_proposal_ok_def vo)
  next
    case False
    then have "gov_proposal_ok tr s j r" using that q(11) id inv by (simp add: gov_inv_def)
    moreover have "vote_of j ?st = []" using False by (simp add: vo)
    moreover have "get_proposal_count s \<le> get_proposal_count s'" by (simp only: q(10) order.refl)
    ultimately show ?thesis by (rule gov_proposal_ok_snoc)
  qed
  moreover have "v \<notin> fst ` set (votes_on i tr)" using vok [of i] q(4) unfolding voters_ok_def by blast
  then have "voters_ok (tr @ [?st]) s' j" for j
    using vok [of j] by (cases "j = i") (simp_all add: voters_ok_def has_voted_def q(9,11) id vo)
  ultimately show ?thesis by (simp add: gov_inv_def)
qed

lemma gov_run_inv: "gov_run tr s \<Longrightarrow> gov_inv tr s"
proof (induction rule: gov_run.induct)
  case start
  then show ?case by (simp add: gov_inv_def voters_ok_def has_voted_def votes_on_def fresh_gov_def)
next
  case (call tr s env b c s')
  note inv = call.IH
  show ?case
  proof (cases c)
    case (Bootstrap a cfg)
    with call.hyps(2) have same: "gv_GovernanceProposal s' = gv_GovernanceProposal s" "gv_Vote s' = gv_Vote s"
      "get_proposal_count s' = get_proposal_count s"
      by (auto simp: and_then_Inr gov_initialize_def get_proposal_count_def split: if_splits)
    have vo: "vote_of j (env, b, c, s) = []" for j by (simp add: vote_of_def Bootstrap)
    show ?thesis
      using inv by (auto simp: gov_inv_def same vo voters_ok_def has_voted_def intro!: gov_proposal_ok_snoc [of tr s])
  next
    case (Propose a act d)
    with call.hyps(2) show ?thesis by (auto simp: and_then_Inr intro: gov_inv_propose [OF inv])
  next
    case (CastVote v i yes)
    with call.hyps(2) show ?thesis by (auto simp: and_then_Inr intro: gov_inv_vote [OF inv])
  next
    case (Queue i)
    with call.hyps(2) obtain config p q where q: "gv_GovernanceConfig s = Some config" "gv_GovernanceProposal s i = Some p"
      "resolve_proposal (env_timestamp env) p config = Inr q" "gq_status q = Queued \<or> gq_status q = Ready"
      "s' = publish env (GovQueued i (gq_execution_time q)) (set_gov_proposal q s)"
      by (auto simp: and_then_Inr gov_queue_def require_gov_def split: if_splits)
    have ok: "gov_proposal_ok tr s i p" using inv q(2) by (simp add: gov_inv_def)
    then have "gq_status p \<noteq> Ready" by (simp add: gov_proposal_ok_def)
    note r = resolve_proposal_cases [OF q(3) this q(4)]
    have "\<exists>cfg. passed q cfg \<and> resolved_in (tr @ [(env, b, c, s)]) (gq_voting_end q) cfg"
    proof (cases "q = p")
      case True
      then obtain cfg where "passed q cfg" "resolved_in tr (gq_voting_end q) cfg"
        using ok r(1) unfolding gov_proposal_ok_def by blast
      then show ?thesis using resolved_in_snoc by blast
    next
      case False
      then show ?thesis using r(2,6) q(1) by (auto simp: resolved_in_def)
    qed
    then show ?thesis
      using r by (intro gov_inv_status [OF inv _ _ _ q(2), of _ _ q])
        (auto simp: q(5) vote_of_def Queue set_gov_proposal_def publish_def)
  next
    case (ExecuteQueued i)
    with call.hyps(2) obtain config p q s2 where q: "gv_GovernanceConfig s = Some config" "gv_GovernanceProposal s i = Some p"
      "resolve_proposal (env_timestamp env) p config = Inr q" "gq_status q = Queued \<or> gq_status q = Ready"
      "apply_action (gq_action q) (set_gov_proposal (q\<lparr>gq_status := Executed\<rparr>) s) = Inr s2"
      "s' = publish env (GovernanceProposalExecuted i (env_timestamp env)) s2"
      by (auto simp: and_then_Inr gov_execute_def require_gov_def Let_def split: if_splits)
    have "gq_status p \<noteq> Ready" using inv q(2) by (simp add: gov_inv_def gov_proposal_ok_def)
    note r = resolve_proposal_cases [OF q(3) this q(4)]
    show ?thesis
      using r apply_action_frame [OF q(5)] by (intro gov_inv_status [OF inv _ _ _ q(2), of _ _ "q\<lparr>gq_status := Executed\<rparr>"])
        (auto simp: q(6) vote_of_def ExecuteQueued set_gov_proposal_def publish_def)
  next
    case (Cancel a i)
    with call.hyps(2) obtain p where q: "gv_GovernanceProposal s i = Some p"
      "s' = publish env (GovCancelled i a) (set_gov_proposal (p\<lparr>gq_status := Cancelled\<rparr>) s)"
      by (auto simp: and_then_Inr gov_cancel_def Let_def split: if_splits)
    show ?thesis
      by (intro gov_inv_status [OF inv _ _ _ q(1), of _ _ "p\<lparr>gq_status := Cancelled\<rparr>"])
        (auto simp: q(2) vote_of_def Cancel set_gov_proposal_def publish_def)
  next
    case (EmergencyExecute a i)
    with call.hyps(2) obtain p s2 where q: "gv_GovernanceProposal s i = Some p"
      "apply_action (gq_action p) (set_gov_proposal (p\<lparr>gq_status := Executed\<rparr>) s) = Inr s2"
      "s' = publish env (GovernanceEmergencyExecuted a i) s2"
      by (auto simp: and_then_Inr gov_emergency_execute_def Let_def split: if_splits)
    show ?thesis
      using apply_action_frame [OF q(2)] by (intro gov_inv_status [OF inv _ _ _ q(1), of _ _ "p\<lparr>gq_status := Executed\<rparr>"])
        (auto simp: q(3) vote_of_def EmergencyExecute set_gov_proposal_def publish_def)
  qed
qed

text \<open>
  (C35) A proposal carried out by \<open>execute\<close> received votes of different accounts only; its tallies are the sums
  of the balances they had when voting, without overflow; the votes met a quorum in force after the voting
  period, with more for than against, and the timelock counted from the end of the voting period is over.
\<close>
theorem gov_execution_carried:
  assumes run: "gov_run tr s" and exec: "gov_execute env i s = Inr (u, s')"
  shows "distinct (map fst (votes_on i tr)) \<and>
     (\<exists>p config. gv_GovernanceProposal s i = Some p
        \<and> (resolved_in tr (gq_voting_end p) config \<or> gv_GovernanceConfig s = Some config)
        \<and> sint (cg_quorum config) \<le> tally True (votes_on i tr) + tally False (votes_on i tr)
        \<and> tally False (votes_on i tr) < tally True (votes_on i tr)
        \<and> unat (gq_voting_end p) + unat (cg_timelock_delay config) \<le> unat (env_timestamp env))"
proof -
  have inv: "gov_inv tr s" by (rule gov_run_inv [OF run])
  from exec obtain config p q where q: "gv_GovernanceConfig s = Some config" "gv_GovernanceProposal s i = Some p"
    "resolve_proposal (env_timestamp env) p config = Inr q" "gq_status q = Queued \<or> gq_status q = Ready"
    "\<not> env_timestamp env < gq_execution_time q"
    by (auto simp: and_then_Inr gov_execute_def require_gov_def Let_def split: if_splits)
  have ok: "gov_proposal_ok tr s i p" using inv q(2) by (simp add: gov_inv_def)
  then have "gq_status p \<noteq> Ready" by (simp add: gov_proposal_ok_def)
  note r = resolve_proposal_cases [OF q(3) this q(4)]
  obtain cfg where cfg: "passed q cfg" "resolved_in tr (gq_voting_end p) cfg \<or> gv_GovernanceConfig s = Some cfg"
  proof (cases "q = p")
    case True
    with ok r(1) that show ?thesis unfolding gov_proposal_ok_def by blast
  next
    case False
    with r(2) q(1) that show ?thesis by blast
  qed
  have "unat (gq_execution_time q) \<le> unat (env_timestamp env)" using q(5) by (simp add: not_less word_le_nat_alt)
  moreover have "sint (gq_votes_for q) = tally True (votes_on i tr)" "sint (gq_votes_against q) = tally False (votes_on i tr)"
    using ok r by (simp_all add: gov_proposal_ok_def)
  moreover have "distinct (map fst (votes_on i tr))" using inv unfolding gov_inv_def voters_ok_def by blast
  ultimately show ?thesis using cfg q(2) r(6) unfolding passed_def by metis
qed

subsection \<open>A sample history\<close>

fun gov_replay :: "(env \<times> balances \<times> gov_call) list \<Rightarrow> gov_step list \<Rightarrow> gov_storage \<Rightarrow> gov_step list \<times> gov_storage" where
  "gov_replay [] tr s = (tr, s)"
| "gov_replay ((env, b, c) # cs) tr s =
     (case gov_call_exec env b c s of Inl _ \<Rightarrow> gov_replay cs tr s | Inr s' \<Rightarrow> gov_replay cs (tr @ [(env, b, c, s)]) s')"

lemma gov_replay_run: "gov_run tr s \<Longrightarrow> gov_run (fst (gov_replay cs tr s)) (snd (gov_replay cs tr s))"
  by (induction cs tr s rule: gov_replay.induct) (auto intro: gov_run.intros split: sum.splits)

definition gov_sample_config :: chain_governance_config where
  "gov_sample_config = \<lparr>cg_token = ''tok'', cg_voting_period = 100, cg_timelock_delay = 50, cg_quorum = 10,
     cg_proposal_threshold = 1, cg_guardian = ''g''\<rparr>"

definition gov_sample_calls :: "(env \<times> balances \<times> gov_call) list" where
  "gov_sample_calls = (let b = (\<lambda>_ a. if a = ''a'' then 7 else 5); call_at = (\<lambda>t x. \<lparr>env_timestamp = t, env_auth = [x]\<rparr>)
     in [(call_at 1 ''a'', b, Bootstrap ''a'' gov_sample_config), (call_at 2 ''a'', b, Propose ''a'' (SetAdmin ''n'') []),
         (call_at 3 ''a'', b, CastVote ''a'' 1 True), (call_at 4 ''a'', b, CastVote ''a'' 1 True),
         (call_at 5 ''c'', b, CastVote ''c'' 1 False), (call_at 102 ''x'', b, Queue 1)])"

definition gov_sample :: "gov_step list \<times> gov_storage" where
  "gov_sample = gov_replay gov_sample_calls [] fresh_gov"

lemma gov_sample_facts:
  "votes_on 1 (fst gov_sample) = [(''a'', True, 7), (''c'', False, 5)]
   \<and> (case gov_execute \<lparr>env_timestamp = 152, env_auth = []\<rparr> 1 (snd gov_sample) of
        Inl _ \<Rightarrow> False | Inr (_, s) \<Rightarrow> st_Admin s = Some ''n'')
   \<and> (case gov_execute \<lparr>env_timestamp = 151, env_auth = []\<rparr> 1 (snd gov_sample) of
        Inl e \<Rightarrow> e = Contract TimeLockNotElapsed | Inr _ \<Rightarrow> False)"
  by code_simp

theorem gov_execution_carried_witness:
  "distinct (map fst (votes_on 1 (fst gov_sample)))
   \<and> tally False (votes_on 1 (fst gov_sample)) < tally True (votes_on 1 (fst gov_sample))
   \<and> votes_on 1 (fst gov_sample) \<noteq> []"
proof -
  have run: "gov_run (fst gov_sample) (snd gov_sample)"
    unfolding gov_sample_def by (rule gov_replay_run [OF gov_run.start])
  obtain u s' where "gov_execute \<lparr>env_timestamp = 152, env_auth = []\<rparr> 1 (snd gov_sample) = Inr (u, s')"
    using gov_sample_facts by (auto split: sum.splits)
  from gov_execution_carried [OF run this] gov_sample_facts show ?thesis by auto
qed

text \<open>
  Observations on the code as it is. The guardian's override does not only skip the timelock: it executes any
  proposal that is neither executed nor cancelled, so also one whose vote is open or was lost.
\<close>
lemma guardian_executes_rejected:
  assumes "gv_GovernanceConfig s = Some config" "cg_guardian config \<in> set (env_auth env)"
    and "gv_GovernanceProposal s i = Some p" "gq_status p \<noteq> Executed" "gq_status p \<noteq> Cancelled"
    and "gq_action p = SetAdmin a"
  shows "\<exists>s'. gov_emergency_execute env (cg_guardian config) i s = Inr ((), s') \<and> st_Admin s' = Some a"
  using assms by (simp add: gov_emergency_execute_def require_gov_def require_auth_def set_gov_proposal_def publish_def)

lemma defeated_example:
  "sint (gq_votes_for p) \<le> sint (gq_votes_against p) \<Longrightarrow> gq_status p = Active \<Longrightarrow> gq_voting_end p \<le> now \<Longrightarrow>
     in_signed 128 (sint (gq_votes_for p) + sint (gq_votes_against p)) \<Longrightarrow>
     resolve_proposal now p config = Inr (p\<lparr>gq_status := Defeated\<rparr>)"
  by (simp add: resolve_proposal_def plain_signed_def checked_signed_def)

end
