(* ===== verification/Oracle_Merkle.thy ===== *)
theory Oracle_Merkle
  imports Soroban_Env Merkle
begin

text \<open>
  The verifier of Merkle batches in the contract, \<open>contracts/price-oracle/src/merkle.rs\<close>, at its machine widths,
  and its agreement with the builder of \<open>services/aggregator/src/infrastructure/merkle.ts\<close>. SHA-256 is the
  argument \<open>sha\<close>, as in \<open>Merkle\<close>.

  The two helpers that encode strings and leaves are declared to return bytes but return \<open>Ok\<close> and \<open>Err\<close> values,
  and their callers use the question mark on them; they are read here as fallible. A string is
  measured and copied in its UTF-8 bytes.
\<close>

record chain_entry =
  ce_asset :: string
  ce_price :: i128
  ce_decimals :: u32
  ce_timestamp :: u64
  ce_source :: address

definition MAX_STRING_LEN :: nat where "MAX_STRING_LEN = 64"

definition string_to_bytes :: "string \<Rightarrow> failure + bytes" where
  "string_to_bytes s =
     (let b = buffer_from s
      in if length b > MAX_STRING_LEN then Inl (Contract (Undeclared ''AssetNameTooLong'')) else Inr b)"

definition to_be_bytes :: "'a::len word \<Rightarrow> bytes" where
  "to_be_bytes w = write_be (LENGTH('a) div 8) (uint w)"

definition hash_leaf :: "(bytes \<Rightarrow> bytes) \<Rightarrow> chain_entry \<Rightarrow> failure + bytes" where
  "hash_leaf sha entry =
     and_then (string_to_bytes (ce_asset entry)) (\<lambda>asset.
     and_then (string_to_bytes (ce_source entry)) (\<lambda>source.
       Inr (sha ([0] @ asset @ [0] @ to_be_bytes (ce_price entry) @ to_be_bytes (ce_decimals entry)
                 @ to_be_bytes (ce_timestamp entry) @ source))))"

definition hash_pair :: "(bytes \<Rightarrow> bytes) \<Rightarrow> bytes \<Rightarrow> bytes \<Rightarrow> bytes" where
  "hash_pair sha left right = sha ([1] @ left @ right)"

lemma halved_level:
  "plain_add level_size 1 = Inr up \<Longrightarrow> 1 < level_size \<Longrightarrow> unat (up div 2) < unat (level_size :: u32)"
  by (drule plain_add_unat) (simp add: unat_div word_less_nat_alt)

function (sequential) verify_levels ::
  "(bytes \<Rightarrow> bytes) \<Rightarrow> bytes \<Rightarrow> u32 \<Rightarrow> u32 \<Rightarrow> bytes list \<Rightarrow> failure + bytes option" where
  "verify_levels sha current index level_size siblings =
     (if level_size > 1 then
        (let is_last = (index = level_size - 1); is_odd_level = (level_size mod 2 = 1)
         in case plain_add level_size 1 of
              Inl e \<Rightarrow> (if \<not> (is_last \<and> is_odd_level) \<and> siblings = [] then Inr None else Inl e)
            | Inr up \<Rightarrow>
                if is_last \<and> is_odd_level then verify_levels sha current (index div 2) (up div 2) siblings
                else (case siblings of
                        [] \<Rightarrow> Inr None
                      | sibling # rest \<Rightarrow>
                          verify_levels sha
                            (if index mod 2 = 0 then hash_pair sha current sibling else hash_pair sha sibling current)
                            (index div 2) (up div 2) rest))
      else Inr (Some current))"
  by pat_completeness auto
termination
  by (relation "measure (\<lambda>(sha, current, index, level_size, siblings). unat level_size)") (auto dest: halved_level)

declare verify_levels.simps [simp del]

definition verify_proof ::
  "(bytes \<Rightarrow> bytes) \<Rightarrow> chain_entry \<Rightarrow> u32 \<Rightarrow> u32 \<Rightarrow> bytes list \<Rightarrow> bytes \<Rightarrow> failure + bool" where
  "verify_proof sha entry leaf_index batch_size siblings batch_root =
     (if length siblings > MAX_PROOF_SIBLINGS then Inr False
      else if leaf_index \<ge> batch_size then Inl (Contract (Undeclared ''BatchIndexOutOfRange''))
      else and_then (hash_leaf sha entry) (\<lambda>leaf.
           and_then (verify_levels sha leaf leaf_index batch_size siblings) (\<lambda>r.
             Inr (case r of None \<Rightarrow> False | Some current \<Rightarrow> current = batch_root))))"

fun chain_next_level :: "(bytes \<Rightarrow> bytes) \<Rightarrow> bytes list \<Rightarrow> bytes list" where
  "chain_next_level sha (left # right # rest) = hash_pair sha left right # chain_next_level sha rest"
| "chain_next_level sha [left] = [left]"
| "chain_next_level sha [] = []"

lemma length_chain_next_level: "length (chain_next_level sha xs) = (length xs + 1) div 2"
  by (induction sha xs rule: chain_next_level.induct) auto

function compute_root :: "(bytes \<Rightarrow> bytes) \<Rightarrow> bytes list \<Rightarrow> bytes" where
  "compute_root sha leaves =
     (if leaves = [] then []
      else if length leaves = 1 then hd leaves
      else compute_root sha (chain_next_level sha leaves))"
  by pat_completeness auto
termination
proof (relation "measure (\<lambda>(sha, leaves). length leaves)")
  show "((sha, chain_next_level sha leaves), sha, leaves) \<in> measure (\<lambda>(sha, leaves). length leaves)"
    if "leaves \<noteq> []" "length leaves \<noteq> 1" for sha leaves
    using that by (cases leaves; cases "tl leaves") (auto simp: length_chain_next_level)
qed simp

declare compute_root.simps [simp del]

subsection \<open>Agreement with the off-chain builder\<close>

definition off_chain :: "chain_entry \<Rightarrow> batch_price_entry" where
  "off_chain e = \<lparr>be_asset = ce_asset e, be_price = sint (ce_price e), be_decimals = uint (ce_decimals e),
     be_timestamp = uint (ce_timestamp e), be_source = ce_source e\<rparr>"

definition short_strings :: "chain_entry \<Rightarrow> bool" where
  "short_strings e \<longleftrightarrow> length (buffer_from (ce_asset e)) \<le> 64 \<and> length (buffer_from (ce_source e)) \<le> 64"

lemma write_be_add: "write_be (m + n) x = write_be m (x div 256 ^ n) @ write_be n x"
proof (induction n arbitrary: x)
  case (Suc n)
  have "x div 256 div 256 ^ n = x div 256 ^ Suc n" by (simp add: zdiv_zmult2_eq)
  then show ?case by (simp add: Suc.IH)
qed simp

lemma write_be_cong: "x mod 256 ^ n = y mod 256 ^ n \<Longrightarrow> write_be n x = write_be n y"
  by (simp add: write_be_eq)

lemma hash_pair_eq: "hash_pair sha = hashPair sha"
  by (intro ext) (simp add: hash_pair_def hashPair_def NODE_DOMAIN_TAG_def)

lemma asIntN_sint: "asIntN 128 (sint (p :: i128)) = sint p"
proof -
  have b: "- (2 ^ 127) \<le> sint p" "sint p < 2 ^ 127" using sint_greater_eq [of p] sint_less [of p] by simp_all
  show ?thesis
  proof (cases "sint p < 0")
    case True
    have "sint p mod 2 ^ 128 = (sint p + 2 ^ 128) mod 2 ^ 128" by simp
    also have "\<dots> = sint p + 2 ^ 128" using True b by (intro mod_pos_pos_trivial) simp_all
    finally show ?thesis using True b by (simp add: asIntN_def Let_def)
  next
    case False
    then have "sint p mod 2 ^ 128 = sint p" using b by (intro mod_pos_pos_trivial) simp_all
    then show ?thesis using b by (simp add: asIntN_def Let_def)
  qed
qed

lemma price_bytes: "to_be_bytes (p :: i128) = price_buffer (sint p)"
proof -
  have "uint p = sint p mod 2 ^ 128" using uint_sint [of p] by (simp add: take_bit_eq_mod)
  then have "write_be 16 (uint p) = write_be 16 (sint p)" by (intro write_be_cong) simp
  also have "\<dots> = write_be (8 + 8) (sint p)" by simp
  also have "\<dots> = write_be 8 (sint p div 2 ^ 64) @ write_be 8 (sint p)" unfolding write_be_add by simp
  also have "\<dots> = write_be 8 (asUintN 64 (sint p div 2 ^ 64)) @ write_be 8 (asUintN 64 (sint p mod 2 ^ 64))"
    by (intro arg_cong2 [where f = append] write_be_cong) (simp_all add: asUintN_def)
  also have "\<dots> = price_buffer (sint p)" by (simp only: price_buffer_def asIntN_sint Let_def)
  finally show ?thesis by (simp add: to_be_bytes_def)
qed

lemma hash_leaf_agrees:
  assumes "short_strings e"
  shows "\<exists>h. hash_leaf sha e = Inr h \<and> hashLeaf sha (off_chain e) = Inr h"
proof -
  have "uint (ce_decimals e) < 2 ^ 32" "uint (ce_timestamp e) < 2 ^ 64"
    using uint_bounded [of "ce_decimals e"] uint_bounded [of "ce_timestamp e"] by simp_all
  then show ?thesis
    using assms by (simp add: hash_leaf_def string_to_bytes_def Let_def short_strings_def MAX_STRING_LEN_def
        hashLeaf_def leaf_preimage_def off_chain_def LEAF_DOMAIN_TAG_def price_bytes)
      (simp add: to_be_bytes_def)
qed

lemma verify_levels_agrees:
  "unat level_size < 2 ^ 32 - 1 \<Longrightarrow>
     verify_levels sha c index level_size siblings = Inr (verify_loop sha c (int (unat index)) (unat level_size) siblings)"
proof (induction sha c index level_size siblings rule: verify_levels.induct)
  case (1 sha c index level_size siblings)
  show ?case
  proof (cases "1 < level_size")
    case True
    have add: "plain_add level_size 1 = Inr (level_size + 1)" "unat (level_size + 1) = unat level_size + 1"
    proof -
      show "plain_add level_size 1 = Inr (level_size + 1)" using "1.prems" by (simp add: plain_add_Inr)
      then show "unat (level_size + 1) = unat level_size + 1" by (drule_tac plain_add_unat) simp
    qed
    have n: "1 < unat level_size" using True by (simp add: word_less_nat_alt)
    have half: "unat ((level_size + 1) div 2) = (unat level_size + 1) div 2" by (simp add: unat_div add)
    have small: "unat ((level_size + 1) div 2) < 2 ^ 32 - 1" unfolding half using "1.prems" by simp
    have sub: "unat (level_size - 1) = unat level_size - 1" using n by (simp add: unat_sub word_le_nat_alt)
    have "index = level_size - 1 \<longleftrightarrow> unat index = unat level_size - 1" by (simp only: word_unat_eq_iff sub)
    also have "\<dots> \<longleftrightarrow> int (unat index) = int (unat level_size) - 1" using n by linarith
    finally have last: "index = level_size - 1 \<longleftrightarrow> int (unat index) = int (unat level_size) - 1" .
    have odd: "level_size mod 2 = 1 \<longleftrightarrow> unat level_size mod 2 = 1"
      by (simp add: word_unat_eq_iff unat_mod)
    have "index mod 2 = 0 \<longleftrightarrow> unat index mod 2 = 0" by (simp add: word_unat_eq_iff unat_mod)
    also have "\<dots> \<longleftrightarrow> int (unat index) mod 2 = 0" by presburger
    finally have even: "index mod 2 = 0 \<longleftrightarrow> int (unat index) mod 2 = 0" .
    have idx: "int (unat (index div 2)) = int (unat index) div 2" by (simp add: unat_div zdiv_int)
    note ih1 = "1.IH"(1) [OF True HOL.refl HOL.refl add(1) _ small, unfolded idx half]
    note ih2 = "1.IH"(2) [OF True HOL.refl HOL.refl add(1) _ _ small, unfolded idx half]
    show ?thesis
      unfolding verify_levels.simps [of sha c index level_size] verify_loop.simps [of sha c "int (unat index)"]
      using ih1 ih2 True n
      by (simp only: add(1) last odd even Let_def if_True sum.case hash_pair_eq split: list.split) auto
  next
    case False
    then show ?thesis by (subst verify_levels.simps) (simp add: loop_ends word_less_nat_alt)
  qed
qed

lemma chain_next_level_eq: "chain_next_level sha xs = next_level sha xs"
  by (induction sha xs rule: next_level.induct) (simp_all add: hash_pair_eq)

lemma compute_root_agrees: "xs \<noteq> [] \<Longrightarrow> compute_root sha xs = hd (last (build_levels sha xs))"
proof (induction sha xs rule: compute_root.induct)
  case (1 sha xs)
  show ?case
  proof (cases "length xs = 1")
    case True
    then show ?thesis by (subst compute_root.simps) (simp add: "1.prems" loop_ends)
  next
    case False
    then have "1 < length xs" using "1.prems" by (cases xs) auto
    moreover have "next_level sha xs \<noteq> []" using "1.prems" length_next_level [of sha xs] by (cases xs) auto
    ultimately show ?thesis
      using "1.IH" [OF "1.prems" False] False "1.prems"
      by (subst compute_root.simps) (simp add: chain_next_level_eq last_build_levels_step)
  qed
qed

lemma verify_proof_agrees:
  assumes tree: "newMerkleTree sha es = Inr t" and size: "length es < 2 ^ 32 - 1" and e: "short_strings e"
    and i: "unat i < length es"
  shows "verify_proof sha e i (of_nat (length es)) siblings (mt_root t) =
     (case mt_verifyProof sha (off_chain e) \<lparr>mp_leafIndex = int (unat i), mp_siblings = siblings\<rparr> t of
        Inl _ \<Rightarrow> Inl Trap | Inr b \<Rightarrow> Inr b)"
proof -
  have n: "unat (of_nat (length es) :: u32) = length es"
    using size by (simp add: unsigned_of_nat take_bit_nat_eq_self)
  obtain h where h: "hash_leaf sha e = Inr h" "hashLeaf sha (off_chain e) = Inr h" using hash_leaf_agrees [OF e] by blast
  have "\<not> of_nat (length es) \<le> i" using i n by (simp add: word_le_nat_alt)
  then show ?thesis
    using verify_levels_agrees [of "of_nat (length es)" sha h i siblings] size h
    by (simp add: verify_proof_def mt_verifyProof_def newMerkleTree_Inr(1) [OF tree] n split: option.splits)
qed

end
