(* ===== verification/Oracle_Submission.thy ===== *)
theory Oracle_Submission
  imports Oracle_Utils Oracle_Merkle
begin

text \<open>
  The write paths of the price oracle contract: \<open>contracts/price-oracle/src/contract/submission.rs\<close> with the
  batch, pause and stake keys of \<open>storage.rs\<close>.

  Arguments stand for what the crate names but does not hold. The token contract decides in \<open>accepts\<close> whether a
  transfer goes through, and a refused transfer traps; performed transfers are a log in the state. The
  submission code calls \<open>merkle::validate_string_len\<close>, which no module declares (\<open>valid_len\<close>), and passes
  variants of an undeclared enumeration to the pause keys, which are strings (\<open>path_key\<close>). In
  \<open>apply_batch_entry\<close> the proof check is called with five arguments and used as a truth value, which fits no
  function of \<open>merkle.rs\<close>; its answer is the argument \<open>verified\<close>.
\<close>

datatype write_path = PathSubmitPrice | PathSubmitBatch | PathApplyBatchEntry

record main_storage = oracle_storage +
  mn_PendingAdmin :: "(address \<times> u64) option"
  mn_Paused :: "bool option"
  mn_FeedPaused :: "string \<rightharpoonup> bool"
  mn_WritePathPaused :: "string \<rightharpoonup> bool"
  mn_BatchNonce :: "u64 option"
  mn_BatchRoot :: "u64 \<rightharpoonup> bytes"
  mn_BatchSize :: "u64 \<rightharpoonup> u32"
  mn_BatchAppliedLeaves :: "u64 \<rightharpoonup> u32 list"
  mn_BatchPruneWatermark :: "u64 option"
  mn_StakeInfo :: "address \<rightharpoonup> i128"
  mn_StakeToken :: "address \<rightharpoonup> address"
  mn_StakeTreasury :: "address option"
  mn_SlashCount :: "address \<rightharpoonup> u32"
  mn_QueryFee :: "i128 option"
  mn_Whitelist :: "address \<rightharpoonup> bool"
  mn_FeeBalance :: "i128 option"
  mn_FeeToken :: "address option"
  mn_StorageLayoutVersion :: "u32 option"
  mn_transfers :: "(address \<times> address \<times> address \<times> i128) list"

type_synonym 'v main_result = "failure + 'v \<times> main_storage"
type_synonym token_answer = "address \<Rightarrow> address \<Rightarrow> address \<Rightarrow> i128 \<Rightarrow> bool"

subsection \<open>storage.rs, pauses and batches\<close>

definition is_paused :: "main_storage \<Rightarrow> bool" where
  "is_paused s = nullish (mn_Paused s) False"

definition is_feed_paused :: "string \<Rightarrow> main_storage \<Rightarrow> bool" where
  "is_feed_paused feed s = nullish (mn_FeedPaused s feed) False"

definition is_write_path_paused :: "string \<Rightarrow> main_storage \<Rightarrow> bool" where
  "is_write_path_paused path s = nullish (mn_WritePathPaused s path) False"

definition RETAINED_BATCH_ROOTS :: u64 where "RETAINED_BATCH_ROOTS = 16"

definition get_batch_nonce :: "main_storage \<Rightarrow> u64" where
  "get_batch_nonce s = nullish (mn_BatchNonce s) 0"

definition get_batch_prune_watermark :: "main_storage \<Rightarrow> u64" where
  "get_batch_prune_watermark s = nullish (mn_BatchPruneWatermark s) 0"

definition get_batch_applied_leaves :: "u64 \<Rightarrow> main_storage \<Rightarrow> u32 list" where
  "get_batch_applied_leaves nonce s = nullish (mn_BatchAppliedLeaves s nonce) []"

definition remove_batch :: "u64 \<Rightarrow> main_storage \<Rightarrow> main_storage" where
  "remove_batch k s = s\<lparr>mn_BatchRoot := (mn_BatchRoot s)(k := None), mn_BatchSize := (mn_BatchSize s)(k := None),
     mn_BatchAppliedLeaves := (mn_BatchAppliedLeaves s)(k := None)\<rparr>"

lemma unat_next: "k < (m :: u64) \<Longrightarrow> unat (k + 1) = Suc (unat k)"
proof -
  assume "k < m"
  then have "unat k < unat m" by (simp add: word_less_nat_alt)
  moreover have "unat m < 2 ^ LENGTH(64)" by (rule unsigned_less)
  ultimately have "unat k + unat (1 :: u64) < 2 ^ LENGTH(64)" by simp
  then show ?thesis by (simp only: unat_add_lem) simp
qed

function prune_loop :: "u64 \<Rightarrow> u64 \<Rightarrow> main_storage \<Rightarrow> main_storage" where
  "prune_loop k prune_to s = (if k < prune_to then prune_loop (k + 1) prune_to (remove_batch k s) else s)"
  by pat_completeness auto
termination
  by (relation "measure (\<lambda>(k, prune_to, s). unat prune_to - unat k)") (auto simp: unat_next word_less_nat_alt)

declare prune_loop.simps [simp del]

definition prune_batch_roots :: "u64 \<Rightarrow> main_storage \<Rightarrow> main_storage" where
  "prune_batch_roots current_nonce s =
     (let keep_from = saturating_sub current_nonce RETAINED_BATCH_ROOTS;
          watermark = get_batch_prune_watermark s;
          prune_to = min (max keep_from watermark) current_nonce;
          s1 = prune_loop watermark prune_to s
      in if prune_to > watermark then s1\<lparr>mn_BatchPruneWatermark := Some prune_to\<rparr> else s1)"

definition set_batch_root :: "u64 \<Rightarrow> bytes \<Rightarrow> main_storage \<Rightarrow> failure + main_storage" where
  "set_batch_root nonce rt s =
     (let s1 = s\<lparr>mn_BatchRoot := (mn_BatchRoot s)(nonce \<mapsto> rt)\<rparr>
      in and_then (plain_add nonce 1) (\<lambda>next_nonce. Inr (prune_batch_roots next_nonce s1)))"

definition increment_batch_nonce :: "main_storage \<Rightarrow> u64 main_result" where
  "increment_batch_nonce s =
     and_then (plain_add (get_batch_nonce s) 1) (\<lambda>next_nonce. Inr (next_nonce, s\<lparr>mn_BatchNonce := Some next_nonce\<rparr>))"

definition mark_batch_leaf_applied :: "u64 \<Rightarrow> u32 \<Rightarrow> main_storage \<Rightarrow> failure + main_storage" where
  "mark_batch_leaf_applied nonce leaf_index s =
     (let applied = get_batch_applied_leaves nonce s
      in if list_ex (\<lambda>idx. idx = leaf_index) applied then Inl (Contract BatchEntryAlreadyApplied)
         else Inr (s\<lparr>mn_BatchAppliedLeaves := (mn_BatchAppliedLeaves s)(nonce \<mapsto> applied @ [leaf_index])\<rparr>))"

definition get_stake :: "address \<Rightarrow> main_storage \<Rightarrow> i128" where
  "get_stake addr s = nullish (mn_StakeInfo s addr) 0"

definition get_slash_count :: "address \<Rightarrow> main_storage \<Rightarrow> u32" where
  "get_slash_count addr s = nullish (mn_SlashCount s addr) 0"

definition token_transfer ::
  "token_answer \<Rightarrow> address \<Rightarrow> address \<Rightarrow> address \<Rightarrow> i128 \<Rightarrow> main_storage \<Rightarrow> failure + main_storage" where
  "token_transfer accepts token from_addr to_addr amount s =
     (if accepts token from_addr to_addr amount
      then Inr (s\<lparr>mn_transfers := mn_transfers s @ [(token, from_addr, to_addr, amount)]\<rparr>) else Inl Trap)"

subsection \<open>submission.rs\<close>

definition CONTRACT_MAX_DECIMALS :: u32 where "CONTRACT_MAX_DECIMALS = 18"

definition decimals_refused :: "u32 \<Rightarrow> string \<Rightarrow> main_storage \<Rightarrow> bool" where
  "decimals_refused decimals asset s \<longleftrightarrow> decimals > CONTRACT_MAX_DECIMALS \<or>
     (case st_LatestPrice s asset of None \<Rightarrow> False | Some prev \<Rightarrow> dp_decimals prev \<noteq> decimals)"

definition submit_price ::
  "(string \<Rightarrow> failure + unit) \<Rightarrow> (write_path \<Rightarrow> string) \<Rightarrow> env \<Rightarrow> address \<Rightarrow> string \<Rightarrow> i128 \<Rightarrow> u32 \<Rightarrow> u64 \<Rightarrow>
     main_storage \<Rightarrow> price_data_point main_result" where
  "submit_price valid_len path_key env source asset price decimals timestamp s =
     and_then (require_auth env source) (\<lambda>_.
       if is_paused s then Inl (Contract ContractPaused)
       else if is_write_path_paused (path_key PathSubmitPrice) s \<or> is_feed_paused asset s then Inl (Contract ContractPaused)
       else if \<not> is_authorized_source source s then Inl (Contract UnauthorizedSource)
       else if sint price < 0 then Inl (Contract InvalidPrice)
       else if decimals_refused decimals asset s then Inl (Contract InvalidDecimals)
       else and_then (valid_len asset) (\<lambda>_.
         if (case st_DeviationThreshold s of
               None \<Rightarrow> False
             | Some threshold_bps \<Rightarrow>
                 (case st_LatestPrice s asset of
                    None \<Rightarrow> False
                  | Some prev \<Rightarrow> deviation_exceeds price (dp_price prev) threshold_bps))
         then Inl (Contract PriceDeviationTooLarge)
         else let data_point = \<lparr>dp_asset = asset, dp_price = price, dp_decimals = decimals,
                    dp_timestamp = timestamp, dp_source = source\<rparr>;
                  s1 = update_reputation source price asset timestamp s;
                  s2 = append_history asset data_point (set_latest_price asset data_point s1)
              in Inr (data_point, publish env (PriceSubmitted asset source price timestamp) s2)))"

definition submit_batch ::
  "(write_path \<Rightarrow> string) \<Rightarrow> env \<Rightarrow> address \<Rightarrow> u64 \<Rightarrow> bytes \<Rightarrow> u32 \<Rightarrow> main_storage \<Rightarrow> u64 main_result" where
  "submit_batch path_key env source nonce rt batch_size s =
     and_then (require_auth env source) (\<lambda>_.
       if is_paused s then Inl (Contract ContractPaused)
       else if is_write_path_paused (path_key PathSubmitBatch) s then Inl (Contract ContractPaused)
       else if \<not> is_authorized_source source s then Inl (Contract UnauthorizedSource)
       else if length rt \<noteq> 32 then Inl (Contract InvalidMerkleProof)
       else if batch_size = 0 then Inl (Contract InvalidMerkleProof)
       else if nonce \<noteq> get_batch_nonce s then Inl (Contract BatchNonceMismatch)
       else and_then (set_batch_root nonce rt s) (\<lambda>s1.
            let s2 = s1\<lparr>mn_BatchSize := (mn_BatchSize s1)(nonce \<mapsto> batch_size)\<rparr>
            in and_then (increment_batch_nonce s2) (\<lambda>(new_nonce, s3).
                 Inr (new_nonce, publish env (BatchSubmitted source nonce rt) s3))))"

definition apply_batch_entry ::
  "(string \<Rightarrow> failure + unit) \<Rightarrow> (write_path \<Rightarrow> string) \<Rightarrow> (chain_entry \<Rightarrow> u32 \<Rightarrow> bytes list \<Rightarrow> bytes \<Rightarrow> bool) \<Rightarrow>
     env \<Rightarrow> u64 \<Rightarrow> chain_entry \<Rightarrow> u32 \<Rightarrow> bytes list \<Rightarrow> main_storage \<Rightarrow> price_data_point main_result" where
  "apply_batch_entry valid_len path_key verified env batch_nonce entry leaf_index siblings s =
     (if is_paused s then Inl (Contract ContractPaused)
      else if is_write_path_paused (path_key PathApplyBatchEntry) s \<or> is_feed_paused (ce_asset entry) s
        then Inl (Contract ContractPaused)
      else and_then (valid_len (ce_asset entry)) (\<lambda>_.
           and_then (ok_or (mn_BatchRoot s batch_nonce) BatchRootNotFound) (\<lambda>rt.
           and_then (ok_or (mn_BatchSize s batch_nonce) BatchRootNotFound) (\<lambda>_.
             if sint (ce_price entry) < 0 then Inl (Contract InvalidPrice)
             else if decimals_refused (ce_decimals entry) (ce_asset entry) s then Inl (Contract InvalidDecimals)
             else if \<not> verified entry leaf_index siblings rt then Inl (Contract InvalidMerkleProof)
             else and_then (mark_batch_leaf_applied batch_nonce leaf_index s) (\<lambda>s1.
               let data_point = \<lparr>dp_asset = ce_asset entry, dp_price = ce_price entry, dp_decimals = ce_decimals entry,
                     dp_timestamp = ce_timestamp entry, dp_source = ce_source entry\<rparr>;
                   s2 = update_reputation (ce_source entry) (ce_price entry) (ce_asset entry) (ce_timestamp entry) s1;
                   s3 = append_history (ce_asset entry) data_point (set_latest_price (ce_asset entry) data_point s2)
               in Inr (data_point, publish env (BatchEntryApplied (ce_asset entry) batch_nonce (ce_price entry)) s3))))))"

definition verify_batch_proof ::
  "(bytes \<Rightarrow> bytes) \<Rightarrow> u64 \<Rightarrow> chain_entry \<Rightarrow> u32 \<Rightarrow> bytes list \<Rightarrow> main_storage \<Rightarrow> failure + bool" where
  "verify_batch_proof sha batch_nonce entry leaf_index siblings s =
     (case mn_BatchRoot s batch_nonce of
        None \<Rightarrow> Inr False
      | Some rt \<Rightarrow>
          (case mn_BatchSize s batch_nonce of
             None \<Rightarrow> Inr False
           | Some batch_size \<Rightarrow>
               (case verify_proof sha entry leaf_index batch_size siblings rt of
                  Inl (Contract _) \<Rightarrow> Inr False
                | Inl e \<Rightarrow> Inl e
                | Inr b \<Rightarrow> Inr b)))"

definition stake ::
  "token_answer \<Rightarrow> address \<Rightarrow> env \<Rightarrow> address \<Rightarrow> i128 \<Rightarrow> address \<Rightarrow> main_storage \<Rightarrow> unit main_result" where
  "stake accepts self env source amount token s =
     and_then (require_auth env source) (\<lambda>_.
       if sint amount \<le> 0 then Inl (Contract InvalidStakeAmount)
       else if (case mn_StakeToken s source of None \<Rightarrow> False | Some recorded \<Rightarrow> recorded \<noteq> token)
         then Inl (Contract StakeTokenMismatch)
       else and_then (token_transfer accepts token source self amount s) (\<lambda>s1.
            let s2 = s1\<lparr>mn_StakeToken := (mn_StakeToken s1)(source \<mapsto> token)\<rparr>
            in and_then (plain_signed (sint (get_stake source s2) + sint amount)) (\<lambda>total.
                 Inr ((), publish env (SourceStaked source amount)
                   (s2\<lparr>mn_StakeInfo := (mn_StakeInfo s2)(source \<mapsto> total)\<rparr>)))))"

definition slash ::
  "token_answer \<Rightarrow> address \<Rightarrow> env \<Rightarrow> address \<Rightarrow> i128 \<Rightarrow> string \<Rightarrow> main_storage \<Rightarrow> unit main_result" where
  "slash accepts self env source amount reason s =
     (case st_Admin s of
        None \<Rightarrow> Inl Trap
      | Some admin \<Rightarrow>
          and_then (require_auth env admin) (\<lambda>_.
            if sint amount \<le> 0 then Inl (Contract InvalidSlashAmount)
            else let current = get_stake source s
                 in if sint current \<le> 0 then Inl (Contract NoStakeToSlash)
                    else and_then (ok_or (mn_StakeToken s source) StakeTokenNotRecorded) (\<lambda>token.
                         and_then (ok_or (mn_StakeTreasury s) TreasuryNotConfigured) (\<lambda>treasury.
                           let slashed = (if sint amount > sint current then current else amount)
                           in and_then (token_transfer accepts token self treasury slashed s) (\<lambda>s1.
                              and_then (plain_signed (sint current - sint slashed)) (\<lambda>rest.
                              and_then (plain_add (get_slash_count source s1) 1) (\<lambda>count.
                                Inr ((), publish env (SourceSlashed source reason slashed)
                                  (s1\<lparr>mn_StakeInfo := (mn_StakeInfo s1)(source \<mapsto> rest),
                                      mn_SlashCount := (mn_SlashCount s1)(source \<mapsto> count)\<rparr>)))))))))"

subsection \<open>Histories of the write paths\<close>

definition submission_part :: "main_storage \<Rightarrow> _" where
  "submission_part s = (mn_BatchNonce s, mn_BatchRoot s, mn_BatchSize s, mn_BatchAppliedLeaves s,
     mn_BatchPruneWatermark s, mn_StakeInfo s, mn_StakeToken s, mn_transfers s)"

text \<open>
  A history interleaves the write paths with anything that leaves their keys alone, as every other entry
  point of the contract does. The log holds the applied leaves. A contract does not call itself, so it
  never stakes.
\<close>

inductive main_run ::
  "(string \<Rightarrow> failure + unit) \<Rightarrow> (write_path \<Rightarrow> string) \<Rightarrow> (chain_entry \<Rightarrow> u32 \<Rightarrow> bytes list \<Rightarrow> bytes \<Rightarrow> bool) \<Rightarrow>
     token_answer \<Rightarrow> address \<Rightarrow> (u64 \<times> u32) list \<Rightarrow> main_storage \<Rightarrow> bool"
  for valid_len path_key verified accepts self where
  start: "submission_part s = (None, Map.empty, Map.empty, Map.empty, None, Map.empty, Map.empty, []) \<Longrightarrow>
    main_run valid_len path_key verified accepts self [] s"
| price: "main_run valid_len path_key verified accepts self used s \<Longrightarrow>
    submit_price valid_len path_key env src x p d ts s = Inr (dp, s') \<Longrightarrow>
    main_run valid_len path_key verified accepts self used s'"
| batch: "main_run valid_len path_key verified accepts self used s \<Longrightarrow>
    submit_batch path_key env src n rt sz s = Inr (m, s') \<Longrightarrow>
    main_run valid_len path_key verified accepts self used s'"
| entry: "main_run valid_len path_key verified accepts self used s \<Longrightarrow>
    apply_batch_entry valid_len path_key verified env n e i sibs s = Inr (dp, s') \<Longrightarrow>
    main_run valid_len path_key verified accepts self (used @ [(n, i)]) s'"
| staked: "main_run valid_len path_key verified accepts self used s \<Longrightarrow> src \<noteq> self \<Longrightarrow>
    stake accepts self env src a tok s = Inr (u, s') \<Longrightarrow>
    main_run valid_len path_key verified accepts self used s'"
| slashed: "main_run valid_len path_key verified accepts self used s \<Longrightarrow>
    slash accepts self env src a r s = Inr (u, s') \<Longrightarrow>
    main_run valid_len path_key verified accepts self used s'"
| other: "main_run valid_len path_key verified accepts self used s \<Longrightarrow> submission_part s' = submission_part s \<Longrightarrow>
    main_run valid_len path_key verified accepts self used s'"

lemma submission_part_cong:
  assumes "submission_part s' = submission_part s"
  shows "mn_BatchNonce s' = mn_BatchNonce s" "mn_BatchRoot s' = mn_BatchRoot s" "mn_BatchSize s' = mn_BatchSize s"
    "mn_BatchAppliedLeaves s' = mn_BatchAppliedLeaves s" "mn_BatchPruneWatermark s' = mn_BatchPruneWatermark s"
    "mn_StakeInfo s' = mn_StakeInfo s" "mn_StakeToken s' = mn_StakeToken s" "mn_transfers s' = mn_transfers s"
  using assms by (simp_all add: submission_part_def)

lemma submission_part_price [simp]:
  "submission_part (update_reputation a p x ts s) = submission_part s"
  "submission_part (set_latest_price x dp s) = submission_part s"
  "submission_part (append_history x dp s) = submission_part s"
  "submission_part (publish env e s) = submission_part s"
  by (simp_all add: submission_part_def update_reputation_def set_latest_price_def append_history_def publish_def Let_def)

lemma submit_price_part:
  "submit_price valid_len path_key env src x p d ts s = Inr (dp, s') \<Longrightarrow> submission_part s' = submission_part s"
  by (auto simp: submit_price_def and_then_Inr Let_def split: if_splits)

subsection \<open>Each leaf is applied at most once\<close>

lemma next_le: "k < (m :: u64) \<Longrightarrow> k + 1 \<le> n \<longleftrightarrow> k < n"
  using unat_next [of k m] by (auto simp: word_le_nat_alt word_less_nat_alt)

lemma prune_loop_effect:
  "mn_BatchRoot (prune_loop k m s) = (\<lambda>n. if k \<le> n \<and> n < m then None else mn_BatchRoot s n)
   \<and> mn_BatchAppliedLeaves (prune_loop k m s) = (\<lambda>n. if k \<le> n \<and> n < m then None else mn_BatchAppliedLeaves s n)
   \<and> mn_BatchNonce (prune_loop k m s) = mn_BatchNonce s
   \<and> mn_BatchPruneWatermark (prune_loop k m s) = mn_BatchPruneWatermark s
   \<and> mn_StakeInfo (prune_loop k m s) = mn_StakeInfo s \<and> mn_StakeToken (prune_loop k m s) = mn_StakeToken s
   \<and> mn_transfers (prune_loop k m s) = mn_transfers s"
proof (induction k m s rule: prune_loop.induct)
  case (1 k m s)
  show ?case
  proof (cases "k < m")
    case True
    have "(n = k \<or> k + 1 \<le> n \<and> n < m) = (k \<le> n \<and> n < m)" for n
      unfolding next_le [OF True] using True by auto
    with "1.IH" [OF True] True show ?thesis
      by (subst (1 2 3 4 5 6 7) prune_loop.simps) (auto simp: remove_batch_def fun_eq_iff)
  next
    case False
    then show ?thesis by (subst (1 2 3 4 5 6 7) prune_loop.simps) (auto simp: fun_eq_iff)
  qed
qed

definition batches_ok :: "(u64 \<times> u32) list \<Rightarrow> main_storage \<Rightarrow> bool" where
  "batches_ok used s \<longleftrightarrow> distinct used
     \<and> unat (get_batch_prune_watermark s) = unat (get_batch_nonce s) - 16
     \<and> (\<forall>n. mn_BatchRoot s n \<noteq> None \<longrightarrow> get_batch_prune_watermark s \<le> n \<and> n < get_batch_nonce s)
     \<and> (\<forall>(n, i)\<in>set used. n < get_batch_nonce s
          \<and> (mn_BatchRoot s n = None \<or> i \<in> set (get_batch_applied_leaves n s)))"

lemma batches_ok_cong:
  assumes "mn_BatchNonce s' = mn_BatchNonce s" "mn_BatchRoot s' = mn_BatchRoot s"
    "mn_BatchAppliedLeaves s' = mn_BatchAppliedLeaves s" "mn_BatchPruneWatermark s' = mn_BatchPruneWatermark s"
  shows "batches_ok used s' = batches_ok used s"
  by (simp only: batches_ok_def get_batch_prune_watermark_def get_batch_nonce_def get_batch_applied_leaves_def assms)

lemma batches_ok_entry:
  assumes ok: "batches_ok used s"
    and app: "apply_batch_entry valid_len path_key verified env n e i sibs s = Inr (dp, s')"
  shows "batches_ok (used @ [(n, i)]) s'"
proof -
  from app obtain s1 where s1: "mark_batch_leaf_applied n i s = Inr s1" "submission_part s' = submission_part s1"
    "mn_BatchRoot s n \<noteq> None"
    by (auto simp: apply_batch_entry_def and_then_Inr Let_def split: if_splits)
  then have m: "i \<notin> set (get_batch_applied_leaves n s)"
    "mn_BatchAppliedLeaves s1 = (mn_BatchAppliedLeaves s)(n \<mapsto> get_batch_applied_leaves n s @ [i])"
    "mn_BatchNonce s1 = mn_BatchNonce s" "mn_BatchRoot s1 = mn_BatchRoot s"
    "mn_BatchPruneWatermark s1 = mn_BatchPruneWatermark s"
    by (auto simp: mark_batch_leaf_applied_def Let_def list_ex_iff split: if_splits)
  have g: "get_batch_applied_leaves k s1 = get_batch_applied_leaves k s @ (if k = n then [i] else [])"
    "get_batch_nonce s1 = get_batch_nonce s" "get_batch_prune_watermark s1 = get_batch_prune_watermark s" for k
    by (simp_all add: get_batch_applied_leaves_def get_batch_nonce_def get_batch_prune_watermark_def m)
  have "batches_ok (used @ [(n, i)]) s1"
    using ok m(1) s1(3) unfolding batches_ok_def g m(4) by auto
  then show ?thesis by (rule iffD2 [OF batches_ok_cong [OF submission_part_cong(1,2,4,5) [OF s1(2)]]])
qed

lemma submit_batch_effect:
  assumes "submit_batch path_key env src n rt sz s = Inr (m, s')"
  obtains s1 where "n = get_batch_nonce s" "plain_add n 1 = Inr (n + 1)"
    "s1 = prune_batch_roots (n + 1) (s\<lparr>mn_BatchRoot := (mn_BatchRoot s)(n \<mapsto> rt)\<rparr>)"
    "s' = publish env (BatchSubmitted src n rt) (s1\<lparr>mn_BatchSize := (mn_BatchSize s1)(n \<mapsto> sz), mn_BatchNonce := Some (n + 1)\<rparr>)"
proof -
  have nonce: "mn_BatchNonce (prune_batch_roots k x) = mn_BatchNonce x" for k x
    by (simp add: prune_batch_roots_def Let_def prune_loop_effect)
  from assms show thesis
    by (intro that [of "prune_batch_roots (n + 1) (s\<lparr>mn_BatchRoot := (mn_BatchRoot s)(n \<mapsto> rt)\<rparr>)"])
      (auto simp: submit_batch_def set_batch_root_def increment_batch_nonce_def and_then_Inr Let_def plain_add_Inr
        get_batch_nonce_def nonce split: if_splits)
qed

lemma prune_batch_roots_frame:
  "mn_StakeInfo (prune_batch_roots k s) = mn_StakeInfo s" "mn_StakeToken (prune_batch_roots k s) = mn_StakeToken s"
  "mn_transfers (prune_batch_roots k s) = mn_transfers s"
  by (simp_all add: prune_batch_roots_def Let_def prune_loop_effect)

lemma batches_ok_submit:
  assumes ok: "batches_ok used s" and sub: "submit_batch path_key env src n rt sz s = Inr (m, s')"
  shows "batches_ok used s'"
proof -
  define w where "w = get_batch_prune_watermark s"
  define up where "up = min (max (saturating_sub (n + 1) RETAINED_BATCH_ROOTS) w) (n + 1)"
  obtain s1 where n: "n = get_batch_nonce s" "plain_add n 1 = Inr (n + 1)"
    and s1: "s1 = prune_batch_roots (n + 1) (s\<lparr>mn_BatchRoot := (mn_BatchRoot s)(n \<mapsto> rt)\<rparr>)"
    and eq: "s' = publish env (BatchSubmitted src n rt) (s1\<lparr>mn_BatchSize := (mn_BatchSize s1)(n \<mapsto> sz), mn_BatchNonce := Some (n + 1)\<rparr>)"
    by (rule submit_batch_effect [OF sub])
  have n3: "get_batch_nonce s' = n + 1" by (simp add: eq get_batch_nonce_def publish_def)
  have u: "unat (n + 1) = Suc (unat n)" using plain_add_unat [OF n(2)] by simp
  have w: "unat w = unat n - 16" using ok n(1) by (simp add: batches_ok_def w_def)
  have up: "unat up = unat (n + 1) - 16"
    using w u by (simp add: up_def min_def max_def word_le_nat_alt unat_saturating_sub RETAINED_BATCH_ROOTS_def) linarith
  have s': "mn_BatchRoot s' = (\<lambda>k. if w \<le> k \<and> k < up then None else ((mn_BatchRoot s)(n \<mapsto> rt)) k)"
    "mn_BatchAppliedLeaves s' = (\<lambda>k. if w \<le> k \<and> k < up then None else mn_BatchAppliedLeaves s k)"
    "get_batch_prune_watermark s' = (if up > w then up else w)"
    by (simp_all add: eq s1 publish_def prune_batch_roots_def Let_def prune_loop_effect get_batch_prune_watermark_def
        w_def up_def cong: if_cong)
  have wle: "w \<le> up" using w up u by (simp add: word_le_nat_alt)
  have wm: "get_batch_prune_watermark s' = up" using s'(3) wle by (auto simp: not_less)
  have roots: "up \<le> k \<and> k < n + 1" if "mn_BatchRoot s' k \<noteq> None" for k
  proof -
    have "w \<le> k \<and> k \<le> n"
    proof (cases "k = n")
      case True
      then show ?thesis using w by (simp add: word_le_nat_alt)
    next
      case False
      then have "mn_BatchRoot s k \<noteq> None" using that by (auto simp: s'(1) split: if_splits)
      then show ?thesis using ok n(1) by (auto simp: batches_ok_def w_def)
    qed
    then show ?thesis using that u by (auto simp: s'(1) not_less word_le_nat_alt word_less_nat_alt split: if_splits)
  qed
  have old: "k < n + 1 \<and> (mn_BatchRoot s' k = None \<or> i \<in> set (get_batch_applied_leaves k s'))" if "(k, i) \<in> set used" for k i
  proof -
    have "k < n \<and> (mn_BatchRoot s k = None \<or> i \<in> set (get_batch_applied_leaves k s))"
      using that ok n(1) by (auto simp: batches_ok_def)
    then show ?thesis
      using u by (auto simp: s'(1,2) get_batch_applied_leaves_def word_less_nat_alt)
  qed
  show ?thesis
    unfolding batches_ok_def wm n3 using ok up roots old by (auto simp: batches_ok_def)
qed

lemma batches_ok_run: "main_run valid_len path_key verified accepts self used s \<Longrightarrow> batches_ok used s"
proof (induction rule: main_run.induct)
  case (start s)
  then show ?case
    by (simp add: submission_part_def batches_ok_def get_batch_nonce_def get_batch_prune_watermark_def)
next
  case (price used s env src x p d ts dp s')
  note eq = submission_part_cong [OF submit_price_part [OF price.hyps(2)]]
  show ?case by (rule iffD2 [OF batches_ok_cong [OF eq(1,2,4,5)] price.IH])
next
  case (batch used s env src n rt sz m s')
  show ?case by (rule batches_ok_submit [OF batch.IH batch.hyps(2)])
next
  case (entry used s env n e i sibs dp s')
  show ?case by (rule batches_ok_entry [OF entry.IH entry.hyps(2)])
next
  case (staked used s src env a tok u s')
  then have "mn_BatchNonce s' = mn_BatchNonce s" "mn_BatchRoot s' = mn_BatchRoot s"
    "mn_BatchAppliedLeaves s' = mn_BatchAppliedLeaves s" "mn_BatchPruneWatermark s' = mn_BatchPruneWatermark s"
    by (auto simp: stake_def and_then_Inr Let_def token_transfer_def publish_def split: if_splits)
  from batches_ok_cong [OF this] staked.IH show ?case by blast
next
  case (slashed used s env src a r u s')
  then have "mn_BatchNonce s' = mn_BatchNonce s" "mn_BatchRoot s' = mn_BatchRoot s"
    "mn_BatchAppliedLeaves s' = mn_BatchAppliedLeaves s" "mn_BatchPruneWatermark s' = mn_BatchPruneWatermark s"
    by (auto simp: slash_def and_then_Inr Let_def token_transfer_def publish_def split: if_splits option.splits)
  from batches_ok_cong [OF this] slashed.IH show ?case by blast
next
  case (other used s s')
  note eq = submission_part_cong [OF other.hyps(2)]
  show ?case by (rule iffD2 [OF batches_ok_cong [OF eq(1,2,4,5)] other.IH])
qed

text \<open>
  (C36) Over any history, no leaf of a batch is applied twice, even after its batch was pruned, and at most
  the sixteen most recent batch roots are kept.
\<close>
theorem batch_leaf_applied_once:
  assumes "main_run valid_len path_key verified accepts self used s"
  shows "distinct used \<and> {n. mn_BatchRoot s n \<noteq> None} \<subseteq> {n. unat (get_batch_nonce s) \<le> unat n + 16 \<and> n < get_batch_nonce s}"
proof -
  have ok: "batches_ok used s" by (rule batches_ok_run [OF assms])
  have "unat (get_batch_nonce s) \<le> unat n + 16 \<and> n < get_batch_nonce s" if "mn_BatchRoot s n \<noteq> None" for n
  proof -
    have "get_batch_prune_watermark s \<le> n" "n < get_batch_nonce s" using ok that by (simp_all add: batches_ok_def)
    moreover have "unat (get_batch_prune_watermark s) = unat (get_batch_nonce s) - 16" using ok by (simp add: batches_ok_def)
    ultimately show ?thesis by (simp add: word_le_nat_alt)
  qed
  then show ?thesis using ok by (auto simp: batches_ok_def)
qed

subsection \<open>Stakes are covered\<close>

definition held :: "address \<Rightarrow> address \<Rightarrow> main_storage \<Rightarrow> int" where
  "held self token s = sum_list (map (\<lambda>(t, sender, receiver, amount). if t = token
     then (if receiver = self then sint amount else 0) - (if sender = self then sint amount else 0) else 0) (mn_transfers s))"

definition stakers :: "address \<Rightarrow> main_storage \<Rightarrow> address set" where
  "stakers token s = {a. mn_StakeToken s a = Some token}"

definition staked_total :: "address \<Rightarrow> main_storage \<Rightarrow> int" where
  "staked_total token s = (\<Sum>a\<in>stakers token s. sint (get_stake a s))"

definition stakes_ok :: "address \<Rightarrow> main_storage \<Rightarrow> bool" where
  "stakes_ok self s \<longleftrightarrow> finite (dom (mn_StakeToken s)) \<and> (\<forall>a. 0 \<le> sint (get_stake a s))
     \<and> (\<forall>a. mn_StakeToken s a = None \<longrightarrow> sint (get_stake a s) = 0)
     \<and> (\<forall>token. staked_total token s \<le> held self token s)"

lemma stakes_ok_cong:
  assumes "mn_StakeInfo s' = mn_StakeInfo s" "mn_StakeToken s' = mn_StakeToken s" "mn_transfers s' = mn_transfers s"
  shows "stakes_ok self s' = stakes_ok self s"
  by (simp only: stakes_ok_def staked_total_def stakers_def held_def get_stake_def assms)

lemma staked_total_change:
  assumes fin: "finite (dom (mn_StakeToken s))" and zero: "mn_StakeToken s src = None \<Longrightarrow> sint (get_stake src s) = 0"
    and tok: "mn_StakeToken s src = None \<or> mn_StakeToken s src = Some token"
    and s': "mn_StakeToken s' = (mn_StakeToken s)(src \<mapsto> token)" "\<And>a. a \<noteq> src \<Longrightarrow> get_stake a s' = get_stake a s"
  shows "staked_total t s' = staked_total t s + (if t = token then sint (get_stake src s') - sint (get_stake src s) else 0)"
proof -
  have fin': "finite (stakers t s)" by (rule finite_subset [OF _ fin]) (auto simp: stakers_def)
  show ?thesis
  proof (cases "t = token")
    case True
    have "stakers token s' = insert src (stakers token s - {src})" by (auto simp: stakers_def s'(1))
    then have "staked_total token s' = sint (get_stake src s') + (\<Sum>a\<in>stakers token s - {src}. sint (get_stake a s'))"
      using fin' True by (simp add: staked_total_def sum.insert_remove)
    also have "(\<Sum>a\<in>stakers token s - {src}. sint (get_stake a s')) = (\<Sum>a\<in>stakers token s - {src}. sint (get_stake a s))"
      by (intro sum.cong) (simp_all add: s'(2))
    also have "\<dots> = staked_total token s - sint (get_stake src s)"
    proof (cases "src \<in> stakers token s")
      case True
      then show ?thesis using fin' \<open>t = token\<close> by (simp add: staked_total_def sum_diff1)
    next
      case False
      then have "mn_StakeToken s src = None" using tok by (auto simp: stakers_def)
      then show ?thesis using False zero by (simp add: staked_total_def)
    qed
    finally show ?thesis using True by simp
  next
    case False
    then have "stakers t s' = stakers t s - {src}" "src \<notin> stakers t s" using tok by (auto simp: stakers_def s'(1))
    then have "staked_total t s' = staked_total t s"
      unfolding staked_total_def by (intro sum.cong) (auto intro!: arg_cong [where f = sint] s'(2))
    then show ?thesis using False by simp
  qed
qed

lemma stakes_ok_stake:
  assumes ok: "stakes_ok self s" and src: "src \<noteq> self" and st: "stake accepts self env src a token s = Inr (u, s')"
  shows "stakes_ok self s'"
proof -
  from st obtain total where s': "0 < sint a" "mn_StakeToken s src = None \<or> mn_StakeToken s src = Some token"
    "sint total = sint (get_stake src s) + sint a" "mn_StakeToken s' = (mn_StakeToken s)(src \<mapsto> token)"
    "mn_StakeInfo s' = (mn_StakeInfo s)(src \<mapsto> total)" "mn_transfers s' = mn_transfers s @ [(token, src, self, a)]"
    by (auto simp: stake_def and_then_Inr Let_def token_transfer_def publish_def plain_signed_Inr get_stake_def
        split: if_splits option.splits)
  have g: "get_stake b s' = (if b = src then total else get_stake b s)" for b by (simp add: get_stake_def s'(5))
  have "staked_total t s' = staked_total t s + (if t = token then sint a else 0)" for t
    using ok s'(2,3) by (subst staked_total_change [of s src token s']) (auto simp: stakes_ok_def s'(4) g)
  moreover have "held self t s' = held self t s + (if t = token then sint a else 0)" for t
    using src by (simp add: held_def s'(6))
  ultimately show ?thesis using ok s'(1,3) by (auto simp: stakes_ok_def s'(4) g)
qed

lemma slash_effect:
  assumes "slash accepts self env src a r s = Inr (u, s')"
    and "amount = (if sint a > sint (get_stake src s) then get_stake src s else a)"
  obtains token treasury rest where "mn_StakeToken s src = Some token" "mn_StakeToken s' = mn_StakeToken s"
    "0 < sint amount" "sint amount \<le> sint (get_stake src s)" "sint rest = sint (get_stake src s) - sint amount"
    "mn_StakeInfo s' = (mn_StakeInfo s)(src \<mapsto> rest)"
    "mn_transfers s' = mn_transfers s @ [(token, self, treasury, amount)]"
proof -
  from assms(1) obtain token treasury s1 rest count where r: "\<not> sint a \<le> 0" "\<not> sint (get_stake src s) \<le> 0"
    "mn_StakeToken s src = Some token" "token_transfer accepts token self treasury amount s = Inr s1"
    "plain_signed (sint (get_stake src s) - sint amount) = Inr rest"
    "s' = publish env (SourceSlashed src r amount) (s1\<lparr>mn_StakeInfo := (mn_StakeInfo s1)(src \<mapsto> rest),
       mn_SlashCount := (mn_SlashCount s1)(src \<mapsto> count)\<rparr>)"
    unfolding slash_def Let_def assms(2) [symmetric] by (auto simp: and_then_Inr split: if_splits option.splits)
  have s1: "s1 = s\<lparr>mn_transfers := mn_transfers s @ [(token, self, treasury, amount)]\<rparr>"
    using r(4) by (simp add: token_transfer_def split: if_splits)
  show thesis
    by (rule that [of token rest treasury])
      (use r assms(2) in \<open>simp_all add: s1 publish_def plain_signed_Inr split: if_splits\<close>)
qed

lemma stakes_ok_slash:
  assumes ok: "stakes_ok self s" and sl: "slash accepts self env src a r s = Inr (u, s')"
  shows "stakes_ok self s'"
proof -
  define amount where "amount = (if sint a > sint (get_stake src s) then get_stake src s else a)"
  obtain token treasury rest where s': "mn_StakeToken s src = Some token" "mn_StakeToken s' = mn_StakeToken s"
    "0 < sint amount" "sint amount \<le> sint (get_stake src s)" "sint rest = sint (get_stake src s) - sint amount"
    "mn_StakeInfo s' = (mn_StakeInfo s)(src \<mapsto> rest)" "mn_transfers s' = mn_transfers s @ [(token, self, treasury, amount)]"
    by (rule slash_effect [OF sl amount_def])
  have g: "get_stake b s' = (if b = src then rest else get_stake b s)" for b by (simp add: get_stake_def s'(6))
  have "(mn_StakeToken s)(src \<mapsto> token) = mn_StakeToken s" using s'(1) by auto
  then have "staked_total t s' = staked_total t s - (if t = token then sint amount else 0)" for t
    using ok s'(1,5) by (subst staked_total_change [of s src token s']) (auto simp: stakes_ok_def s'(2) g)
  moreover have "held self t s - (if t = token then sint amount else 0) \<le> held self t s'" for t
    using s'(3) by (simp add: held_def s'(7))
  moreover have "staked_total t s \<le> held self t s" for t using ok by (simp add: stakes_ok_def)
  ultimately have "staked_total t s' \<le> held self t s'" for t by (metis diff_right_mono order_trans)
  then show ?thesis using ok s'(1,4,5) by (auto simp: stakes_ok_def s'(2) g)
qed

text \<open>
  (C37) Over any history, the recorded stakes in a token never exceed what the contract received in that
  token through its transfers less what it paid out, so every stake can be slashed in full.
\<close>
theorem stakes_covered:
  assumes "main_run valid_len path_key verified accepts self used s"
  shows "staked_total token s \<le> held self token s \<and> 0 \<le> sint (get_stake a s)"
proof -
  have "stakes_ok self s"
    using assms
  proof (induction rule: main_run.induct)
    case (start s)
    then show ?case by (simp add: submission_part_def stakes_ok_def staked_total_def stakers_def held_def get_stake_def)
  next
    case (price used s env src x p d ts dp s')
    note eq = submission_part_cong [OF submit_price_part [OF price.hyps(2)]]
    show ?case by (rule iffD2 [OF stakes_ok_cong [OF eq(6-8)] price.IH])
  next
    case (batch used s env src n rt sz m s')
    have "mn_StakeInfo s' = mn_StakeInfo s" "mn_StakeToken s' = mn_StakeToken s" "mn_transfers s' = mn_transfers s"
      by (rule submit_batch_effect [OF batch.hyps(2)]; simp add: publish_def prune_batch_roots_frame)+
    from stakes_ok_cong [OF this] batch.IH show ?case by blast
  next
    case (entry used s env n e i sibs dp s')
    then obtain s1 where "mark_batch_leaf_applied n i s = Inr s1" "submission_part s' = submission_part s1"
      by (auto simp: apply_batch_entry_def and_then_Inr Let_def split: if_splits)
    then have "mn_StakeInfo s' = mn_StakeInfo s" "mn_StakeToken s' = mn_StakeToken s" "mn_transfers s' = mn_transfers s"
      by (auto simp: mark_batch_leaf_applied_def Let_def submission_part_def split: if_splits)
    from stakes_ok_cong [OF this] entry.IH show ?case by blast
  next
    case (staked used s src env a tok u s')
    show ?case by (rule stakes_ok_stake [OF staked.IH staked.hyps(2,3)])
  next
    case (slashed used s env src a r u s')
    show ?case by (rule stakes_ok_slash [OF slashed.IH slashed.hyps(2)])
  next
    case (other used s s')
    note eq = submission_part_cong [OF other.hyps(2)]
    show ?case by (rule iffD2 [OF stakes_ok_cong [OF eq(6-8)] other.IH])
  qed
  then show ?thesis by (simp add: stakes_ok_def)
qed

subsection \<open>A sample history\<close>

definition sample_main :: main_storage where
  "sample_main = \<lparr>st_Admin = Some ''adm'', st_Source = [''src'' \<mapsto> True], st_SourceName = [''src'' \<mapsto> ''n''],
     st_SourceCount = Some 1, st_LatestPrice = Map.empty, st_AllAssets = None, st_PriceHistory = Map.empty,
     st_TrustedAsset = Map.empty, st_DeviationThreshold = None, st_SourceReputation = Map.empty,
     st_MultiSigConfig = None, st_events = [], mn_PendingAdmin = None, mn_Paused = None, mn_FeedPaused = Map.empty,
     mn_WritePathPaused = Map.empty, mn_BatchNonce = None, mn_BatchRoot = Map.empty, mn_BatchSize = Map.empty,
     mn_BatchAppliedLeaves = Map.empty, mn_BatchPruneWatermark = None, mn_StakeInfo = Map.empty,
     mn_StakeToken = Map.empty, mn_StakeTreasury = Some ''tre'', mn_SlashCount = Map.empty, mn_QueryFee = None,
     mn_Whitelist = Map.empty, mn_FeeBalance = None, mn_FeeToken = None, mn_StorageLayoutVersion = Some 1,
     mn_transfers = []\<rparr>"

definition left_by :: "'v main_result \<Rightarrow> main_storage" where
  "left_by r = (case r of Inr (_, s) \<Rightarrow> s | Inl _ \<Rightarrow> sample_main)"

definition all_valid :: "string \<Rightarrow> failure + unit" where "all_valid x = Inr ()"
definition no_path :: "write_path \<Rightarrow> string" where "no_path w = []"
definition all_verified :: "chain_entry \<Rightarrow> u32 \<Rightarrow> bytes list \<Rightarrow> bytes \<Rightarrow> bool" where "all_verified e i ss r = True"
definition all_accepted :: token_answer where "all_accepted t f r a = True"

definition signed_env :: "address \<Rightarrow> env" where "signed_env a = \<lparr>env_timestamp = 5, env_auth = [a]\<rparr>"

definition sample_chain_entry :: chain_entry where
  "sample_chain_entry = \<lparr>ce_asset = ''BTC'', ce_price = 9, ce_decimals = 2, ce_timestamp = 5, ce_source = ''src''\<rparr>"

definition step1 :: "u64 main_result" where
  "step1 = submit_batch no_path (signed_env ''src'') ''src'' 0 (replicate 32 7) 4 sample_main"
definition step2 :: "price_data_point main_result" where
  "step2 = apply_batch_entry all_valid no_path all_verified (signed_env ''x'') 0 sample_chain_entry 3 [] (left_by step1)"
definition step3 :: "unit main_result" where
  "step3 = stake all_accepted ''self'' (signed_env ''src'') ''src'' 50 ''tok'' (left_by step2)"
definition step4 :: "unit main_result" where
  "step4 = slash all_accepted ''self'' (signed_env ''adm'') ''src'' 20 ''late'' (left_by step3)"

lemma isr_left_by: "\<not> isl r \<Longrightarrow> \<exists>v. r = Inr (v, left_by r)"
  by (cases r) (auto simp: left_by_def)

lemma sample_steps: "\<not> isl step1 \<and> \<not> isl step2 \<and> \<not> isl step3 \<and> \<not> isl step4"
  by code_simp

lemma sample_main_run: "main_run all_valid no_path all_verified all_accepted ''self'' [(0, 3)] (left_by step4)"
proof -
  note r = main_run.intros [where valid_len = all_valid and path_key = no_path and verified = all_verified
      and accepts = all_accepted and self = "''self''"]
  obtain a b c d where s: "step1 = Inr (a, left_by step1)" "step2 = Inr (b, left_by step2)" "step3 = Inr (c, left_by step3)"
    "step4 = Inr (d, left_by step4)" using sample_steps isr_left_by by metis
  have "main_run all_valid no_path all_verified all_accepted ''self'' [] sample_main"
    by (rule r(1)) (simp add: submission_part_def sample_main_def)
  from r(3) [OF this] have "main_run all_valid no_path all_verified all_accepted ''self'' [] (left_by step1)"
    using s(1) unfolding step1_def .
  from r(4) [OF this] have "main_run all_valid no_path all_verified all_accepted ''self'' [(0, 3)] (left_by step2)"
    using s(2) unfolding step2_def append_Nil .
  moreover have "''src'' \<noteq> ''self''" by simp
  ultimately have "main_run all_valid no_path all_verified all_accepted ''self'' [(0, 3)] (left_by step3)"
    using s(3) unfolding step3_def by (rule r(5))
  from r(6) [OF this] show ?thesis using s(4) unfolding step4_def .
qed

theorem batch_leaf_applied_once_witness:
  "distinct [(0 :: u64, 3 :: u32)] \<and> {n. mn_BatchRoot (left_by step4) n \<noteq> None} \<subseteq> {n. n < get_batch_nonce (left_by step4)}
   \<and> mn_BatchRoot (left_by step4) 0 \<noteq> None
   \<and> isl (apply_batch_entry all_valid no_path all_verified (signed_env ''x'') 0 sample_chain_entry 3 [] (left_by step4))"
proof -
  have "mn_BatchRoot (left_by step4) 0 \<noteq> None"
    "isl (apply_batch_entry all_valid no_path all_verified (signed_env ''x'') 0 sample_chain_entry 3 [] (left_by step4))"
    by code_simp+
  then show ?thesis using batch_leaf_applied_once [OF sample_main_run] by auto
qed

theorem stakes_covered_witness:
  "staked_total ''tok'' (left_by step4) \<le> held ''self'' ''tok'' (left_by step4)
   \<and> held ''self'' ''tok'' (left_by step4) = 30 \<and> sint (get_stake ''src'' (left_by step4)) = 30"
proof -
  have "held ''self'' ''tok'' (left_by step4) = 30" "sint (get_stake ''src'' (left_by step4)) = 30"
    by code_simp+
  then show ?thesis using stakes_covered [OF sample_main_run, of "''tok''"] by simp
qed

text \<open>
  Unlike \<open>submit_price\<close>, applying a batch entry never compares the price with the deviation threshold: whatever
  threshold is set, the same entries are accepted.
\<close>
lemma apply_ignores_threshold:
  "isl (apply_batch_entry valid_len path_key verified env n e i sibs (s\<lparr>st_DeviationThreshold := t\<rparr>)) =
   isl (apply_batch_entry valid_len path_key verified env n e i sibs s)"
proof -
  have mark: "isl (mark_batch_leaf_applied n i (s\<lparr>st_DeviationThreshold := t\<rparr>)) = isl (mark_batch_leaf_applied n i s)"
    by (simp add: mark_batch_leaf_applied_def get_batch_applied_leaves_def Let_def)
  have isl_then: "isl (and_then r f) = (isl r \<or> isl (f (projr r)))" for r :: "failure + 'x" and f :: "'x \<Rightarrow> failure + 'y"
    by (cases r) simp_all
  show ?thesis
    by (simp add: apply_batch_entry_def is_paused_def is_write_path_paused_def is_feed_paused_def decimals_refused_def
        isl_then mark Let_def ok_or_def split: option.splits)
qed

end
