(* ===== verification/Oracle_Admin.thy ===== *)
theory Oracle_Admin
  imports Oracle_Submission
begin

text \<open>
  Administration and reads of the price oracle contract, \<open>contracts/price-oracle/src/contract/admin.rs\<close> and
  \<open>queries.rs\<close>: the two-step admin handover, configuration, fees, pauses and price queries. The pause
  events carry the fields that \<open>admin.rs\<close> gives them, which are not those that \<open>events.rs\<close> declares. The snapshot and evidence reads, which
  build records with fields their types do not have, are not modelled.
\<close>

definition ADMIN_TRANSFER_WINDOW_SECONDS :: u64 where "ADMIN_TRANSFER_WINDOW_SECONDS = 259200"

definition contract_initialize :: "address \<Rightarrow> main_storage \<Rightarrow> unit main_result" where
  "contract_initialize admin s =
     (if st_Admin s \<noteq> None then Inl (Contract AlreadyInitialized)
      else Inr ((), s\<lparr>st_Admin := Some admin, mn_StorageLayoutVersion := Some 1\<rparr>))"

definition propose_admin :: "env \<Rightarrow> address \<Rightarrow> address \<Rightarrow> main_storage \<Rightarrow> unit main_result" where
  "propose_admin env admin new_admin s = as_admin env admin s
     (and_then (plain_add (env_timestamp env) ADMIN_TRANSFER_WINDOW_SECONDS) (\<lambda>deadline.
        Inr ((), publish env (AdminTransferProposed admin new_admin deadline)
          (s\<lparr>mn_PendingAdmin := Some (new_admin, deadline)\<rparr>))))"

definition accept_admin :: "env \<Rightarrow> address \<Rightarrow> main_storage \<Rightarrow> unit main_result" where
  "accept_admin env new_admin s =
     and_then (require_auth env new_admin) (\<lambda>_.
     and_then (ok_or (mn_PendingAdmin s) NoPendingAdmin) (\<lambda>(pending, _).
       if pending \<noteq> new_admin then Inl (Contract AdminOnly)
       else case st_Admin s of
              None \<Rightarrow> Inl Trap
            | Some old_admin \<Rightarrow> Inr ((), publish env (AdminTransferAccepted old_admin new_admin (env_timestamp env))
                (s\<lparr>st_Admin := Some new_admin, mn_PendingAdmin := None\<rparr>))))"

definition cancel_admin_transfer :: "env \<Rightarrow> address \<Rightarrow> main_storage \<Rightarrow> unit main_result" where
  "cancel_admin_transfer env admin s = as_admin env admin s
     (and_then (ok_or (mn_PendingAdmin s) NoPendingAdmin) (\<lambda>(pending, deadline).
        if env_timestamp env > deadline then Inl (Contract AdminTransferWindowElapsed)
        else Inr ((), publish env (AdminTransferCancelled admin pending (env_timestamp env))
          (s\<lparr>mn_PendingAdmin := None\<rparr>))))"

definition contract_set_deviation_threshold :: "env \<Rightarrow> address \<Rightarrow> u32 \<Rightarrow> main_storage \<Rightarrow> unit main_result" where
  "contract_set_deviation_threshold env admin threshold_bps s = as_admin env admin s
     (Inr ((), publish env (DeviationThresholdSet threshold_bps)
          (s\<lparr>st_DeviationThreshold := Some threshold_bps\<rparr>)))"

definition contract_reset_reputation :: "env \<Rightarrow> address \<Rightarrow> address \<Rightarrow> main_storage \<Rightarrow> unit main_result" where
  "contract_reset_reputation env admin source s = as_admin env admin s
     (Inr ((), publish env (ReputationReset source)
          (s\<lparr>st_SourceReputation := (st_SourceReputation s)(source := None)\<rparr>)))"

definition contract_add_source :: "env \<Rightarrow> address \<Rightarrow> address \<Rightarrow> string \<Rightarrow> main_storage \<Rightarrow> unit main_result" where
  "contract_add_source env admin source name s = as_admin env admin s
     (and_then (add_source source name s) (\<lambda>s1. Inr ((), publish env (SourceAdded source name) s1)))"

definition contract_remove_source :: "env \<Rightarrow> address \<Rightarrow> address \<Rightarrow> main_storage \<Rightarrow> unit main_result" where
  "contract_remove_source env admin source s = as_admin env admin s 
     (Inr ((), publish env (SourceRemoved source) (remove_source source s)))"

definition contract_set_trusted_asset :: "env \<Rightarrow> address \<Rightarrow> string \<Rightarrow> bool \<Rightarrow> main_storage \<Rightarrow> unit main_result" where
  "contract_set_trusted_asset env admin asset trusted s = as_admin env admin s
     (Inr ((), publish env (TrustedAssetSet asset trusted) (set_trusted_asset asset trusted s)))"

definition set_stake_treasury :: "env \<Rightarrow> address \<Rightarrow> address \<Rightarrow> main_storage \<Rightarrow> unit main_result" where
  "set_stake_treasury env admin treasury s = as_admin env admin s 
     (Inr ((), publish env (StakeTreasurySet treasury)
          (s\<lparr>mn_StakeTreasury := Some treasury\<rparr>)))"

definition set_fee_token :: "env \<Rightarrow> address \<Rightarrow> address \<Rightarrow> main_storage \<Rightarrow> unit main_result" where
  "set_fee_token env admin token s = as_admin env admin s (Inr ((), s\<lparr>mn_FeeToken := Some token\<rparr>))"

definition get_fee_balance :: "main_storage \<Rightarrow> i128" where
  "get_fee_balance s = nullish (mn_FeeBalance s) 0"

definition set_query_fee :: "env \<Rightarrow> address \<Rightarrow> i128 \<Rightarrow> main_storage \<Rightarrow> unit main_result" where
  "set_query_fee env admin fee s = as_admin env admin s 
     (Inr ((), publish env (QueryFeeSet admin fee)
          (s\<lparr>mn_QueryFee := Some fee\<rparr>)))"

definition set_whitelist :: "env \<Rightarrow> address \<Rightarrow> address \<Rightarrow> bool \<Rightarrow> main_storage \<Rightarrow> unit main_result" where
  "set_whitelist env admin addr status s = as_admin env admin s
     (Inr ((), publish env (WhitelistUpdated admin addr status)
          (s\<lparr>mn_Whitelist := (mn_Whitelist s)(addr \<mapsto> status)\<rparr>)))"

definition withdraw_fees :: "token_answer \<Rightarrow> address \<Rightarrow> env \<Rightarrow> address \<Rightarrow> address \<Rightarrow> main_storage \<Rightarrow> unit main_result" where
  "withdraw_fees accepts self env admin recipient s = as_admin env admin s
     (and_then (ok_or (mn_FeeToken s) (Undeclared ''FeeTokenNotConfigured'')) (\<lambda>fee_token.
        let balance = get_fee_balance s
        in if sint balance > 0 then
             and_then (token_transfer accepts fee_token self recipient balance s) (\<lambda>s1.
               Inr ((), publish env (FeesWithdrawn recipient fee_token balance) (s1\<lparr>mn_FeeBalance := Some 0\<rparr>)))
           else Inr ((), s)))"

definition set_feed_paused :: "string \<Rightarrow> bool \<Rightarrow> main_storage \<Rightarrow> main_storage" where
  "set_feed_paused asset paused s = s\<lparr>mn_FeedPaused := (mn_FeedPaused s)(asset \<mapsto> paused)\<rparr>"

definition pause_feed :: "env \<Rightarrow> address \<Rightarrow> string \<Rightarrow> string \<Rightarrow> main_storage \<Rightarrow> unit main_result" where
  "pause_feed env admin asset reason s = as_admin env admin s
     (Inr ((), publish env (FeedPaused admin asset reason (env_timestamp env)) (set_feed_paused asset True s)))"

definition unpause_feed :: "env \<Rightarrow> address \<Rightarrow> string \<Rightarrow> main_storage \<Rightarrow> unit main_result" where
  "unpause_feed env admin asset s = as_admin env admin s
     (Inr ((), publish env (FeedUnpaused admin asset (env_timestamp env)) (set_feed_paused asset False s)))"

definition set_write_path_paused :: "string \<Rightarrow> bool \<Rightarrow> main_storage \<Rightarrow> main_storage" where
  "set_write_path_paused path paused s = s\<lparr>mn_WritePathPaused := (mn_WritePathPaused s)(path \<mapsto> paused)\<rparr>"

definition pause_write_path :: "env \<Rightarrow> address \<Rightarrow> string \<Rightarrow> string \<Rightarrow> main_storage \<Rightarrow> unit main_result" where
  "pause_write_path env admin path reason s = as_admin env admin s
     (Inr ((), publish env (WritePathPaused admin path reason (env_timestamp env)) (set_write_path_paused path True s)))"

definition unpause_write_path :: "env \<Rightarrow> address \<Rightarrow> string \<Rightarrow> main_storage \<Rightarrow> unit main_result" where
  "unpause_write_path env admin path s = as_admin env admin s
     (Inr ((), publish env (WritePathUnpaused admin path (env_timestamp env)) (set_write_path_paused path False s)))"

subsection \<open>queries.rs\<close>

definition contract_get_price :: "address \<Rightarrow> string \<Rightarrow> main_storage \<Rightarrow> failure + asset_price option" where
  "contract_get_price caller asset s =
     (if sint (nullish (mn_QueryFee s) 0) > 0 \<and> \<not> nullish (mn_Whitelist s caller) False
      then Inl (Contract (Undeclared ''NotWhitelisted''))
      else case st_LatestPrice s asset of
             None \<Rightarrow> Inr None
           | Some dp \<Rightarrow> Inr (Some \<lparr>ap_asset = dp_asset dp, ap_price = dp_price dp, ap_decimals = dp_decimals dp,
               ap_price_usd = calculate_usd_price (dp_asset dp) (dp_price dp) (dp_decimals dp) s,
               ap_timestamp = dp_timestamp dp, ap_source = dp_source dp, ap_num_sources = get_source_count s,
               ap_is_trusted = is_trusted_asset asset s\<rparr>))"

definition effective_limit :: "u32 \<Rightarrow> nat" where
  "effective_limit limit = (if limit = 0 \<or> unat limit > MAX_HISTORY_LEN then MAX_HISTORY_LEN else unat limit)"

definition contract_get_price_history :: "string \<Rightarrow> u32 \<Rightarrow> main_storage \<Rightarrow> price_data_point list" where
  "contract_get_price_history asset limit s =
     (let all_history = get_price_history asset s;
          len = length all_history;
          start = (if len > effective_limit limit then len - effective_limit limit else 0)
      in map (\<lambda>i. all_history ! i) [start..<len])"

fun since_loop :: "nat \<Rightarrow> u64 \<Rightarrow> price_data_point list \<Rightarrow> price_data_point list \<Rightarrow> price_data_point list" where
  "since_loop effective since [] result = result"
| "since_loop effective since (dp # rest) result =
     (if length result \<ge> effective then result
      else since_loop effective since rest (if dp_timestamp dp \<ge> since then result @ [dp] else result))"

definition get_price_history_since :: "string \<Rightarrow> u64 \<Rightarrow> u32 \<Rightarrow> main_storage \<Rightarrow> price_data_point list" where
  "get_price_history_since asset since limit s = since_loop (effective_limit limit) since (get_price_history asset s) []"

lemma since_loop_eq:
  "length result \<le> effective \<Longrightarrow>
     since_loop effective since xs result = result @ take (effective - length result) (filter (\<lambda>dp. dp_timestamp dp \<ge> since) xs)"
  by (induction effective since xs result rule: since_loop.induct) (auto simp: Suc_diff_le take_Cons' Suc_diff_Suc)

lemma history_since:
  "get_price_history_since asset since limit s =
     take (effective_limit limit) (filter (\<lambda>dp. dp_timestamp dp \<ge> since) (get_price_history asset s))"
  by (simp add: get_price_history_since_def since_loop_eq)

lemma map_nth_drop: "map (\<lambda>i. xs ! i) [k..<length xs] = drop k xs"
  by (rule nth_equalityI) simp_all

lemma history_latest: "contract_get_price_history asset limit s =
    drop (length (get_price_history asset s) - effective_limit limit) (get_price_history asset s)"
  by (auto simp: contract_get_price_history_def Let_def map_nth_drop)

subsection \<open>Calls\<close>

datatype admin_call =
    InitContract address | ProposeAdmin address address | AcceptAdmin address | CancelTransfer address
  | SetDeviationCall address u32 | ResetReputationCall address address | AddSourceTo address address string
  | RemoveSourceFrom address address | SetTrustedCall address string bool | SetTreasury address address
  | SetFeeToken address address | SetQueryFee address i128 | SetWhitelist address address bool
  | WithdrawFees address address | PauseFeed address string string | UnpauseFeed address string
  | PausePath address string string | UnpausePath address string

definition kept :: "'v main_result \<Rightarrow> failure + main_storage" where
  "kept r = and_then r (\<lambda>(_, s). Inr s)"

fun admin_call_exec :: "token_answer \<Rightarrow> address \<Rightarrow> env \<Rightarrow> admin_call \<Rightarrow> main_storage \<Rightarrow> failure + main_storage" where
  "admin_call_exec acc self env (InitContract a) s = kept (contract_initialize a s)"
| "admin_call_exec acc self env (ProposeAdmin a b) s = kept (propose_admin env a b s)"
| "admin_call_exec acc self env (AcceptAdmin a) s = kept (accept_admin env a s)"
| "admin_call_exec acc self env (CancelTransfer a) s = kept (cancel_admin_transfer env a s)"
| "admin_call_exec acc self env (SetDeviationCall a t) s = kept (contract_set_deviation_threshold env a t s)"
| "admin_call_exec acc self env (ResetReputationCall a b) s = kept (contract_reset_reputation env a b s)"
| "admin_call_exec acc self env (AddSourceTo a b n) s = kept (contract_add_source env a b n s)"
| "admin_call_exec acc self env (RemoveSourceFrom a b) s = kept (contract_remove_source env a b s)"
| "admin_call_exec acc self env (SetTrustedCall a x b) s = kept (contract_set_trusted_asset env a x b s)"
| "admin_call_exec acc self env (SetTreasury a b) s = kept (set_stake_treasury env a b s)"
| "admin_call_exec acc self env (SetFeeToken a b) s = kept (set_fee_token env a b s)"
| "admin_call_exec acc self env (SetQueryFee a f) s = kept (set_query_fee env a f s)"
| "admin_call_exec acc self env (SetWhitelist a b x) s = kept (set_whitelist env a b x s)"
| "admin_call_exec acc self env (WithdrawFees a b) s = kept (withdraw_fees acc self env a b s)"
| "admin_call_exec acc self env (PauseFeed a x r) s = kept (pause_feed env a x r s)"
| "admin_call_exec acc self env (UnpauseFeed a x) s = kept (unpause_feed env a x s)"
| "admin_call_exec acc self env (PausePath a x r) s = kept (pause_write_path env a x r s)"
| "admin_call_exec acc self env (UnpausePath a x) s = kept (unpause_write_path env a x s)"

lemmas admin_ops = contract_initialize_def propose_admin_def accept_admin_def cancel_admin_transfer_def
  contract_set_deviation_threshold_def contract_reset_reputation_def contract_add_source_def
  contract_remove_source_def contract_set_trusted_asset_def set_stake_treasury_def set_fee_token_def
  set_query_fee_def set_whitelist_def withdraw_fees_def pause_feed_def unpause_feed_def set_feed_paused_def
  pause_write_path_def unpause_write_path_def set_write_path_paused_def set_trusted_asset_def
  publish_def

lemmas admin_results = kept_def as_admin_Inr and_then_Inr Let_def

lemma add_source_main:
  "add_source a n s = Inr s' \<Longrightarrow> st_Admin s' = st_Admin s \<and> submission_part s' = submission_part s \<and> mn_FeeBalance s' = mn_FeeBalance s"
  by (auto simp: add_source_def Let_def and_then_Inr submission_part_def split: if_splits)

lemma remove_source_main [simp]:
  "st_Admin (remove_source a s) = st_Admin s" "submission_part (remove_source a s) = submission_part s"
  "mn_FeeBalance (remove_source a s) = mn_FeeBalance s"
  by (simp_all add: remove_source_def Let_def submission_part_def)

text \<open>Only the first initialisation and an accepted handover change the admin.\<close>
lemma admin_changes_by_handover:
  assumes "admin_call_exec acc self env c s = Inr s'" "st_Admin s' \<noteq> st_Admin s"
  shows "(st_Admin s = None \<and> (\<exists>a. c = InitContract a)) \<or>
     (\<exists>a deadline. c = AcceptAdmin a \<and> mn_PendingAdmin s = Some (a, deadline) \<and> a \<in> set (env_auth env))"
  using assms by (cases c) (auto simp: admin_ops admin_results token_transfer_def dest!: add_source_main
      split: if_splits option.splits)

text \<open>Fees are never collected: no operation raises the balance that \<open>withdraw_fees\<close> pays out.\<close>
lemma fee_balance_never_grows:
  assumes "admin_call_exec acc self env c s = Inr s'" "mn_FeeBalance s = None \<or> mn_FeeBalance s = Some 0"
  shows "mn_FeeBalance s' = None \<or> mn_FeeBalance s' = Some 0"
  using assms by (cases c) (auto simp: admin_ops admin_results token_transfer_def dest!: add_source_main
      split: if_splits option.splits)

text \<open>While the fee balance is zero, the administration leaves the keys of the write paths alone.\<close>
lemma admin_is_other:
  assumes "admin_call_exec acc self env c s = Inr s'" "mn_FeeBalance s = None \<or> mn_FeeBalance s = Some 0"
  shows "submission_part s' = submission_part s"
  using assms by (cases c) (auto simp: admin_ops admin_results get_fee_balance_def submission_part_def
      add_source_def remove_source_def split: if_splits option.splits)



end
