(* ===== verification/Spec2Isabelle.thy ===== *)
theory Spec2Isabelle
  imports Source_Decimals Aggregator Source_Breaker Region_Quarantine Merkle Ws_Replay
    Rate_Limits Db_Breaker Checkpoint Feed_Lifecycle Proposals Emergency_Actions Publisher Catalog_Routes
    Oracle_Proxy Oracle_Multisig Oracle_Voting Oracle_Admin
begin

text \<open>
  A verification library for a price oracle: an aggregation service that collects prices from
  several sources and publishes them to a contract, an API with a governance plane in front of it, a
  client library, and the contract itself. Paths below are relative to the source tree.

  \<^bold>\<open>The program and how its parts interact.\<close> \<open>services/aggregator\<close> reads the sources, normalises their
  decimals, screens their prices (deviation breaker, anomaly detector, freshness), aggregates them to a
  median with an evidence bundle, replicates the result between regions under a fencing epoch, and
  publishes it to the contract, one by one or as a Merkle batch, with retries and a canary share.
  \<open>api\<close> serves prices under rate limits, replays missed WebSocket messages, and holds the governance
  plane: feed lifecycle, multi-signature and token-voting proposals, the conflict-of-interest register,
  emergency actions, the feed catalog with its impact simulation, and the HTTP handlers that tie the
  last four together. \<open>packages/sdk-bindings\<close> resumes a stream from checkpoints.

  \<^bold>\<open>Theories and sources.\<close>
  \<^item> \<open>Js_Prelude\<close>: what the sources use of the language. A \<open>Map\<close> is an association list in insertion
    order (\<open>js_map\<close>, with the interface \<open>keyed_store\<close>), \<open>sort\<close> is the stable \<open>js_sort\<close>, strings are lists of
    characters. Facts shared by all theories are collected there.
  \<^item> \<open>Median\<close>, \<open>Source_Decimals\<close>, \<open>Anomaly\<close>, \<open>Deviation_Breaker\<close>, \<open>Freshness\<close>, \<open>Aggregator\<close>:
    \<open>price-aggregation/\<close>, \<open>price-quality/freshness.ts\<close> and \<open>oracle-sources/decimals.ts\<close>. Every
    operation is a function from the state record of its class; \<open>Aggregator\<close> composes the others in the
    order of \<open>aggregator.ts\<close>.
  \<^item> \<open>Source_Breaker\<close>: the half-open admission control of \<open>source-circuit-breaker.ts\<close>.
  \<^item> \<open>Canary\<close>, \<open>Retry_Queue\<close>, \<open>Publisher\<close>, \<open>Merkle\<close>: \<open>contract-publishing/\<close> and \<open>infrastructure/merkle.ts\<close>.
  \<^item> \<open>Price_Crdt\<close>, \<open>Feed_Ownership\<close>, \<open>Region_Quarantine\<close>: \<open>replication/\<close>.
  \<^item> \<open>Ws_Replay\<close>, \<open>Rate_Limits\<close>, \<open>Db_Breaker\<close>: \<open>api/infrastructure/\<close> and \<open>api/platform/\<close>.
  \<^item> \<open>Feed_Lifecycle\<close>, \<open>Proposals\<close>, \<open>Coi_Register\<close>, \<open>Emergency_Actions\<close>, \<open>Catalog_Policy\<close>,
    \<open>Catalog_Governance\<close>, \<open>Impact_Simulator\<close>, \<open>Catalog_Routes\<close>: \<open>api/feeds/\<close>, \<open>api/governance/\<close> and
    \<open>packages/types/feed-metadata.ts\<close>. \<open>Catalog_Routes\<close> runs the handlers on the stores of the other four.
  \<^item> \<open>Checkpoint\<close>: \<open>packages/sdk-bindings/checkpoint.ts\<close>.

  The contracts are under \<open>contracts/price-oracle/src\<close>. An entry point is a function from the call's
  environment (time and authorising addresses), its arguments and the storage to a result: an error, a missing
  authorisation or a trap, or a value with the new storage. Storage is a record with a field per key;
  \<open>oracle_storage\<close> holds the shared keys and each contract extends it. A failed call changes nothing.
  \<^item> \<open>Soroban_Env\<close>: \<open>errors.rs\<close>, \<open>types.rs\<close>, \<open>events.rs\<close>, the shared part of \<open>storage.rs\<close>, and the
    saturating, checked and trapping arithmetic of the language at its widths.
  \<^item> \<open>Oracle_Utils\<close>: \<open>utils.rs\<close>. \<open>Oracle_Proxy\<close>: \<open>proxy.rs\<close>. \<open>Oracle_Multisig\<close>: \<open>multisig.rs\<close>.
    \<open>Oracle_Voting\<close>: \<open>governance.rs\<close>. \<open>Oracle_Merkle\<close>: \<open>merkle.rs\<close>.
  \<^item> \<open>Oracle_Submission\<close>: \<open>contract/submission.rs\<close>. \<open>Oracle_Admin\<close>: \<open>contract/admin.rs\<close> and
    the price reads of \<open>contract/queries.rs\<close>.

  \<^bold>\<open>What the lemmas show.\<close>
  \<^item> Prices: the median stays within the range that a strict majority of sources reports, under a freshness
    policy only fresh prices that are not suspicious are used, and breakers, canary shares and windows count exactly.
  \<^item> Replication and publishing: registers converge, a stale epoch cannot publish, a queued submission leaves the
    retry queue when passes are spaced by the maximal backoff.
  \<^item> Governance: what is executed or activated by the regular path was approved by enough different parties
    entitled to it, and after its delay where there is one, off-chain and on-chain, over all sequences of calls.
    The guardian's override of \<open>governance.rs\<close> and the direct \<open>upgrade\<close> and \<open>promote_canary\<close> of the proxy are
    not such paths.
  \<^item> Contracts: storage stays consistent, a batch leaf is applied at most once, stakes are covered by
    transfers, and the numeric guards are characterised for every input.
  \<^item> Both sides: this theory shows that proofs built off-chain are accepted on-chain and that the two
    verifiers agree.

  \<^bold>\<open>Parameters.\<close> SHA-256, the balances and the answers of token contracts, lifetimes kept by the host, the
  decimal arithmetic of the median (\<open>bignumber_laws\<close>), and the
  undeclared functions that \<open>submission.rs\<close> calls are arguments of the definitions that use them. What a
  theorem needs of an argument is a hypothesis of it, and its witness gives a concrete function.
  Where \<open>merkle.rs\<close> declares a plain result for a body that returns a fallible one, the body is followed.

  \<^bold>\<open>Termination and bounds.\<close> Loops are total functions, by structure or by a measure such as the size of a tree
  level or the distance to the prune mark. The two trimming loops of \<open>Ws_Replay\<close> are partial functions, and
  that they return is proved. Contract integers keep their width, and an operation that overflows
  traps, saturates or fails as the source says. A helper whose lines lie inside those of another definition is
  documented by that definition.

  \<^bold>\<open>Not modelled.\<close> \<open>contract/governance.rs\<close> declares \<open>cancel_proposal\<close> twice and uses variables out of scope, so
  its operations are not determined; the snapshot and evidence reads of \<open>queries.rs\<close> build records with fields
  their types lack; \<open>contract/mod.rs\<close> holds the entry points, which call the other modules. Lifetime extension is modelled for the proxy only.
  HTTP wiring, persistence, metrics, deployment and clients of external services are mostly input and output.
  Price serving, the other feed services, API keys, data consistency, webhooks, the guard packages, the release
  gate and the sample consumer contain pure logic that could be modelled and that this library does not cover.
\<close>

subsection \<open>The contract accepts what the publisher builds\<close>

text \<open>
  (C39) A proof handed out by the off-chain tree is accepted by the verifier of the contract, for batches
  short enough for its 32-bit counters and entries whose strings it can encode, and the root the contract
  would compute from the leaves is the root the tree reports.
\<close>
theorem published_proof_accepted:
  assumes tree: "newMerkleTree sha (map off_chain es) = Inr t" and i: "i < length es"
    and size: "length es < 2 ^ 32 - 1" and short: "short_strings (es ! i)"
  shows "\<exists>p. mt_getProof (int i) t = Inr p
     \<and> verify_proof sha (es ! i) (of_nat i) (of_nat (length es)) (mp_siblings p) (mt_root t) = Inr True
     \<and> compute_root sha (mt_leaves t) = mt_root t"
proof -
  have u: "unat (of_nat i :: u32) = i" using i size by (simp add: unsigned_of_nat take_bit_nat_eq_self)
  obtain p where p: "mt_getProof (int i) t = Inr p" "mt_verifyProof sha (off_chain (es ! i)) p t = Inr True"
    using merkle_proof_complete [OF tree, of i] i size by auto
  have "p = \<lparr>mp_leafIndex = int (unat (of_nat i :: u32)), mp_siblings = mp_siblings p\<rparr>"
    using p(1) by (simp only: u) (auto simp: mt_getProof_def split: if_splits)
  then have "verify_proof sha (es ! i) (of_nat i) (of_nat (length es)) (mp_siblings p) (mt_root t) = Inr True"
    using verify_proof_agrees [OF tree _ short, of "of_nat i" "mp_siblings p"] size i p(2) u by simp
  moreover have "mt_leaves t \<noteq> []" using newMerkleTree_Inr(1) [OF tree] i by auto
  then have "compute_root sha (mt_leaves t) = mt_root t"
    by (simp add: compute_root_agrees mt_root_def newMerkleTree_Inr(2) [OF tree])
  ultimately show ?thesis using p(1) by blast
qed

definition sample_sha :: "buffer \<Rightarrow> buffer" where
  "sample_sha b = [word_of_nat (length b), sum_list b]"

definition sample_batch :: "chain_entry list" where
  "sample_batch = map (\<lambda>n. \<lparr>ce_asset = ''BTC'', ce_price = of_nat n, ce_decimals = 2, ce_timestamp = 9, ce_source = ''s''\<rparr>) [1..<4]"

theorem published_proof_accepted_witness:
  "\<exists>t p. newMerkleTree sample_sha (map off_chain sample_batch) = Inr t \<and> mt_getProof 2 t = Inr p
     \<and> verify_proof sample_sha (sample_batch ! 2) 2 3 (mp_siblings p) (mt_root t) = Inr True"
proof -
  obtain t where t: "newMerkleTree sample_sha (map off_chain sample_batch) = Inr t"
    by (simp add: newMerkleTree_def sample_batch_def upt_rec off_chain_def hashLeaf_def leaf_preimage_def)
  have "2 < length sample_batch" "length sample_batch < 2 ^ 32 - 1" "short_strings (sample_batch ! 2)"
    by (simp_all add: sample_batch_def short_strings_def buffer_from_def utf8_char_def upt_rec Let_def)
  from published_proof_accepted [OF t this] t show ?thesis by (auto simp: sample_batch_def)
qed

text \<open>
  (C40) The verifier of the contract and the off-chain verifier give the same answer on every proof for a
  position of the batch.
\<close>
theorem verifiers_agree:
  assumes "newMerkleTree sha es = Inr t" "length es < 2 ^ 32 - 1" "short_strings e" "unat i < length es"
  shows "verify_proof sha e i (of_nat (length es)) siblings (mt_root t) = Inr b \<longleftrightarrow>
     mt_verifyProof sha (off_chain e) \<lparr>mp_leafIndex = int (unat i), mp_siblings = siblings\<rparr> t = Inr b"
  using verify_proof_agrees [OF assms, of siblings]
  by (cases "mt_verifyProof sha (off_chain e) \<lparr>mp_leafIndex = int (unat i), mp_siblings = siblings\<rparr> t") auto

theorem verifiers_agree_witness:
  "\<exists>t. newMerkleTree sample_sha (map off_chain sample_batch) = Inr t
     \<and> (verify_proof sample_sha (sample_batch ! 0) 2 3 [] (mt_root t) = Inr False \<longleftrightarrow>
        mt_verifyProof sample_sha (off_chain (sample_batch ! 0)) \<lparr>mp_leafIndex = 2, mp_siblings = []\<rparr> t = Inr False)"
proof -
  obtain t where t: "newMerkleTree sample_sha (map off_chain sample_batch) = Inr t"
    by (simp add: newMerkleTree_def sample_batch_def upt_rec off_chain_def hashLeaf_def leaf_preimage_def)
  have e: "length (map off_chain sample_batch) < 2 ^ 32 - 1" "short_strings (sample_batch ! 0)"
    "unat (2 :: u32) < length (map off_chain sample_batch)"
    by (simp_all add: sample_batch_def short_strings_def buffer_from_def utf8_char_def upt_rec Let_def)
  from verifiers_agree [OF t e, of "[]" False] t show ?thesis by (auto simp: sample_batch_def)
qed

end
